(* ===== verification/Prelude.thy ===== *)
theory Prelude
  imports Main "HOL-Library.Char_ord" "HOL-Library.List_Lexorder"
begin

text \<open>
  Shared vocabulary of the development.  A JavaScript \<open>async\<close> function either resolves
  with a value or rejects with an error; both are modelled by the sum type
  \<open>'e + 'a\<close> (\<open>Inl\<close> the rejection).  \<open>await\<close> of such a result is \<open>sbind\<close>,
  \<open>try { .. } catch (e) { throw h(e) }\<close> is \<open>rethrow h\<close>.  The collections
  \<open>js_simps\<close>, \<open>store_simps\<close> and \<open>resolver_simps\<close> gather the evaluation lemmas of the
  component theories, so that a concrete run evaluates with \<open>simp add: ..._simps\<close>.
\<close>

named_theorems js_simps "evaluation lemmas of the JavaScript value model"
named_theorems store_simps "evaluation lemmas of the document store model"
named_theorems resolver_simps "evaluation lemmas of the resolvers"

type_synonym ('e, 'a) result = "'e + 'a"

definition sbind :: "('e, 'a) result \<Rightarrow> ('a \<Rightarrow> ('e, 'b) result) \<Rightarrow> ('e, 'b) result" where
  "sbind m f = (case m of Inl e \<Rightarrow> Inl e | Inr a \<Rightarrow> f a)"

definition rethrow :: "('e \<Rightarrow> 'e) \<Rightarrow> ('e, 'a) result \<Rightarrow> ('e, 'a) result" where
  "rethrow h m = (case m of Inl e \<Rightarrow> Inl (h e) | Inr a \<Rightarrow> Inr a)"

subsection \<open>Strictly sorted association lists\<close>

text \<open>
  The document store keeps its documents in a list sorted strictly by key, the order in
  which the database returns them.  These facts about such lists are shared by the store
  and by the properties of the resolvers.
\<close>

abbreviation strict_keys :: "('k::linorder \<times> 'v) list \<Rightarrow> bool" where
  "strict_keys ps \<equiv> sorted_wrt (<) (map fst ps)"

fun upd_sorted :: "'k::linorder \<Rightarrow> 'v \<Rightarrow> ('k \<times> 'v) list \<Rightarrow> ('k \<times> 'v) list" where
  "upd_sorted k v [] = [(k, v)]"
| "upd_sorted k v ((a, b) # ps) =
     (if k < a then (k, v) # (a, b) # ps
      else if k = a then (k, v) # ps
      else (a, b) # upd_sorted k v ps)"

subsection \<open>Lemmas\<close>

lemma sbind_Inl [simp]: "sbind (Inl e) f = Inl e"
  by (simp add: sbind_def)

lemma sbind_Inr [simp]: "sbind (Inr a) f = f a"
  by (simp add: sbind_def)

lemma rethrow_Inl [simp]: "rethrow h (Inl e) = Inl (h e)"
  by (simp add: rethrow_def)

lemma rethrow_Inr [simp]: "rethrow h (Inr a) = Inr a"
  by (simp add: rethrow_def)

lemma sbind_eq_Inr_iff: "sbind m f = Inr b \<longleftrightarrow> (\<exists>a. m = Inr a \<and> f a = Inr b)"
  by (cases m) simp_all

lemma sbind_eq_Inl_iff:
  "sbind m f = Inl e \<longleftrightarrow> m = Inl e \<or> (\<exists>a. m = Inr a \<and> f a = Inl e)"
  by (cases m) simp_all

lemma rethrow_eq_Inr_iff: "rethrow h m = Inr a \<longleftrightarrow> m = Inr a"
  by (cases m) simp_all

lemma rethrow_eq_Inl_iff: "rethrow h m = Inl e \<longleftrightarrow> (\<exists>e'. m = Inl e' \<and> e = h e')"
  by (cases m) auto

lemma rethrow_sbind: "rethrow h (sbind m f) = sbind (rethrow h m) (\<lambda>a. rethrow h (f a))"
  by (cases m) simp_all

lemma set_map_fst_upd_sorted: "set (map fst (upd_sorted k v ps)) = insert k (set (map fst ps))"
  by (induction ps rule: upd_sorted.induct) auto

lemma set_upd_sorted_subset: "set (upd_sorted k v ps) \<subseteq> insert (k, v) (set ps)"
  by (induction ps rule: upd_sorted.induct) auto

lemma strict_keys_upd_sorted: "strict_keys ps \<Longrightarrow> strict_keys (upd_sorted k v ps)"
  by (induction ps rule: upd_sorted.induct) (auto dest: set_upd_sorted_subset [THEN subsetD])

lemma map_of_upd_sorted: "map_of (upd_sorted k v ps) = (map_of ps)(k \<mapsto> v)"
  by (induction ps rule: upd_sorted.induct) (auto simp: fun_eq_iff)

lemma strict_keys_filter: "strict_keys ps \<Longrightarrow> strict_keys (filter P ps)"
  by (induction ps) auto

lemma strict_keys_map_of_Some:
  "strict_keys ps \<Longrightarrow> map_of ps k = Some v \<longleftrightarrow> (k, v) \<in> set ps"
proof (induction ps)
  case Nil
  then show ?case by simp
next
  case (Cons p ps)
  then show ?case by (cases p) (auto dest: map_of_SomeD)
qed

end
