(* ===== verification/JsValue.thy ===== *)
theory JsValue
  imports Prelude
begin

text \<open>
  The JavaScript values the resolvers of \<^verbatim>\<open>src/apollo/src/index.ts\<close> handle: the plain
  objects that \<^verbatim>\<open>snapshot.data()\<close> returns, the arguments object of a query, the error
  objects that are thrown or returned, and the string operations the code relies on
  implicitly: property access (\<^verbatim>\<open>user.id\<close>, \<^verbatim>\<open>item.userId\<close>, \<^verbatim>\<open>args.id\<close>), the
  conversion of a value to a string inside a template literal
  (\<^verbatim>\<open>`users/${item.userId}`\<close>), truthiness (\<^verbatim>\<open>user || ...\<close>), and the splitting and
  joining of strings at a separator that the database client applies to paths.
  Numbers are integers here: the documents of this program hold strings, and the
  integer case shows how a numeric key is printed.
\<close>

subsection \<open>Errors\<close>

text \<open>
  The error objects that can reach a resolver or leave one.  \<open>JsError\<close> is a plain
  \<^verbatim>\<open>Error\<close> (the client library's argument checks throw these), \<open>TypeError\<close> the error
  of a property read on \<^verbatim>\<open>undefined\<close> or \<^verbatim>\<open>null\<close>, \<open>GrpcError\<close> a failed remote call
  of the database client (status code and details), \<open>ApolloError\<close> and
  \<open>ValidationError\<close> the two classes the source imports from \<^verbatim>\<open>apollo-server\<close>.
\<close>

datatype jserr =
    JsError string
  | TypeError string
  | GrpcError nat string
  | ApolloError string
  | ValidationError string

fun grpc_status_name :: "nat \<Rightarrow> string" where
  "grpc_status_name n =
     (if n = 0 then ''OK'' else if n = 1 then ''CANCELLED'' else if n = 2 then ''UNKNOWN''
      else if n = 3 then ''INVALID_ARGUMENT'' else if n = 4 then ''DEADLINE_EXCEEDED''
      else if n = 5 then ''NOT_FOUND'' else if n = 6 then ''ALREADY_EXISTS''
      else if n = 7 then ''PERMISSION_DENIED'' else if n = 8 then ''RESOURCE_EXHAUSTED''
      else if n = 9 then ''FAILED_PRECONDITION'' else if n = 10 then ''ABORTED''
      else if n = 11 then ''OUT_OF_RANGE'' else if n = 12 then ''UNIMPLEMENTED''
      else if n = 13 then ''INTERNAL'' else if n = 14 then ''UNAVAILABLE''
      else if n = 15 then ''DATA_LOSS'' else if n = 16 then ''UNAUTHENTICATED''
      else ''UNKNOWN'')"

subsection \<open>Decimal printing of integers\<close>

fun nat_str :: "nat \<Rightarrow> string" where
  "nat_str n =
     (if n < 10 then [char_of (48 + n)] else nat_str (n div 10) @ [char_of (48 + n mod 10)])"

declare nat_str.simps [simp del]

definition int_str :: "int \<Rightarrow> string" where
  "int_str i = (if i < 0 then CHR ''-'' # nat_str (nat (- i)) else nat_str (nat i))"

fun error_name :: "jserr \<Rightarrow> string" where
  "error_name (JsError _) = ''Error''"
| "error_name (TypeError _) = ''TypeError''"
| "error_name (GrpcError _ _) = ''Error''"
| "error_name (ApolloError _) = ''ApolloError''"
| "error_name (ValidationError _) = ''ValidationError''"

fun error_message :: "jserr \<Rightarrow> string" where
  "error_message (JsError m) = m"
| "error_message (TypeError m) = m"
| "error_message (GrpcError c d) = nat_str c @ '' '' @ grpc_status_name c @ '': '' @ d"
| "error_message (ApolloError m) = m"
| "error_message (ValidationError m) = m"

text \<open>\<^verbatim>\<open>Error.prototype.toString\<close>: the name, a colon and the message.\<close>

definition error_to_string :: "jserr \<Rightarrow> string" where
  "error_to_string e =
     (let n = error_name e; m = error_message e
      in if m = [] then n else n @ '': '' @ m)"

subsection \<open>Values\<close>

datatype jsval =
    JUndefined
  | JNull
  | JBool bool
  | JNum int
  | JStr string
  | JArr "jsval list"
  | JObj "(string \<times> jsval) list"
  | JErr jserr

type_synonym fields = "(string \<times> jsval) list"

text \<open>
  Property access \<open>v.k\<close>.  On an object it is the first binding of the key, or
  \<^verbatim>\<open>undefined\<close>; on \<^verbatim>\<open>undefined\<close> and \<^verbatim>\<open>null\<close> it throws a \<^verbatim>\<open>TypeError\<close>, with
  Node's message.  The program reads only data properties of objects; the built-in
  properties of primitives (\<^verbatim>\<open>"abc".length\<close>) are not modelled and read as
  \<^verbatim>\<open>undefined\<close>.
\<close>

definition read_error :: "string \<Rightarrow> string \<Rightarrow> jserr" where
  "read_error what k =
     TypeError (''Cannot read properties of '' @ what @ '' (reading '' @ [CHR 0x27] @ k @ [CHR 0x27] @ '')'')"

fun get_prop :: "jsval \<Rightarrow> string \<Rightarrow> (jserr, jsval) result" where
  "get_prop JUndefined k = Inl (read_error ''undefined'' k)"
| "get_prop JNull k = Inl (read_error ''null'' k)"
| "get_prop (JObj fs) k = Inr (case map_of fs k of Some v \<Rightarrow> v | None \<Rightarrow> JUndefined)"
| "get_prop _ k = Inr JUndefined"

text \<open>Truthiness, as \<^verbatim>\<open>||\<close> tests it (NaN and \<^verbatim>\<open>-0\<close> are outside the model).\<close>

fun js_truthy :: "jsval \<Rightarrow> bool" where
  "js_truthy JUndefined = False"
| "js_truthy JNull = False"
| "js_truthy (JBool b) = b"
| "js_truthy (JNum n) = (n \<noteq> 0)"
| "js_truthy (JStr s) = (s \<noteq> [])"
| "js_truthy (JArr _) = True"
| "js_truthy (JObj _) = True"
| "js_truthy (JErr _) = True"

definition js_or :: "jsval \<Rightarrow> jsval \<Rightarrow> jsval" where
  "js_or a b = (if js_truthy a then a else b)"

subsection \<open>Strings: join, split, ToString\<close>

text \<open>\<^verbatim>\<open>Array.prototype.join(sep)\<close> on strings, and \<^verbatim>\<open>String.prototype.split(c)\<close>.\<close>

fun js_join :: "string \<Rightarrow> string list \<Rightarrow> string" where
  "js_join sep [] = []"
| "js_join sep [x] = x"
| "js_join sep (x # xs) = x @ sep @ js_join sep xs"

fun js_split :: "char \<Rightarrow> string \<Rightarrow> string list" where
  "js_split c [] = [[]]"
| "js_split c (x # xs) =
     (let r = js_split c xs in if x = c then [] # r else (x # hd r) # tl r)"

text \<open>
  ToString of a value, as a template literal applies it: \<^verbatim>\<open>`${v}`\<close>.  An array prints
  its elements joined by commas, \<^verbatim>\<open>null\<close> and \<^verbatim>\<open>undefined\<close> elements as empty
  strings; a plain object prints as \<^verbatim>\<open>[object Object]\<close>; an error through
  \<^verbatim>\<open>Error.prototype.toString\<close>.
\<close>

fun js_to_string :: "jsval \<Rightarrow> string" where
  "js_to_string JUndefined = ''undefined''"
| "js_to_string JNull = ''null''"
| "js_to_string (JBool b) = (if b then ''true'' else ''false'')"
| "js_to_string (JNum n) = int_str n"
| "js_to_string (JStr s) = s"
| "js_to_string (JArr xs) =
     js_join '','' (map (\<lambda>x. if x = JUndefined \<or> x = JNull then [] else js_to_string x) xs)"
| "js_to_string (JObj _) = ''[object Object]''"
| "js_to_string (JErr e) = error_to_string e"

definition is_digit :: "char \<Rightarrow> bool" where
  "is_digit ch \<longleftrightarrow> 48 \<le> (of_char ch :: nat) \<and> (of_char ch :: nat) \<le> 57"

subsection \<open>Lemmas\<close>

lemma js_split_nonempty: "js_split c s \<noteq> []"
  by (induction s) (auto simp: Let_def)

lemma js_join_Cons: "js_join sep (x # xs) = (if xs = [] then x else x @ sep @ js_join sep xs)"
  by (cases xs) simp_all

text \<open>Splitting a string at a character and joining the pieces with that
  character gives the string back, whatever it holds (empty pieces included).\<close>

theorem js_join_split: "js_join [c] (js_split c s) = s"
proof (induction s)
  case Nil
  then show ?case by simp
next
  case (Cons x xs)
  obtain w ws where r: "js_split c xs = w # ws"
    using js_split_nonempty [of c xs] by (cases "js_split c xs") auto
  with Cons.IH show ?case by (auto simp: Let_def js_join_Cons)
qed

lemma js_split_join:
  "ws \<noteq> [] \<Longrightarrow> \<forall>w\<in>set ws. c \<notin> set w \<Longrightarrow> js_split c (js_join [c] ws) = ws"
proof (induction ws)
  case Nil
  then show ?case by simp
next
  case (Cons w ws)
  have word: "c \<notin> set w \<Longrightarrow> js_split c (w @ rest) = (w @ hd (js_split c rest)) # tl (js_split c rest)" for rest
    by (induction w) (auto simp: Let_def js_split_nonempty)
  show ?case
  proof (cases ws)
    case Nil
    with Cons.prems show ?thesis using word [of "[]"] by simp
  next
    case (Cons v vs)
    with Cons.prems Cons.IH show ?thesis using word [of "c # js_join [c] ws"] by (simp add: Let_def)
  qed
qed


lemma is_digit_char_of: "d < 10 \<Longrightarrow> is_digit (char_of (48 + d :: nat))"
  by (simp add: is_digit_def take_bit_nat_eq_self)

lemma nat_str_digits: "\<forall>ch\<in>set (nat_str n). is_digit ch"
proof (induction n rule: nat_str.induct)
  case (1 n)
  then show ?case by (subst nat_str.simps) (auto intro: is_digit_char_of)
qed

lemma nat_str_nonempty: "nat_str n \<noteq> []"
  by (subst nat_str.simps) simp

lemma slash_not_in_int_str: "CHR ''/'' \<notin> set (int_str i)"
proof -
  have "\<not> is_digit CHR ''/''" and "\<not> is_digit CHR ''-''" by (simp_all add: is_digit_def)
  then show ?thesis using nat_str_digits by (auto simp: int_str_def)
qed


lemma js_or_truthy [simp]: "js_truthy a \<Longrightarrow> js_or a b = a"
  by (simp add: js_or_def)

lemma js_or_falsy [simp]: "\<not> js_truthy a \<Longrightarrow> js_or a b = b"
  by (simp add: js_or_def)

lemma get_prop_JObj_eq_Inr: "get_prop (JObj fs) k = Inr v \<longleftrightarrow> v = (case map_of fs k of Some w \<Rightarrow> w | None \<Rightarrow> JUndefined)"
  by auto

declare error_to_string_def [js_simps] int_str_def [js_simps] read_error_def [js_simps]
  js_or_def [js_simps] nat_str.simps [js_simps]

text \<open>The characters \<open>nat_str\<close> emits, so that \<open>simp\<close> prints a concrete number.\<close>

lemma digit_chars [js_simps]:
  "char_of (48::nat) = CHR ''0''" "char_of (49::nat) = CHR ''1''" "char_of (50::nat) = CHR ''2''"
  "char_of (51::nat) = CHR ''3''" "char_of (52::nat) = CHR ''4''" "char_of (53::nat) = CHR ''5''"
  "char_of (54::nat) = CHR ''6''" "char_of (55::nat) = CHR ''7''" "char_of (56::nat) = CHR ''8''"
  "char_of (57::nat) = CHR ''9''"
  by code_simp+

end
