(* ===== verification/Firestore.thy ===== *)
theory Firestore
  imports JsValue
begin

text \<open>
  The document database the resolvers call through \<^verbatim>\<open>firebaseAdmin.firestore()\<close>.  It is
  not code of this repository: the operations below model the client library
  (\<^verbatim>\<open>@google-cloud/firestore\<close>) as far as the program uses it.
  \<^item> A path is a list of segments.  \<open>fs_doc\<close> and \<open>fs_collection\<close> are
    \<^verbatim>\<open>firestore().doc(s)\<close> and \<^verbatim>\<open>firestore().collection(s)\<close>: they reject an empty
    string and a string containing \<^verbatim>\<open>//\<close>, split the rest at \<^verbatim>\<open>/\<close>, drop empty
    segments, and require an even (document) or odd (collection) number of segments.
  \<^item> The store is a list of documents (path and fields) sorted strictly by path, which
    is the order in which the database returns query results (by document name), and a
    fault oracle that says which remote calls fail and with which error.
  \<^item> \<open>doc_get\<close> is \<^verbatim>\<open>DocumentReference.get()\<close>: a snapshot that holds the fields or
    nothing; \<open>snapshot_data\<close> is \<^verbatim>\<open>snapshot.data()\<close>, \<^verbatim>\<open>undefined\<close> for a missing
    document.  \<open>query_get\<close> is \<^verbatim>\<open>Query.get()\<close>: the documents directly under the
    collection that satisfy every equality filter, in path order.  \<open>fs_where\<close> is
    \<^verbatim>\<open>where(field, '==', value)\<close>, which rejects a value the database cannot store.
  \<^item> \<open>fs_set\<close> is \<^verbatim>\<open>DocumentReference.set(data)\<close>; the program never writes, but
    the documents it reads are written this way, so the write/read round trip is stated
    with it.
\<close>

type_synonym path = "string list"

datatype fs_query = FQuery path "(string \<times> jsval) list"

datatype request = GetDoc path | RunQuery path "(string \<times> jsval) list"

record fstore =
  docs :: "(path \<times> fields) list"
  fault :: "request \<Rightarrow> jserr option"

subsection \<open>Paths\<close>

fun has_dslash :: "string \<Rightarrow> bool" where
  "has_dslash (a # b # r) = ((a = CHR ''/'' \<and> b = CHR ''/'') \<or> has_dslash (b # r))"
| "has_dslash _ = False"

definition validate_resource_path :: "string \<Rightarrow> string \<Rightarrow> jserr option" where
  "validate_resource_path arg s =
     (if s = [] then Some (JsError (''Value for argument '' @ arg @
        '' is not a valid resource path. Path must be a non-empty string.''))
      else if has_dslash s then Some (JsError (''Value for argument '' @ arg @
        '' is not a valid resource path. Paths must not contain //.''))
      else None)"

definition path_segments :: "string \<Rightarrow> path" where
  "path_segments s = filter (\<lambda>w. w \<noteq> []) (js_split CHR ''/'' s)"

definition fs_doc :: "string \<Rightarrow> (jserr, path) result" where
  "fs_doc s =
     (case validate_resource_path ''documentPath'' s of
        Some e \<Rightarrow> Inl e
      | None \<Rightarrow>
          (let p = path_segments s
           in if p \<noteq> [] \<and> even (length p) then Inr p
              else Inl (JsError (''Value for argument documentPath must point to a document, but was ''
                         @ s @ ''. Your path does not contain an even number of components.''))))"

definition fs_collection :: "string \<Rightarrow> (jserr, fs_query) result" where
  "fs_collection s =
     (case validate_resource_path ''collectionPath'' s of
        Some e \<Rightarrow> Inl e
      | None \<Rightarrow>
          (let p = path_segments s
           in if odd (length p) then Inr (FQuery p [])
              else Inl (JsError (''Value for argument collectionPath must point to a collection, but was ''
                         @ s @ ''. Your path does not contain an odd number of components.''))))"

subsection \<open>Values the database stores\<close>

text \<open>
  A stored value has no \<^verbatim>\<open>undefined\<close> anywhere, is not an error object, and has no
  array directly inside an array; an object has distinct keys.
\<close>

fun is_arr :: "jsval \<Rightarrow> bool" where
  "is_arr (JArr _) = True"
| "is_arr _ = False"

fun fs_value :: "jsval \<Rightarrow> bool" where
  "fs_value JUndefined = False"
| "fs_value (JErr _) = False"
| "fs_value (JArr xs) = list_all (\<lambda>x. fs_value x \<and> \<not> is_arr x) xs"
| "fs_value (JObj fs) = (distinct (map fst fs) \<and> list_all (\<lambda>p. fs_value (snd p)) fs)"
| "fs_value _ = True"

definition wf_fields :: "fields \<Rightarrow> bool" where
  "wf_fields fs \<longleftrightarrow> distinct (map fst fs) \<and> list_all (\<lambda>p. fs_value (snd p)) fs"

definition fs_where :: "fs_query \<Rightarrow> string \<Rightarrow> jsval \<Rightarrow> (jserr, fs_query) result" where
  "fs_where q f v =
     (case q of FQuery par flts \<Rightarrow>
        if fs_value v then Inr (FQuery par (flts @ [(f, v)]))
        else Inl (JsError (''Value for argument value is not a valid query constraint. Cannot use ''
                   @ js_to_string v @ '' as a Firestore value.'')))"

subsection \<open>Reads\<close>

definition is_child :: "path \<Rightarrow> path \<Rightarrow> bool" where
  "is_child par p \<longleftrightarrow> p \<noteq> [] \<and> butlast p = par"

definition matches :: "(string \<times> jsval) list \<Rightarrow> fields \<Rightarrow> bool" where
  "matches flts fs \<longleftrightarrow> list_all (\<lambda>(f, v). map_of fs f = Some v) flts"

definition doc_get :: "fstore \<Rightarrow> path \<Rightarrow> (jserr, fields option) result" where
  "doc_get st p = (case fault st (GetDoc p) of Some e \<Rightarrow> Inl e | None \<Rightarrow> Inr (map_of (docs st) p))"

definition snapshot_data :: "fields option \<Rightarrow> jsval" where
  "snapshot_data snap = (case snap of Some fs \<Rightarrow> JObj fs | None \<Rightarrow> JUndefined)"

definition query_get :: "fstore \<Rightarrow> fs_query \<Rightarrow> (jserr, (path \<times> fields) list) result" where
  "query_get st q =
     (case q of FQuery par flts \<Rightarrow>
        (case fault st (RunQuery par flts) of
           Some e \<Rightarrow> Inl e
         | None \<Rightarrow> Inr (filter (\<lambda>(p, fs). is_child par p \<and> matches flts fs) (docs st))))"

subsection \<open>Writes and the store invariant\<close>

definition is_doc_path :: "path \<Rightarrow> bool" where
  "is_doc_path p \<longleftrightarrow> p \<noteq> [] \<and> even (length p) \<and> list_all (\<lambda>w. w \<noteq> [] \<and> CHR ''/'' \<notin> set w) p"

definition wf_store :: "fstore \<Rightarrow> bool" where
  "wf_store st \<longleftrightarrow> strict_keys (docs st) \<and> list_all (\<lambda>(p, fs). is_doc_path p \<and> wf_fields fs) (docs st)"

definition fs_set :: "fstore \<Rightarrow> path \<Rightarrow> fields \<Rightarrow> (jserr, fstore) result" where
  "fs_set st p fs =
     (if \<not> is_doc_path p then Inl (JsError ''Value for argument documentPath must point to a document.'')
      else if \<not> wf_fields fs then Inl (JsError ''Value for argument data is not a valid Firestore document.'')
      else Inr (st\<lparr>docs := upd_sorted p fs (docs st)\<rparr>))"

text \<open>
  A key a resolver appends to \<^verbatim>\<open>users/\<close> is read back as exactly one segment when
  it is a non-empty string with no slash.
\<close>

definition valid_key :: "string \<Rightarrow> bool" where
  "valid_key k \<longleftrightarrow> k \<noteq> [] \<and> CHR ''/'' \<notin> set k"

definition empty_store :: fstore where
  "empty_store = \<lparr>docs = [], fault = (\<lambda>_. None)\<rparr>"

text \<open>
  A small database used by the concrete runs: three items, two owned by \<open>u1\<close>, the
  user \<open>u1\<close>, and a document in a subcollection below that user.
\<close>

definition demo_store :: fstore where
  "demo_store = \<lparr>docs = [
     ([''items'', ''i1''], [(''id'', JStr ''i1''), (''userId'', JStr ''u1''), (''title'', JStr ''T1''), (''content'', JStr ''C1'')]),
     ([''items'', ''i2''], [(''id'', JStr ''i2''), (''userId'', JStr ''u2''), (''title'', JStr ''T2''), (''content'', JStr ''C2'')]),
     ([''items'', ''i3''], [(''id'', JStr ''i3''), (''userId'', JStr ''u1''), (''title'', JStr ''T3''), (''content'', JStr ''C3'')]),
     ([''users'', ''u1''], [(''id'', JStr ''u1''), (''name'', JStr ''Ann''), (''birthday'', JStr ''2000-01-01'')]),
     ([''users'', ''u1'', ''secrets'', ''s1''], [(''token'', JStr ''xyz'')])],
   fault = (\<lambda>_. None)\<rparr>"

declare validate_resource_path_def [store_simps] path_segments_def [store_simps]
  fs_doc_def [store_simps] fs_collection_def [store_simps] fs_where_def [store_simps]
  is_child_def [store_simps] matches_def [store_simps] doc_get_def [store_simps]
  snapshot_data_def [store_simps] query_get_def [store_simps] fs_set_def [store_simps]
  is_doc_path_def [store_simps] wf_fields_def [store_simps] wf_store_def [store_simps]
  empty_store_def [store_simps] valid_key_def [store_simps]


subsection \<open>Paths: printing and parsing\<close>

lemma has_dslash_noslash_append: "CHR ''/'' \<notin> set w \<Longrightarrow> has_dslash (w @ r) = has_dslash r"
proof (induction w)
  case Nil
  then show ?case by simp
next
  case (Cons x w)
  then show ?case by (cases "w @ r") auto
qed

lemma has_dslash_slash_Cons: "has_dslash (CHR ''/'' # r) = ((r \<noteq> [] \<and> hd r = CHR ''/'') \<or> has_dslash r)"
  by (cases r) auto

lemma hd_js_join: "ws \<noteq> [] \<Longrightarrow> hd ws \<noteq> [] \<Longrightarrow> hd (js_join sep ws) = hd (hd ws)"
  by (cases ws) (auto simp: js_join_Cons)

lemma js_join_nonempty: "ws \<noteq> [] \<Longrightarrow> hd ws \<noteq> [] \<Longrightarrow> js_join sep ws \<noteq> []"
  by (cases ws) (auto simp: js_join_Cons)

lemma no_dslash_js_join:
  "list_all (\<lambda>w. w \<noteq> [] \<and> CHR ''/'' \<notin> set w) ws \<Longrightarrow> \<not> has_dslash (js_join ''/'' ws)"
proof (induction ws)
  case Nil
  then show ?case by simp
next
  case (Cons w ws)
  then show ?case
    using has_dslash_noslash_append [of _ "[]"]
    by (cases ws) (auto simp: js_join_Cons has_dslash_noslash_append has_dslash_slash_Cons
        hd_js_join dest: hd_in_set)
qed

lemma path_segments_js_join:
  "ws \<noteq> [] \<Longrightarrow> list_all (\<lambda>w. w \<noteq> [] \<and> CHR ''/'' \<notin> set w) ws \<Longrightarrow>
   path_segments (js_join ''/'' ws) = ws"
  by (simp add: path_segments_def js_split_join [of ws "CHR ''/''", simplified] list_all_iff filter_id_conv)

lemma fs_doc_valid_path:
  assumes "is_doc_path p"
  shows "fs_doc (js_join ''/'' p) = Inr p"
proof -
  from assms have segs: "p \<noteq> []" "list_all (\<lambda>w. w \<noteq> [] \<and> CHR ''/'' \<notin> set w) p" "even (length p)"
    by (simp_all add: is_doc_path_def)
  then have "hd p \<noteq> []" by (cases p) auto
  with segs show ?thesis
    by (simp add: fs_doc_def validate_resource_path_def js_join_nonempty no_dslash_js_join
        path_segments_js_join)
qed

lemma fs_doc_key:
  "valid_key c \<Longrightarrow> valid_key k \<Longrightarrow> fs_doc (c @ ''/'' @ k) = Inr [c, k]"
  using fs_doc_valid_path [of "[c, k]"] by (simp add: is_doc_path_def valid_key_def)

lemma js_split_no_sep: "w \<in> set (js_split c s) \<Longrightarrow> c \<notin> set w"
proof (induction s arbitrary: w)
  case Nil
  then show ?case by simp
next
  case (Cons x xs)
  have "js_split c xs \<noteq> []" by (rule js_split_nonempty)
  then have "hd (js_split c xs) \<in> set (js_split c xs)" and "set (tl (js_split c xs)) \<subseteq> set (js_split c xs)"
    by (auto simp: list.set_sel(2))
  with Cons show ?case by (auto simp: Let_def split: if_splits)
qed

lemma fs_doc_Inr_is_doc_path: "fs_doc s = Inr q \<Longrightarrow> is_doc_path q"
  by (auto simp: fs_doc_def Let_def is_doc_path_def path_segments_def list_all_iff
      split: option.splits if_splits dest: js_split_no_sep)

text \<open>Printing a document path with slashes and handing it to \<^verbatim>\<open>doc()\<close> gives the
  path back, and every path \<^verbatim>\<open>doc()\<close> accepts is a document path.\<close>

theorem fs_doc_roundtrip:
  "(is_doc_path p \<longrightarrow> fs_doc (js_join ''/'' p) = Inr p) \<and> (fs_doc s = Inr q \<longrightarrow> is_doc_path q)"
  using fs_doc_valid_path fs_doc_Inr_is_doc_path by blast

theorem fs_doc_roundtrip_witness:
  "fs_doc (js_join ''/'' [''users'', ''u1'', ''secrets'', ''s1'']) = Inr [''users'', ''u1'', ''secrets'', ''s1'']
   \<and> is_doc_path [''users'', ''u1'']"
proof -
  have "fs_doc ''users/u1/'' = Inr [''users'', ''u1'']" by (simp add: store_simps)
  moreover have "is_doc_path [''users'', ''u1'', ''secrets'', ''s1'']" by (simp add: is_doc_path_def)
  ultimately show ?thesis
    using fs_doc_roundtrip [of "[''users'', ''u1'', ''secrets'', ''s1'']" "''users/u1/''" "[''users'', ''u1'']"]
    by blast
qed

subsection \<open>Writes keep the store well formed\<close>

lemma fs_set_Inr_iff:
  "fs_set st p fs = Inr st' \<longleftrightarrow> is_doc_path p \<and> wf_fields fs \<and> st' = st\<lparr>docs := upd_sorted p fs (docs st)\<rparr>"
  by (auto simp: fs_set_def)

text \<open>A write through \<^verbatim>\<open>set()\<close> keeps the store well formed: documents
  sorted strictly by path, every path a document path, every document a valid map.\<close>

theorem fs_set_wf: "wf_store st \<Longrightarrow> fs_set st p fs = Inr st' \<Longrightarrow> wf_store st'"
  by (auto simp: fs_set_Inr_iff wf_store_def strict_keys_upd_sorted list_all_iff
      dest!: set_upd_sorted_subset [THEN subsetD])

text \<open>A write refines the update of the abstract map from paths to documents and
  leaves the fault oracle alone.\<close>

theorem fs_set_refines:
  "fs_set st p fs = Inr st' \<Longrightarrow> map_of (docs st') = (map_of (docs st))(p \<mapsto> fs) \<and> fault st' = fault st"
  by (auto simp: fs_set_Inr_iff map_of_upd_sorted)

subsection \<open>Queries refine the abstract store\<close>

text \<open>
  The abstract store is the map \<open>map_of (docs st)\<close> from paths to fields.  A query
  returns the set of its documents under the collection that satisfy the filters, listed
  in path order, and so in order of document id.
\<close>

lemma query_get_result:
  "query_get st (FQuery par flts) = Inr ds \<longleftrightarrow>
   fault st (RunQuery par flts) = None \<and> ds = filter (\<lambda>(p, fs). is_child par p \<and> matches flts fs) (docs st)"
  by (auto simp: query_get_def split: option.splits)

lemma set_filter_strict_keys:
  "strict_keys xs \<Longrightarrow> set (filter P xs) = {(p, fs). map_of xs p = Some fs \<and> P (p, fs)}"
  by (auto simp: strict_keys_map_of_Some)

text \<open>A query that does not fail returns exactly the documents directly under the
  collection that satisfy its filters, in strictly increasing path order.\<close>

theorem query_get_refines:
  assumes "wf_store st" and "fault st (RunQuery par flts) = None"
  shows "\<exists>ds. query_get st (FQuery par flts) = Inr ds
           \<and> set ds = {(p, fs). map_of (docs st) p = Some fs \<and> is_child par p \<and> matches flts fs}
           \<and> strict_keys ds"
proof -
  have sk: "strict_keys (docs st)" using assms(1) by (simp add: wf_store_def)
  let ?ds = "filter (\<lambda>(p, fs). is_child par p \<and> matches flts fs) (docs st)"
  have "query_get st (FQuery par flts) = Inr ?ds" using assms(2) by (simp add: query_get_result)
  moreover have "set ?ds = {(p, fs). map_of (docs st) p = Some fs \<and> is_child par p \<and> matches flts fs}"
    using set_filter_strict_keys [OF sk] by simp
  moreover have "strict_keys ?ds" using sk by (rule strict_keys_filter)
  ultimately show ?thesis by blast
qed

lemma less_snoc_same_prefix: "(xs @ [a] < xs @ [b]) \<longleftrightarrow> a < (b :: 'a :: linorder)"
  by (induction xs) auto

lemma strict_keys_children_ids:
  "strict_keys ds \<Longrightarrow> \<forall>d\<in>set ds. is_child par (fst d) \<Longrightarrow> sorted_wrt (<) (map (\<lambda>d. last (fst d)) ds)"
proof (induction ds)
  case Nil
  then show ?case by simp
next
  case (Cons d ds)
  have ch: "fst x = par @ [last (fst x)]" if "x \<in> set (d # ds)" for x
    using Cons.prems(2) that by (auto simp: is_child_def) (metis append_butlast_last_id)
  have "last (fst d) < last (fst x)" if "x \<in> set ds" for x
  proof -
    have "fst d < fst x" using Cons.prems(1) that by auto
    then have "par @ [last (fst d)] < par @ [last (fst x)]"
      using ch [of d] ch [of x] that by simp
    then show ?thesis by (simp add: less_snoc_same_prefix)
  qed
  with Cons show ?case by auto
qed

lemma filter_children_sorted_by_id:
  "strict_keys xs \<Longrightarrow> sorted_wrt (<) (map (\<lambda>d. last (fst d)) (filter (\<lambda>(p, fs). is_child par p \<and> P p fs) xs))"
  by (rule strict_keys_children_ids [OF strict_keys_filter]) auto

text \<open>A query returns its documents in strictly increasing order of document id.\<close>

theorem query_get_sorted_by_id:
  assumes "query_get st (FQuery par flts) = Inr ds" and "wf_store st"
  shows "sorted_wrt (<) (map (\<lambda>d. last (fst d)) ds)"
proof -
  from assms have ds: "ds = filter (\<lambda>(p, fs). is_child par p \<and> matches flts fs) (docs st)"
    by (simp add: query_get_result)
  from assms(2) have "strict_keys (docs st)" by (simp add: wf_store_def)
  then show ?thesis unfolding ds by (rule filter_children_sorted_by_id)
qed

theorem fs_set_wf_witness:
  "wf_store (demo_store\<lparr>docs := upd_sorted [''users'', ''u2''] [(''id'', JStr ''u2'')] (docs demo_store)\<rparr>)"
proof (rule fs_set_wf [of demo_store "[''users'', ''u2'']" "[(''id'', JStr ''u2'')]"])
  show "wf_store demo_store" by (simp add: store_simps demo_store_def)
  show "fs_set demo_store [''users'', ''u2''] [(''id'', JStr ''u2'')] =
        Inr (demo_store\<lparr>docs := upd_sorted [''users'', ''u2''] [(''id'', JStr ''u2'')] (docs demo_store)\<rparr>)"
    by (simp add: fs_set_def is_doc_path_def wf_fields_def)
qed

theorem fs_set_refines_witness:
  "map_of (docs (demo_store\<lparr>docs := upd_sorted [''users'', ''u2''] [(''id'', JStr ''u2'')] (docs demo_store)\<rparr>))
     [''users'', ''u2''] = Some [(''id'', JStr ''u2'')]"
proof -
  have "fs_set demo_store [''users'', ''u2''] [(''id'', JStr ''u2'')] =
        Inr (demo_store\<lparr>docs := upd_sorted [''users'', ''u2''] [(''id'', JStr ''u2'')] (docs demo_store)\<rparr>)"
    by (simp add: fs_set_def is_doc_path_def wf_fields_def)
  from fs_set_refines [OF this] show ?thesis by simp
qed

theorem query_get_refines_witness:
  "\<exists>ds. query_get demo_store (FQuery [''items''] [(''userId'', JStr ''u1'')]) = Inr ds
     \<and> set ds = {(p, fs). map_of (docs demo_store) p = Some fs \<and> is_child [''items''] p
                          \<and> matches [(''userId'', JStr ''u1'')] fs}
     \<and> strict_keys ds"
  by (rule query_get_refines) (simp_all add: store_simps demo_store_def)

theorem query_get_sorted_by_id_witness:
  "sorted_wrt (<) (map (\<lambda>d. last (fst d))
     (filter (\<lambda>(p, fs). is_child [''items''] p \<and> matches [] fs) (docs demo_store)))"
  by (rule query_get_sorted_by_id [of demo_store "[''items'']" "[]"])
     (simp_all add: query_get_result store_simps demo_store_def)

end
