(* ===== verification/Resolvers.thy ===== *)
theory Resolvers
  imports Firestore
begin

text \<open>
  The resolver map of \<^verbatim>\<open>src/apollo/src/index.ts\<close> (lines 39--92).  Each resolver is an
  \<^verbatim>\<open>async\<close> function; its result is a resolved value (\<open>Inr\<close>) or a rejection
  (\<open>Inl\<close>).  Every step is one definition call in the order the source evaluates it:
  the property read on the parent or the arguments, the template literal, the client
  call that builds the reference or query, the remote \<^verbatim>\<open>get()\<close>, and the mapping of the
  snapshot.  Three resolvers wrap their body in \<^verbatim>\<open>try { .. } catch (e) { throw new
  ApolloError(e) }\<close>, which is \<open>rethrow apollo_wrap\<close>; \<^verbatim>\<open>Query.items\<close> has no
  \<^verbatim>\<open>try\<close>, so a failure leaves it unchanged.
\<close>

text \<open>
  \<^verbatim>\<open>new ApolloError(e)\<close> passes the caught error object as the message, which the
  \<^verbatim>\<open>Error\<close> constructor converts with \<^verbatim>\<open>e.toString()\<close>: the new error keeps the
  text and nothing else of the original.
\<close>

definition apollo_wrap :: "jserr \<Rightarrow> jserr" where
  "apollo_wrap e = ApolloError (error_to_string e)"

text \<open>\<^verbatim>\<open>snapshot.docs.map((item) => item.data())\<close>\<close>

definition docs_data :: "(path \<times> fields) list \<Rightarrow> jsval" where
  "docs_data ds = JArr (map (\<lambda>d. snapshot_data (Some (snd d))) ds)"

subsection \<open>User.items (lines 41--53)\<close>

definition User_items :: "fstore \<Rightarrow> jsval \<Rightarrow> (jserr, jsval) result" where
  "User_items st user =
     rethrow apollo_wrap
       (sbind (fs_collection ''items'') (\<lambda>coll.
        sbind (get_prop user ''id'') (\<lambda>uid.
        sbind (fs_where coll ''userId'' uid) (\<lambda>q.
        sbind (query_get st q) (\<lambda>userItems.
        Inr (docs_data userItems))))))"

subsection \<open>Item.user (lines 56--67)\<close>

definition Item_user :: "fstore \<Rightarrow> jsval \<Rightarrow> (jserr, jsval) result" where
  "Item_user st item =
     rethrow apollo_wrap
       (sbind (get_prop item ''userId'') (\<lambda>uid.
        sbind (fs_doc (''users/'' @ js_to_string uid)) (\<lambda>ref.
        sbind (doc_get st ref) (\<lambda>itemAuthor.
        Inr (snapshot_data itemAuthor)))))"

subsection \<open>Query.items (lines 70--77)\<close>

definition Query_items :: "fstore \<Rightarrow> (jserr, jsval) result" where
  "Query_items st =
     sbind (fs_collection ''items'') (\<lambda>coll.
     sbind (query_get st coll) (\<lambda>items.
     Inr (docs_data items)))"

subsection \<open>Query.user (lines 78--90)\<close>

definition Query_user :: "fstore \<Rightarrow> jsval \<Rightarrow> (jserr, jsval) result" where
  "Query_user st args =
     rethrow apollo_wrap
       (sbind (get_prop args ''id'') (\<lambda>uid.
        sbind (fs_doc (''users/'' @ js_to_string uid)) (\<lambda>ref.
        sbind (doc_get st ref) (\<lambda>userDoc.
        let user = snapshot_data userDoc
        in Inr (js_or user (JErr (ValidationError ''User not found.'')))))))"

subsection \<open>The resolver map (lines 39--92)\<close>

text \<open>
  GraphQL calls every resolver as \<open>(parent, args, context, info)\<close>; the store stands
  for the client handle the module initialises once (lines 6--8).  \<^verbatim>\<open>Query.items\<close>
  ignores its arguments, \<^verbatim>\<open>Query.user\<close> its parent, the field resolvers their arguments.
\<close>

type_synonym resolver = "fstore \<Rightarrow> jsval \<Rightarrow> jsval \<Rightarrow> (jserr, jsval) result"

definition resolvers :: "(string \<times> (string \<times> resolver) list) list" where
  "resolvers =
     [(''User'', [(''items'', \<lambda>st parent args. User_items st parent)]),
      (''Item'', [(''user'', \<lambda>st parent args. Item_user st parent)]),
      (''Query'', [(''items'', \<lambda>st parent args. Query_items st),
                   (''user'', \<lambda>st parent args. Query_user st args)])]"

declare apollo_wrap_def [resolver_simps] docs_data_def [resolver_simps]
  User_items_def [resolver_simps] Item_user_def [resolver_simps]
  Query_items_def [resolver_simps] Query_user_def [resolver_simps]

subsection \<open>Lemmas\<close>

lemma fs_collection_items: "fs_collection ''items'' = Inr (FQuery [''items''] [])"
  by (simp add: store_simps)

lemma fs_where_items:
  "fs_value v \<Longrightarrow> fs_where (FQuery [''items''] []) ''userId'' v = Inr (FQuery [''items''] [(''userId'', v)])"
  by (simp add: fs_where_def)

lemma users_key_path: "valid_key k \<Longrightarrow> fs_doc (''users/'' @ k) = Inr [''users'', k]"
  using fs_doc_key [of "''users''" k] by (simp add: valid_key_def)

lemma users_sub_path:
  assumes "is_doc_path (''users'' # ks)"
  shows "fs_doc (''users/'' @ js_join ''/'' ks) = Inr (''users'' # ks)"
proof -
  from assms have "ks \<noteq> []" by (auto simp: is_doc_path_def)
  then have "js_join ''/'' (''users'' # ks) = ''users/'' @ js_join ''/'' ks"
    by (simp add: js_join_Cons)
  with fs_doc_valid_path [OF assms] show ?thesis by simp
qed

lemma Query_user_at:
  "get_prop args ''id'' = Inr v \<Longrightarrow> fs_doc (''users/'' @ js_to_string v) = Inr p \<Longrightarrow>
   fault st (GetDoc p) = None \<Longrightarrow>
   Query_user st args = Inr (js_or (snapshot_data (map_of (docs st) p)) (JErr (ValidationError ''User not found.'')))"
  by (simp add: Query_user_def doc_get_def)

lemma Item_user_at:
  "get_prop item ''userId'' = Inr v \<Longrightarrow> fs_doc (''users/'' @ js_to_string v) = Inr p \<Longrightarrow>
   fault st (GetDoc p) = None \<Longrightarrow> Item_user st item = Inr (snapshot_data (map_of (docs st) p))"
  by (simp add: Item_user_def doc_get_def)

lemma User_items_query:
  "get_prop user ''id'' = Inr v \<Longrightarrow> fs_value v \<Longrightarrow>
   User_items st user = rethrow apollo_wrap (sbind (query_get st (FQuery [''items''] [(''userId'', v)])) (\<lambda>ds. Inr (docs_data ds)))"
  by (simp add: User_items_def fs_collection_items fs_where_items)

lemma matches_userId: "matches [(''userId'', v)] fs \<longleftrightarrow> map_of fs ''userId'' = Some v"
  by (simp add: matches_def)

lemma Query_items_result:
  "Query_items st = Inr r \<longleftrightarrow>
   fault st (RunQuery [''items''] []) = None \<and> r = docs_data (filter (\<lambda>(p, fs). is_child [''items''] p \<and> matches [] fs) (docs st))"
  by (auto simp: Query_items_def fs_collection_items query_get_def split: option.splits)

lemma filter_userId_objects:
  "v \<noteq> JUndefined \<Longrightarrow>
   filter (\<lambda>x. get_prop x ''userId'' = Inr v) (map (\<lambda>d. JObj (snd d)) (filter P xs))
   = map (\<lambda>d. JObj (snd d)) (filter (\<lambda>d. P d \<and> map_of (snd d) ''userId'' = Some v) xs)"
  by (induction xs) (auto split: option.splits)

text \<open>C1. \<^verbatim>\<open>User.items\<close> returns exactly the items whose \<^verbatim>\<open>userId\<close> field equals
  the parent's \<^verbatim>\<open>id\<close>, one object per matching document, in order of document id, when
  the query does not fail.\<close>

theorem User_items_spec:
  assumes "wf_store st" and "get_prop user ''id'' = Inr v" and "fs_value v"
    and "fault st (RunQuery [''items''] [(''userId'', v)]) = None"
  shows "\<exists>ds. User_items st user = Inr (docs_data ds)
           \<and> set ds = {(p, fs). map_of (docs st) p = Some fs \<and> is_child [''items''] p \<and> map_of fs ''userId'' = Some v}
           \<and> sorted_wrt (<) (map (\<lambda>d. last (fst d)) ds)"
proof -
  let ?ds = "filter (\<lambda>(p, fs). is_child [''items''] p \<and> matches [(''userId'', v)] fs) (docs st)"
  have sk: "strict_keys (docs st)" using assms(1) by (simp add: wf_store_def)
  have q: "query_get st (FQuery [''items''] [(''userId'', v)]) = Inr ?ds"
    using assms(4) by (simp add: query_get_result)
  have "User_items st user = Inr (docs_data ?ds)"
    using assms(2,3) q by (simp add: User_items_def fs_collection_items fs_where_items)
  moreover have "set ?ds = {(p, fs). map_of (docs st) p = Some fs \<and> is_child [''items''] p \<and> map_of fs ''userId'' = Some v}"
    using set_filter_strict_keys [OF sk] by (simp add: matches_userId)
  moreover have "sorted_wrt (<) (map (\<lambda>d. last (fst d)) ?ds)"
    using sk by (rule filter_children_sorted_by_id)
  ultimately show ?thesis by blast
qed

text \<open>C5. \<^verbatim>\<open>Query.items\<close> returns every document directly in the \<^verbatim>\<open>items\<close>
  collection, unfiltered, in order of document id, when the query does not fail.\<close>

theorem Query_items_spec:
  assumes "wf_store st" and "fault st (RunQuery [''items''] []) = None"
  shows "\<exists>ds. Query_items st = Inr (docs_data ds)
           \<and> set ds = {(p, fs). map_of (docs st) p = Some fs \<and> is_child [''items''] p}
           \<and> sorted_wrt (<) (map (\<lambda>d. last (fst d)) ds)"
proof -
  let ?ds = "filter (\<lambda>(p, fs). is_child [''items''] p \<and> matches [] fs) (docs st)"
  have sk: "strict_keys (docs st)" using assms(1) by (simp add: wf_store_def)
  have "Query_items st = Inr (docs_data ?ds)"
    using assms(2) by (simp add: Query_items_def fs_collection_items query_get_def)
  moreover have "set ?ds = {(p, fs). map_of (docs st) p = Some fs \<and> is_child [''items''] p}"
    using set_filter_strict_keys [OF sk] by (simp add: matches_def)
  moreover have "sorted_wrt (<) (map (\<lambda>d. last (fst d)) ?ds)"
    using sk by (rule filter_children_sorted_by_id)
  ultimately show ?thesis by blast
qed

text \<open>C2. \<^verbatim>\<open>Query.user(id)\<close> for an id that names one document of \<^verbatim>\<open>users\<close> returns
  that document's fields unchanged.\<close>

theorem Query_user_found:
  "get_prop args ''id'' = Inr v \<Longrightarrow> valid_key (js_to_string v) \<Longrightarrow>
   fault st (GetDoc [''users'', js_to_string v]) = None \<Longrightarrow>
   map_of (docs st) [''users'', js_to_string v] = Some fs \<Longrightarrow> Query_user st args = Inr (JObj fs)"
  using users_key_path [of "js_to_string v"]
  by (simp add: Query_user_def doc_get_def snapshot_data_def)

text \<open>C3. \<^verbatim>\<open>Query.user(id)\<close> for an id with no document resolves (does not reject)
  with a \<^verbatim>\<open>ValidationError\<close> object as its value.\<close>

theorem Query_user_missing:
  "get_prop args ''id'' = Inr v \<Longrightarrow> valid_key (js_to_string v) \<Longrightarrow>
   fault st (GetDoc [''users'', js_to_string v]) = None \<Longrightarrow>
   map_of (docs st) [''users'', js_to_string v] = None \<Longrightarrow>
   Query_user st args = Inr (JErr (ValidationError ''User not found.''))"
  using users_key_path [of "js_to_string v"]
  by (simp add: Query_user_def doc_get_def snapshot_data_def)

text \<open>C4. \<^verbatim>\<open>Item.user\<close> reads the user document named by the item's \<^verbatim>\<open>userId\<close>: its
  fields when it exists, \<^verbatim>\<open>undefined\<close> (no error) when it does not.\<close>

theorem Item_user_spec:
  "get_prop item ''userId'' = Inr v \<Longrightarrow> valid_key (js_to_string v) \<Longrightarrow>
   fault st (GetDoc [''users'', js_to_string v]) = None \<Longrightarrow>
   Item_user st item = Inr (case map_of (docs st) [''users'', js_to_string v] of
                              Some fs \<Rightarrow> JObj fs | None \<Rightarrow> JUndefined)"
  using users_key_path [of "js_to_string v"]
  by (simp add: Item_user_def doc_get_def snapshot_data_def)

text \<open>C8. \<^verbatim>\<open>Query.user(id)\<close> does not confine its read to the \<^verbatim>\<open>users\<close> collection:
  an id with slashes names any document below it, and the resolver returns that document.\<close>

theorem Query_user_path_escape:
  assumes "get_prop args ''id'' = Inr (JStr (js_join ''/'' ks))" and "is_doc_path (''users'' # ks)"
    and "fault st (GetDoc (''users'' # ks)) = None" and "map_of (docs st) (''users'' # ks) = Some fs"
  shows "Query_user st args = Inr (JObj fs)"
proof -
  have "fs_doc (''users/'' @ js_to_string (JStr (js_join ''/'' ks))) = Inr (''users'' # ks)"
    using users_sub_path [OF assms(2)] by simp
  with assms(1,3,4) show ?thesis by (simp add: Query_user_def doc_get_def snapshot_data_def)
qed

text \<open>C6. When every remote call of the store fails with an error \<open>e\<close>,
  \<^verbatim>\<open>Query.items\<close> rejects with \<open>e\<close> itself, while the other three resolvers reject
  with an \<^verbatim>\<open>ApolloError\<close> that carries only the text of \<open>e\<close>.\<close>

theorem store_fault_taxonomy:
  assumes "fault st = (\<lambda>_. Some e)"
    and "get_prop user ''id'' = Inr v" and "fs_value v"
    and "get_prop item ''userId'' = Inr w" and "valid_key (js_to_string w)"
    and "get_prop args ''id'' = Inr x" and "valid_key (js_to_string x)"
  shows "Query_items st = Inl e
       \<and> User_items st user = Inl (ApolloError (error_to_string e))
       \<and> Item_user st item = Inl (ApolloError (error_to_string e))
       \<and> Query_user st args = Inl (ApolloError (error_to_string e))"
  using assms users_key_path [OF assms(5)] users_key_path [OF assms(7)]
  by (simp add: Query_items_def fs_collection_items query_get_def User_items_def fs_where_items apollo_wrap_def
      Item_user_def Query_user_def doc_get_def)


text \<open>C9. \<^verbatim>\<open>Query.user(id)\<close> with an id that does not make a document path (the
  empty id, or one with a single slash) rejects, without a read, with an
  \<^verbatim>\<open>ApolloError\<close> whose text is the client library's argument error.\<close>

theorem Query_user_invalid_id:
  assumes "get_prop args ''id'' = Inr v"
    and "\<not> has_dslash (''users/'' @ js_to_string v)"
    and "odd (length (path_segments (''users/'' @ js_to_string v)))"
  shows "Query_user st args = Inl (ApolloError (''Error: Value for argument documentPath must point to a document, but was users/''
           @ js_to_string v @ ''. Your path does not contain an even number of components.''))"
proof -
  have "fs_doc (''users/'' @ js_to_string v) = Inl (JsError (''Value for argument documentPath must point to a document, but was users/''
           @ js_to_string v @ ''. Your path does not contain an even number of components.''))"
    using assms(2,3) by (simp add: fs_doc_def validate_resource_path_def)
  with assms(1) show ?thesis by (simp add: Query_user_def apollo_wrap_def error_to_string_def)
qed

text \<open>C10. \<^verbatim>\<open>User.items\<close> agrees with \<^verbatim>\<open>Query.items\<close>: for a parent whose \<^verbatim>\<open>id\<close> is a
  storable value, it returns exactly the objects of \<^verbatim>\<open>Query.items\<close> whose \<^verbatim>\<open>userId\<close>
  is that value, in the same order.\<close>

theorem User_items_filters_Query_items:
  assumes "get_prop user ''id'' = Inr v" and "fs_value v"
    and "Query_items st = Inr (JArr all)"
    and "fault st (RunQuery [''items''] [(''userId'', v)]) = None"
  shows "User_items st user = Inr (JArr (filter (\<lambda>x. get_prop x ''userId'' = Inr v) all))"
proof -
  let ?ch = "\<lambda>(p::path, fs::fields). is_child [''items''] p"
  have all: "all = map (\<lambda>d. JObj (snd d)) (filter ?ch (docs st))"
    using assms(3) by (auto simp: Query_items_result docs_data_def snapshot_data_def matches_def)
  have mine: "User_items st user = Inr (docs_data (filter (\<lambda>(p, fs). is_child [''items''] p \<and> matches [(''userId'', v)] fs) (docs st)))"
    using assms by (simp add: User_items_query query_get_def)
  have v: "v \<noteq> JUndefined" using assms(2) by auto
  have "filter (\<lambda>x. get_prop x ''userId'' = Inr v) all
        = map (\<lambda>d. JObj (snd d)) (filter (\<lambda>(p, fs). is_child [''items''] p \<and> matches [(''userId'', v)] fs) (docs st))"
    unfolding all using filter_userId_objects [OF v, of ?ch "docs st"]
    by (simp add: matches_userId split_def)
  with mine show ?thesis by (simp add: docs_data_def snapshot_data_def)
qed

text \<open>C11. The three resolvers with a \<^verbatim>\<open>try\<close> reject only with an \<^verbatim>\<open>ApolloError\<close>
  made from some caught error; \<^verbatim>\<open>Query.items\<close> rejects only with the store's own failure
  of its collection query.\<close>

theorem rejection_kinds:
  "(User_items st u = Inl e \<longrightarrow> (\<exists>e'. e = ApolloError (error_to_string e')))
   \<and> (Item_user st i = Inl e \<longrightarrow> (\<exists>e'. e = ApolloError (error_to_string e')))
   \<and> (Query_user st a = Inl e \<longrightarrow> (\<exists>e'. e = ApolloError (error_to_string e')))
   \<and> (Query_items st = Inl e \<longrightarrow> fault st (RunQuery [''items''] []) = Some e)"
  by (auto simp: User_items_def Item_user_def Query_user_def rethrow_eq_Inl_iff apollo_wrap_def
      Query_items_def fs_collection_items query_get_def split: option.splits)

text \<open>C12. \<^verbatim>\<open>User.items\<close> on a parent with no \<^verbatim>\<open>id\<close> rejects, without a query, with an
  \<^verbatim>\<open>ApolloError\<close> carrying the client's refusal of \<^verbatim>\<open>undefined\<close> as a filter value.\<close>

theorem User_items_no_id:
  "get_prop user ''id'' = Inr JUndefined \<Longrightarrow>
   User_items st user = Inl (ApolloError ''Error: Value for argument value is not a valid query constraint. Cannot use undefined as a Firestore value.'')"
  by (simp add: User_items_def fs_collection_items fs_where_def apollo_wrap_def error_to_string_def)

text \<open>\<^verbatim>\<open>Item.user\<close> on an item with no \<^verbatim>\<open>userId\<close> field does not fail: the
  template literal prints \<^verbatim>\<open>undefined\<close>, and the resolver reads the document
  \<^verbatim>\<open>users/undefined\<close>.\<close>

theorem Item_user_missing_userId:
  "map_of fs ''userId'' = None \<Longrightarrow> fault st (GetDoc [''users'', ''undefined'']) = None \<Longrightarrow>
   Item_user st (JObj fs) = Inr (snapshot_data (map_of (docs st) [''users'', ''undefined'']))"
  using users_key_path [of "''undefined''"]
  by (simp add: Item_user_at valid_key_def)

subsection \<open>The theorems at concrete inputs\<close>

theorem User_items_spec_witness:
  "\<exists>ds. User_items demo_store (JObj [(''id'', JStr ''u1'')]) = Inr (docs_data ds)
     \<and> set ds = {(p, fs). map_of (docs demo_store) p = Some fs \<and> is_child [''items''] p
                          \<and> map_of fs ''userId'' = Some (JStr ''u1'')}
     \<and> sorted_wrt (<) (map (\<lambda>d. last (fst d)) ds)"
  by (rule User_items_spec) (simp_all add: store_simps demo_store_def)

theorem Query_items_spec_witness:
  "\<exists>ds. Query_items demo_store = Inr (docs_data ds)
     \<and> set ds = {(p, fs). map_of (docs demo_store) p = Some fs \<and> is_child [''items''] p}
     \<and> sorted_wrt (<) (map (\<lambda>d. last (fst d)) ds)"
  by (rule Query_items_spec) (simp_all add: store_simps demo_store_def)

theorem Query_user_found_witness:
  "Query_user demo_store (JObj [(''id'', JStr ''u1'')])
     = Inr (JObj [(''id'', JStr ''u1''), (''name'', JStr ''Ann''), (''birthday'', JStr ''2000-01-01'')])"
  by (rule Query_user_found [where v = "JStr ''u1''"]) (simp_all add: store_simps demo_store_def)

theorem Query_user_missing_witness:
  "Query_user demo_store (JObj [(''id'', JStr ''u9'')]) = Inr (JErr (ValidationError ''User not found.''))"
  by (rule Query_user_missing [where v = "JStr ''u9''"]) (simp_all add: store_simps demo_store_def)

theorem Item_user_spec_witness:
  "Item_user demo_store (JObj [(''userId'', JStr ''u1'')])
     = Inr (JObj [(''id'', JStr ''u1''), (''name'', JStr ''Ann''), (''birthday'', JStr ''2000-01-01'')])"
  using Item_user_spec [of "JObj [(''userId'', JStr ''u1'')]" "JStr ''u1''" demo_store]
  by (simp add: store_simps demo_store_def)

theorem Query_user_path_escape_witness:
  "Query_user demo_store (JObj [(''id'', JStr ''u1/secrets/s1'')]) = Inr (JObj [(''token'', JStr ''xyz'')])"
  by (rule Query_user_path_escape [where ks = "[''u1'', ''secrets'', ''s1'']"])
     (simp_all add: store_simps demo_store_def)

theorem store_fault_taxonomy_witness:
  "Query_items (demo_store\<lparr>fault := (\<lambda>_. Some (GrpcError 14 ''unreachable''))\<rparr>) = Inl (GrpcError 14 ''unreachable'')
   \<and> User_items (demo_store\<lparr>fault := (\<lambda>_. Some (GrpcError 14 ''unreachable''))\<rparr>) (JObj [(''id'', JStr ''u1'')])
       = Inl (ApolloError ''Error: 14 UNAVAILABLE: unreachable'')
   \<and> Item_user (demo_store\<lparr>fault := (\<lambda>_. Some (GrpcError 14 ''unreachable''))\<rparr>) (JObj [(''userId'', JStr ''u1'')])
       = Inl (ApolloError ''Error: 14 UNAVAILABLE: unreachable'')
   \<and> Query_user (demo_store\<lparr>fault := (\<lambda>_. Some (GrpcError 14 ''unreachable''))\<rparr>) (JObj [(''id'', JStr ''u1'')])
       = Inl (ApolloError ''Error: 14 UNAVAILABLE: unreachable'')"
  using store_fault_taxonomy [of "demo_store\<lparr>fault := (\<lambda>_. Some (GrpcError 14 ''unreachable''))\<rparr>"
      "GrpcError 14 ''unreachable''" "JObj [(''id'', JStr ''u1'')]" "JStr ''u1''"
      "JObj [(''userId'', JStr ''u1'')]" "JStr ''u1''" "JObj [(''id'', JStr ''u1'')]" "JStr ''u1''"]
  by (simp add: store_simps js_simps)

theorem Query_user_invalid_id_witness:
  "Query_user demo_store (JObj [(''id'', JStr '''')]) = Inl (ApolloError
     ''Error: Value for argument documentPath must point to a document, but was users/. Your path does not contain an even number of components.'')"
  using Query_user_invalid_id [of "JObj [(''id'', JStr '''')]" "JStr ''''" demo_store]
  by (simp add: store_simps)

theorem Item_user_missing_userId_witness:
  "Item_user demo_store (JObj [(''id'', JStr ''i9'')]) = Inr JUndefined"
  using Item_user_missing_userId [of "[(''id'', JStr ''i9'')]" demo_store]
  by (simp add: store_simps demo_store_def)

theorem User_items_filters_Query_items_witness:
  "User_items demo_store (JObj [(''id'', JStr ''u1'')])
     = Inr (JArr (filter (\<lambda>x. get_prop x ''userId'' = Inr (JStr ''u1''))
          [JObj [(''id'', JStr ''i1''), (''userId'', JStr ''u1''), (''title'', JStr ''T1''), (''content'', JStr ''C1'')],
           JObj [(''id'', JStr ''i2''), (''userId'', JStr ''u2''), (''title'', JStr ''T2''), (''content'', JStr ''C2'')],
           JObj [(''id'', JStr ''i3''), (''userId'', JStr ''u1''), (''title'', JStr ''T3''), (''content'', JStr ''C3'')]]))"
  by (rule User_items_filters_Query_items) (simp_all add: resolver_simps store_simps demo_store_def)

theorem rejection_kinds_witness:
  "User_items (demo_store\<lparr>fault := (\<lambda>_. Some (GrpcError 14 ''unreachable''))\<rparr>) (JObj [(''id'', JStr ''u1'')])
       = Inl (ApolloError ''Error: 14 UNAVAILABLE: unreachable'')
   \<and> Item_user (demo_store\<lparr>fault := (\<lambda>_. Some (GrpcError 14 ''unreachable''))\<rparr>) (JObj [(''userId'', JStr ''u1'')])
       = Inl (ApolloError ''Error: 14 UNAVAILABLE: unreachable'')
   \<and> Query_user (demo_store\<lparr>fault := (\<lambda>_. Some (GrpcError 14 ''unreachable''))\<rparr>) (JObj [(''id'', JStr ''u1'')])
       = Inl (ApolloError ''Error: 14 UNAVAILABLE: unreachable'')
   \<and> (\<exists>e'. ApolloError ''Error: 14 UNAVAILABLE: unreachable'' = ApolloError (error_to_string e'))
   \<and> Query_items (demo_store\<lparr>fault := (\<lambda>_. Some (GrpcError 14 ''unreachable''))\<rparr>) = Inl (GrpcError 14 ''unreachable'')
   \<and> fault (demo_store\<lparr>fault := (\<lambda>_. Some (GrpcError 14 ''unreachable''))\<rparr>) (RunQuery [''items''] [])
       = Some (GrpcError 14 ''unreachable'')"
proof -
  let ?st = "demo_store\<lparr>fault := (\<lambda>_. Some (GrpcError 14 ''unreachable''))\<rparr>"
  let ?e = "ApolloError ''Error: 14 UNAVAILABLE: unreachable''"
  have u: "User_items ?st (JObj [(''id'', JStr ''u1'')]) = Inl ?e"
    by (simp add: resolver_simps store_simps js_simps)
  have i: "Item_user ?st (JObj [(''userId'', JStr ''u1'')]) = Inl ?e"
    by (simp add: resolver_simps store_simps js_simps)
  have a: "Query_user ?st (JObj [(''id'', JStr ''u1'')]) = Inl ?e"
    by (simp add: resolver_simps store_simps js_simps)
  have q: "Query_items ?st = Inl (GrpcError 14 ''unreachable'')"
    by (simp add: resolver_simps store_simps)
  show ?thesis
    using rejection_kinds [of ?st "JObj [(''id'', JStr ''u1'')]" ?e "JObj [(''userId'', JStr ''u1'')]" "JObj [(''id'', JStr ''u1'')]"]
      rejection_kinds [of ?st _ "GrpcError 14 ''unreachable''"] u i a q
    by blast
qed

theorem User_items_no_id_witness:
  "User_items demo_store (JObj [(''name'', JStr ''Ann'')]) = Inl (ApolloError
     ''Error: Value for argument value is not a valid query constraint. Cannot use undefined as a Firestore value.'')"
  by (rule User_items_no_id) simp

end
