(* ===== verification/Schema.thy ===== *)
theory Schema
  imports Prelude
begin

text \<open>
  The GraphQL type definitions of \<^verbatim>\<open>src/apollo/src/index.ts\<close> (the \<^verbatim>\<open>gql\<close> template,
  lines 10--37) as data: a type reference is a named type, a non-null type (\<^verbatim>\<open>T!\<close>)
  or a list (\<^verbatim>\<open>[T]\<close>); an object type is a name and its fields, each with its
  arguments and its type.  \<open>schema_wf\<close> is the part of schema validation that these
  definitions exercise: distinct type names, distinct field and argument names, every
  named type declared or a built-in scalar, and every argument of an input type.
\<close>

datatype gql_type = Named string | NonNull gql_type | ListOf gql_type

record field_def =
  fd_name :: string
  fd_args :: "(string \<times> gql_type) list"
  fd_type :: gql_type

datatype type_def = ObjectType string "field_def list"

definition fld :: "string \<Rightarrow> gql_type \<Rightarrow> field_def" where
  "fld n t = \<lparr>fd_name = n, fd_args = [], fd_type = t\<rparr>"

definition typeDefs :: "type_def list" where
  "typeDefs =
     [ObjectType ''User''
        [fld ''id'' (NonNull (Named ''ID'')),
         fld ''name'' (NonNull (Named ''String'')),
         fld ''birthday'' (NonNull (Named ''String'')),
         fld ''items'' (ListOf (Named ''Item''))],
      ObjectType ''Item''
        [fld ''id'' (NonNull (Named ''ID'')),
         fld ''userId'' (NonNull (Named ''User'')),
         fld ''user'' (NonNull (Named ''User'')),
         fld ''title'' (NonNull (Named ''String'')),
         fld ''content'' (NonNull (Named ''String'')),
         fld ''comments'' (ListOf (Named ''Comment''))],
      ObjectType ''Comment''
        [fld ''id'' (NonNull (Named ''ID'')),
         fld ''content'' (NonNull (Named ''String'')),
         fld ''userId'' (NonNull (Named ''User''))],
      ObjectType ''Query''
        [fld ''items'' (ListOf (Named ''Item'')),
         \<lparr>fd_name = ''user'', fd_args = [(''id'', NonNull (Named ''String''))],
          fd_type = Named ''User''\<rparr>]]"

definition builtin_scalars :: "string list" where
  "builtin_scalars = [''ID'', ''String'', ''Int'', ''Float'', ''Boolean'']"

fun base_name :: "gql_type \<Rightarrow> string" where
  "base_name (Named n) = n"
| "base_name (NonNull t) = base_name t"
| "base_name (ListOf t) = base_name t"

fun type_name :: "type_def \<Rightarrow> string" where
  "type_name (ObjectType n _) = n"

fun type_fields :: "type_def \<Rightarrow> field_def list" where
  "type_fields (ObjectType _ fs) = fs"

definition field_of :: "type_def list \<Rightarrow> string \<Rightarrow> string \<Rightarrow> field_def option" where
  "field_of tds t f =
     (case find (\<lambda>td. type_name td = t) tds of
        None \<Rightarrow> None
      | Some td \<Rightarrow> find (\<lambda>fd. fd_name fd = f) (type_fields td))"

definition is_object_type :: "type_def list \<Rightarrow> string \<Rightarrow> bool" where
  "is_object_type tds n \<longleftrightarrow> n \<in> set (map type_name tds)"

definition schema_wf :: "type_def list \<Rightarrow> bool" where
  "schema_wf tds \<longleftrightarrow>
     distinct (map type_name tds)
     \<and> list_all (\<lambda>td. distinct (map fd_name (type_fields td))
          \<and> list_all (\<lambda>fd. distinct (map fst (fd_args fd))
               \<and> (base_name (fd_type fd) \<in> set builtin_scalars \<or> is_object_type tds (base_name (fd_type fd)))
               \<and> list_all (\<lambda>a. base_name (snd a) \<in> set builtin_scalars) (fd_args fd))
             (type_fields td)) tds
     \<and> is_object_type tds ''Query''"


text \<open>The type definitions are a valid schema in the sense of \<open>schema_wf\<close>: Apollo
  builds the executable schema from them without a type error.\<close>

theorem typeDefs_wf: "schema_wf typeDefs"
  by (simp add: schema_wf_def typeDefs_def fld_def builtin_scalars_def is_object_type_def)

end
