(* ===== verification/Execution.thy ===== *)
theory Execution
  imports Resolvers Schema
begin

text \<open>
  The GraphQL execution that \<^verbatim>\<open>new ApolloServer({ typeDefs, resolvers })\<close> (lines 94--97)
  runs for every request: graphql-js's \<^verbatim>\<open>execute\<close>, which the repository calls but does
  not contain, modelled from its documented algorithm as far as this schema needs it.
  \<^item> A query is a list of field selections, each with its literal arguments and its own
    sub-selection; the response is a tree of \<open>rval\<close>s and a list of located errors.
  \<^item> \<open>exec_sels\<close> is \<^verbatim>\<open>executeFields\<close>: the fields of one object in order, each by
    \<open>exec_field\<close> (\<^verbatim>\<open>executeField\<close>): the resolver of the map or the default
    resolver (a property read of the parent), then \<open>complete\<close> (\<^verbatim>\<open>completeValue\<close>)
    against the declared type.  A resolver's rejection, or an \<^verbatim>\<open>Error\<close> instance it
    resolves with, is a field error; \<open>handle_error\<close> (\<^verbatim>\<open>handleFieldError\<close>)
    records it and yields \<^verbatim>\<open>null\<close> at a nullable position and passes it to the parent
    at a non-null one.  Lists complete item by item (\<open>complete_list\<close>), each item a
    position of its own.  \<^verbatim>\<open>ID\<close> and \<^verbatim>\<open>String\<close>, the scalars of this schema,
    serialise as graphql-js does.
  \<^item> The state records the errors and, for each call of a resolver of the map, its type
    and field: each such call is one remote call to the database.
  \<^item> Fields are executed in selection order and each resolver's promise is awaited
    before the next field starts.  graphql-js runs sibling promises concurrently: the
    theory \<open>Promises\<close> models that execution with the time each promise takes, and
    \<open>Async\<close> shows that it gives the data of this executor for every timing, makes a
    superset of its resolver calls, and may report other errors.
  \<^item> Query validation is not modelled: the theorems are about valid queries.
  \<^item> The lemmas evaluate \<open>complete\<close> one declared type at a time (\<open>complete_NonNull\<close>,
    \<open>complete_object\<close>, ...), follow the resolver log through a selection
    (\<open>exec_field_calls\<close>, \<open>complete_list_Cons_state\<close>), and give the responses of
    the queries the spec names (C13--C18 and C23, and the found user and empty store cases) for every store, with witnesses on
    \<open>demo_store\<close>.
\<close>


datatype pseg = PKey string | PIdx nat

record gql_error =
  emsg :: string
  epath :: "pseg list"

datatype rval = RNull | RStr string | RList "rval list" | RObj "(string \<times> rval) list"

datatype selection = Sel string "(string \<times> jsval) list" "selection list"

record env =
  e_store :: fstore
  e_schema :: "type_def list"
  e_resolvers :: "(string \<times> (string \<times> resolver) list) list"

record xst =
  errs :: "gql_error list"
  calls :: "(string \<times> string) list"

fun tsize :: "gql_type \<Rightarrow> nat" where
  "tsize (Named _) = 1"
| "tsize (NonNull t) = Suc (tsize t)"
| "tsize (ListOf t) = Suc (tsize t)"

fun js_inspect :: "jsval \<Rightarrow> string" where
  "js_inspect (JStr s) = [CHR 0x22] @ s @ [CHR 0x22]"
| "js_inspect (JArr []) = ''[]''"
| "js_inspect (JArr xs) = ''['' @ js_join '', '' (map js_inspect xs) @ '']''"
| "js_inspect (JObj []) = ''{}''"
| "js_inspect (JObj fs) = ''{ '' @ js_join '', '' (map (\<lambda>p. fst p @ '': '' @ js_inspect (snd p)) fs) @ '' }''"
| "js_inspect v = js_to_string v"

definition is_nullish :: "jsval \<Rightarrow> bool" where
  "is_nullish v \<longleftrightarrow> v = JNull \<or> v = JUndefined"

definition serialize_scalar :: "string \<Rightarrow> jsval \<Rightarrow> (string, rval) result" where
  "serialize_scalar n v =
     (if n = ''ID'' then
        (case v of JStr s \<Rightarrow> Inr (RStr s) | JNum i \<Rightarrow> Inr (RStr (int_str i))
         | _ \<Rightarrow> Inl (''ID cannot represent value: '' @ js_inspect v))
      else
        (case v of JStr s \<Rightarrow> Inr (RStr s) | JNum i \<Rightarrow> Inr (RStr (int_str i))
         | JBool b \<Rightarrow> Inr (RStr (if b then ''true'' else ''false''))
         | _ \<Rightarrow> Inl (''String cannot represent value: '' @ js_inspect v)))"

definition default_resolver :: "jsval \<Rightarrow> string \<Rightarrow> jsval" where
  "default_resolver v f = (case v of JObj fs \<Rightarrow> (case map_of fs f of Some x \<Rightarrow> x | None \<Rightarrow> JUndefined) | _ \<Rightarrow> JUndefined)"

definition lookup_resolver :: "env \<Rightarrow> string \<Rightarrow> string \<Rightarrow> resolver option" where
  "lookup_resolver en t f = (case map_of (e_resolvers en) t of Some rs \<Rightarrow> map_of rs f | None \<Rightarrow> None)"

definition resolve :: "env \<Rightarrow> string \<Rightarrow> string \<Rightarrow> jsval \<Rightarrow> jsval \<Rightarrow> xst \<Rightarrow> (jserr, jsval) result \<times> xst" where
  "resolve en t f v args s =
     (case lookup_resolver en t f of
        Some r \<Rightarrow> (r (e_store en) v args, s\<lparr>calls := calls s @ [(t, f)]\<rparr>)
      | None \<Rightarrow> (Inr (default_resolver v f), s))"

definition handle_error :: "gql_type \<Rightarrow> gql_error \<Rightarrow> xst \<Rightarrow> (gql_error, rval) result \<times> xst" where
  "handle_error ty e s =
     (case ty of NonNull _ \<Rightarrow> (Inl e, s) | _ \<Rightarrow> (Inr RNull, s\<lparr>errs := errs s @ [e]\<rparr>))"

definition scalar_names :: "string list" where
  "scalar_names = [''ID'', ''String'']"

function (sequential) exec_sels ::
    "env \<Rightarrow> string \<Rightarrow> jsval \<Rightarrow> pseg list \<Rightarrow> selection list \<Rightarrow> xst \<Rightarrow> (gql_error, (string \<times> rval) list) result \<times> xst"
and exec_field :: "env \<Rightarrow> string \<Rightarrow> jsval \<Rightarrow> pseg list \<Rightarrow> selection \<Rightarrow> xst \<Rightarrow> (gql_error, rval) result \<times> xst"
and complete ::
    "env \<Rightarrow> string \<Rightarrow> string \<Rightarrow> gql_type \<Rightarrow> selection list \<Rightarrow> pseg list \<Rightarrow> jsval \<Rightarrow> xst \<Rightarrow> (gql_error, rval) result \<times> xst"
and complete_list ::
    "env \<Rightarrow> string \<Rightarrow> string \<Rightarrow> gql_type \<Rightarrow> selection list \<Rightarrow> pseg list \<Rightarrow> nat \<Rightarrow> jsval list \<Rightarrow> xst \<Rightarrow> (gql_error, rval list) result \<times> xst"
where
  "exec_sels en t v p [] s = (Inr [], s)"
| "exec_sels en t v p (Sel f a subs # rest) s =
     (case exec_field en t v p (Sel f a subs) s of
        (Inl e, s1) \<Rightarrow> (Inl e, s1)
      | (Inr r, s1) \<Rightarrow>
          (case exec_sels en t v p rest s1 of
             (Inl e, s2) \<Rightarrow> (Inl e, s2)
           | (Inr rs, s2) \<Rightarrow> (Inr ((f, r) # rs), s2)))"
| "exec_field en t v p (Sel f a subs) s =
     (case field_of (e_schema en) t f of
        None \<Rightarrow> (Inl \<lparr>emsg = ''Cannot query field '' @ f @ '' on type '' @ t @ ''.'', epath = p @ [PKey f]\<rparr>, s)
      | Some fd \<Rightarrow>
          (case resolve en t f v (JObj a) s of
             (Inl err, s1) \<Rightarrow> handle_error (fd_type fd) \<lparr>emsg = error_message err, epath = p @ [PKey f]\<rparr> s1
           | (Inr x, s1) \<Rightarrow>
               (case complete en t f (fd_type fd) subs (p @ [PKey f]) x s1 of
                  (Inl e, s2) \<Rightarrow> handle_error (fd_type fd) e s2
                | (Inr r, s2) \<Rightarrow> (Inr r, s2))))"
| "complete en t f ty subs p x s =
     (case x of
        JErr err \<Rightarrow> (Inl \<lparr>emsg = error_message err, epath = p\<rparr>, s)
      | _ \<Rightarrow>
        (case ty of
           NonNull ty' \<Rightarrow>
             (case complete en t f ty' subs p x s of
                (Inr RNull, s1) \<Rightarrow>
                  (Inl \<lparr>emsg = ''Cannot return null for non-nullable field '' @ t @ ''.'' @ f @ ''.'', epath = p\<rparr>, s1)
              | r \<Rightarrow> r)
         | ListOf ty' \<Rightarrow>
             (if is_nullish x then (Inr RNull, s)
              else case x of
                JArr xs \<Rightarrow>
                  (case complete_list en t f ty' subs p 0 xs s of
                     (Inl e, s1) \<Rightarrow> (Inl e, s1)
                   | (Inr rs, s1) \<Rightarrow> (Inr (RList rs), s1))
              | _ \<Rightarrow> (Inl \<lparr>emsg = ''Expected Iterable, but did not find one for field '' @ [CHR 0x22] @ t @ ''.'' @ f @ [CHR 0x22] @ ''.'', epath = p\<rparr>, s))
         | Named n \<Rightarrow>
             (if is_nullish x then (Inr RNull, s)
              else if n \<in> set scalar_names then
                (case serialize_scalar n x of
                   Inl m \<Rightarrow> (Inl \<lparr>emsg = m, epath = p\<rparr>, s)
                 | Inr r \<Rightarrow> (Inr r, s))
              else
                (case exec_sels en n x p subs s of
                   (Inl e, s1) \<Rightarrow> (Inl e, s1)
                 | (Inr fs, s1) \<Rightarrow> (Inr (RObj fs), s1)))))"
| "complete_list en t f ty subs p i [] s = (Inr [], s)"
| "complete_list en t f ty subs p i (x # xs) s =
     (let (r1, s1) = (case complete en t f ty subs (p @ [PIdx i]) x s of
                        (Inl e, s0) \<Rightarrow> handle_error ty e s0
                      | r \<Rightarrow> r)
      in case r1 of
           Inl e \<Rightarrow> (Inl e, s1)
         | Inr r \<Rightarrow>
             (case complete_list en t f ty subs p (Suc i) xs s1 of
                (Inl e, s2) \<Rightarrow> (Inl e, s2)
              | (Inr rs, s2) \<Rightarrow> (Inr (r # rs), s2)))"
  by pat_completeness auto
termination
  by (relation "measures
        [\<lambda>x. case x of Inl (Inl (en, t, v, p, sels, s)) \<Rightarrow> size_list size sels
                   | Inl (Inr (en, t, v, p, sel, s)) \<Rightarrow> size sel
                   | Inr (Inl (en, t, f, ty, subs, p, x, s)) \<Rightarrow> size_list size subs
                   | Inr (Inr (en, t, f, ty, subs, p, i, xs, s)) \<Rightarrow> size_list size subs,
         \<lambda>x. case x of Inl _ \<Rightarrow> 0
                   | Inr (Inl (en, t, f, ty, subs, p, x, s)) \<Rightarrow> tsize ty
                   | Inr (Inr (en, t, f, ty, subs, p, i, xs, s)) \<Rightarrow> tsize ty,
         \<lambda>x. case x of Inl _ \<Rightarrow> 0
                   | Inr (Inl (en, t, f, ty, subs, p, x, s)) \<Rightarrow> size x
                   | Inr (Inr (en, t, f, ty, subs, p, i, xs, s)) \<Rightarrow> size_list size xs]") auto

definition init_xst :: xst where
  "init_xst = \<lparr>errs = [], calls = []\<rparr>"

definition execute :: "env \<Rightarrow> selection list \<Rightarrow> rval \<times> xst" where
  "execute en sels =
     (case exec_sels en ''Query'' JUndefined [] sels init_xst of
        (Inl e, s) \<Rightarrow> (RNull, s\<lparr>errs := errs s @ [e]\<rparr>)
      | (Inr fs, s) \<Rightarrow> (RObj fs, s))"

text \<open>\<^verbatim>\<open>new ApolloServer({ typeDefs, resolvers })\<close>: the schema and the resolver map
  bound to the database handle.\<close>

definition apollo_server :: "fstore \<Rightarrow> env" where
  "apollo_server st = \<lparr>e_store = st, e_schema = typeDefs, e_resolvers = resolvers\<rparr>"

text \<open>\<^verbatim>\<open>server.listen().then(({ url }) => console.log(...))\<close> (lines 99--101): the line
  logged once the server listens at \<open>url\<close>; the rocket emoji is written as its four
  UTF-8 bytes.\<close>

definition server_ready_log :: "string \<Rightarrow> string" where
  "server_ready_log url = [CHR 0xF0, CHR 0x9F, CHR 0x9A, CHR 0x80] @ '' Server ready at '' @ url"

definition is_err :: "jsval \<Rightarrow> bool" where
  "is_err v = (case v of JErr _ \<Rightarrow> True | _ \<Rightarrow> False)"

definition userId_error :: "pseg list \<Rightarrow> gql_error" where
  "userId_error p = \<lparr>emsg = ''Cannot return null for non-nullable field User.id.'', epath = p @ [PKey ''userId'', PKey ''id'']\<rparr>"

definition user_null_error :: "pseg list \<Rightarrow> gql_error" where
  "user_null_error p = \<lparr>emsg = ''Cannot return null for non-nullable field Item.user.'', epath = p @ [PKey ''user'']\<rparr>"

declare complete.simps [simp del]


subsection \<open>Evaluation lemmas\<close>


lemma complete_JErr [simp]:
  "complete en t f ty subs p (JErr e) s = (Inl \<lparr>emsg = error_message e, epath = p\<rparr>, s)"
  by (subst complete.simps) simp

lemma complete_NonNull:
  "\<not> is_err x \<Longrightarrow> complete en t f (NonNull ty) subs p x s =
     (case complete en t f ty subs p x s of
        (Inr RNull, s1) \<Rightarrow> (Inl \<lparr>emsg = ''Cannot return null for non-nullable field '' @ t @ ''.'' @ f @ ''.'', epath = p\<rparr>, s1)
      | r \<Rightarrow> r)"
  by (subst complete.simps) (cases x; simp add: is_err_def)

lemma complete_nullish:
  "is_nullish x \<Longrightarrow> (\<forall>ty'. ty \<noteq> NonNull ty') \<Longrightarrow> complete en t f ty subs p x s = (Inr RNull, s)"
  by (subst complete.simps) (cases ty; auto simp: is_nullish_def)

lemma complete_scalar:
  "\<not> is_err x \<Longrightarrow> \<not> is_nullish x \<Longrightarrow> n \<in> set scalar_names \<Longrightarrow>
   complete en t f (Named n) subs p x s =
     (case serialize_scalar n x of Inl m \<Rightarrow> (Inl \<lparr>emsg = m, epath = p\<rparr>, s) | Inr r \<Rightarrow> (Inr r, s))"
  by (subst complete.simps) (cases x; simp add: is_err_def)

lemma complete_object:
  "\<not> is_err x \<Longrightarrow> \<not> is_nullish x \<Longrightarrow> n \<notin> set scalar_names \<Longrightarrow>
   complete en t f (Named n) subs p x s =
     (case exec_sels en n x p subs s of (Inl e, s1) \<Rightarrow> (Inl e, s1) | (Inr fs, s1) \<Rightarrow> (Inr (RObj fs), s1))"
  by (subst complete.simps) (cases x; simp add: is_err_def)

lemma complete_ListOf:
  "complete en t f (ListOf ty) subs p (JArr xs) s =
     (case complete_list en t f ty subs p 0 xs s of (Inl e, s1) \<Rightarrow> (Inl e, s1) | (Inr rs, s1) \<Rightarrow> (Inr (RList rs), s1))"
  by (subst complete.simps) (simp add: is_nullish_def)

text \<open>An induction rule for the executor with one hypothesis per recursive call of
  \<open>complete\<close> rather than one per constructor of the value.\<close>

lemma exec_induct:
  assumes sels_Nil: "\<And>en t v p s. P en t v p [] s"
    and sels_Cons: "\<And>en t v p f a subs rest s. Q en t v p (Sel f a subs) s \<Longrightarrow>
      (\<And>x y b. (x, y) = exec_field en t v p (Sel f a subs) s \<Longrightarrow> x = Inr b \<Longrightarrow> P en t v p rest y) \<Longrightarrow>
      P en t v p (Sel f a subs # rest) s"
    and field: "\<And>en t v p f a subs s.
      (\<And>fd x y b. field_of (e_schema en) t f = Some fd \<Longrightarrow> (x, y) = resolve en t f v (JObj a) s \<Longrightarrow> x = Inr b \<Longrightarrow>
         R en t f (fd_type fd) subs (p @ [PKey f]) b y) \<Longrightarrow>
      Q en t v p (Sel f a subs) s"
    and compl: "\<And>en t f ty subs p x s.
      (\<And>n. \<not> is_err x \<Longrightarrow> ty = Named n \<Longrightarrow> \<not> is_nullish x \<Longrightarrow> n \<notin> set scalar_names \<Longrightarrow> P en n x p subs s) \<Longrightarrow>
      (\<And>ty'. \<not> is_err x \<Longrightarrow> ty = NonNull ty' \<Longrightarrow> R en t f ty' subs p x s) \<Longrightarrow>
      (\<And>ty' xs. \<not> is_err x \<Longrightarrow> ty = ListOf ty' \<Longrightarrow> \<not> is_nullish x \<Longrightarrow> x = JArr xs \<Longrightarrow> S en t f ty' subs p 0 xs s) \<Longrightarrow>
      R en t f ty subs p x s"
    and list_Nil: "\<And>en t f ty subs p i s. S en t f ty subs p i [] s"
    and list_Cons: "\<And>en t f ty subs p i x xs s. R en t f ty subs (p @ [PIdx i]) x s \<Longrightarrow>
      (\<And>xa xb y b. xa = (case complete en t f ty subs (p @ [PIdx i]) x s of
                             (Inl e, s0) \<Rightarrow> handle_error ty e s0 | (Inr bb, s0) \<Rightarrow> (Inr bb, s0)) \<Longrightarrow>
         (xb, y) = xa \<Longrightarrow> xb = Inr b \<Longrightarrow> S en t f ty subs p (Suc i) xs y) \<Longrightarrow>
      S en t f ty subs p i (x # xs) s"
  shows "P en1 t1 v1 p1 sels s1" "Q en2 t2 v2 p2 sel s2" "R en3 t3 f3 ty3 subs3 p3 x3 s3"
    "S en4 t4 f4 ty4 subs4 p4 i4 xs4 s4"
proof (induction en1 t1 v1 p1 sels s1 and en2 t2 v2 p2 sel s2 and en3 t3 f3 ty3 subs3 p3 x3 s3
    and en4 t4 f4 ty4 subs4 p4 i4 xs4 s4 rule: exec_sels_exec_field_complete_complete_list.induct)
  case (1 en t v p s)
  then show ?case by (rule sels_Nil)
next
  case (2 en t v p f a subs rest s)
  then show ?case by (rule sels_Cons)
next
  case (3 en t v p f a subs s)
  then show ?case by (rule field)
next
  case (4 en t f ty subs p x s)
  show ?case
  proof (rule compl)
    fix n assume "\<not> is_err x" "ty = Named n" "\<not> is_nullish x" "n \<notin> set scalar_names"
    with 4 show "P en n x p subs s" by (cases x) (simp_all add: is_err_def)
  next
    fix ty' assume "\<not> is_err x" "ty = NonNull ty'"
    with 4 show "R en t f ty' subs p x s" by (cases x) (simp_all add: is_err_def)
  next
    fix ty' xs assume "\<not> is_err x" "ty = ListOf ty'" "\<not> is_nullish x" "x = JArr xs"
    with 4 show "S en t f ty' subs p 0 xs s" by simp
  qed
next
  case (5 en t f ty subs p i s)
  then show ?case by (rule list_Nil)
next
  case (6 en t f ty subs p i x xs s)
  then show ?case by (rule list_Cons)
qed


lemma lookup_resolver_server:
  "lookup_resolver (apollo_server st) ''Query'' ''user'' = Some (\<lambda>st p a. Query_user st a)"
  "lookup_resolver (apollo_server st) ''Query'' ''items'' = Some (\<lambda>st p a. Query_items st)"
  "lookup_resolver (apollo_server st) ''User'' ''items'' = Some (\<lambda>st p a. User_items st p)"
  "lookup_resolver (apollo_server st) ''Item'' ''user'' = Some (\<lambda>st p a. Item_user st p)"
  by (simp_all add: lookup_resolver_def apollo_server_def resolvers_def)

lemma e_server [simp]: "e_store (apollo_server st) = st" "e_schema (apollo_server st) = typeDefs"
  by (simp_all add: apollo_server_def)

lemma field_of_Query_user:
  "field_of typeDefs ''Query'' ''user'' = Some \<lparr>fd_name = ''user'', fd_args = [(''id'', NonNull (Named ''String''))], fd_type = Named ''User''\<rparr>"
  by (simp add: field_of_def typeDefs_def fld_def)

text \<open>C13. A query \<^verbatim>\<open>{ user(id: k) { ... } }\<close> for a valid key whose document is absent
  answers \<^verbatim>\<open>{ user: null }\<close> with one error "User not found." at path \<^verbatim>\<open>user\<close>: the
  \<^verbatim>\<open>Error\<close> object that \<^verbatim>\<open>Query.user\<close> returns is thrown by the executor, and
  \<^verbatim>\<open>user\<close> is nullable.\<close>

theorem missing_user_response:
  assumes "valid_key k" and "fault st (GetDoc [''users'', k]) = None" and "map_of (docs st) [''users'', k] = None"
  shows "execute (apollo_server st) [Sel ''user'' [(''id'', JStr k)] subs]
       = (RObj [(''user'', RNull)],
          \<lparr>errs = [\<lparr>emsg = ''User not found.'', epath = [PKey ''user'']\<rparr>], calls = [(''Query'', ''user'')]\<rparr>)"
proof -
  have "Query_user st (JObj [(''id'', JStr k)]) = Inr (JErr (ValidationError ''User not found.''))"
    using assms users_key_path [OF assms(1)] by (simp add: Query_user_at snapshot_data_def)
  then show ?thesis
    by (simp add: execute_def resolve_def lookup_resolver_server field_of_Query_user handle_error_def init_xst_def)
qed


lemma field_of_User_scalar:
  "f \<in> set [''id'', ''name'', ''birthday''] \<Longrightarrow>
   \<exists>n \<in> set scalar_names. field_of typeDefs ''User'' f = Some (fld f (NonNull (Named n)))"
  by (auto simp: field_of_def typeDefs_def fld_def scalar_names_def)

lemma lookup_resolver_User_scalar:
  "f \<in> set [''id'', ''name'', ''birthday''] \<Longrightarrow> lookup_resolver (apollo_server st) ''User'' f = None"
  by (auto simp: lookup_resolver_def apollo_server_def resolvers_def)

lemma complete_scalar_str:
  "n \<in> set scalar_names \<Longrightarrow> complete en t f (NonNull (Named n)) subs p (JStr v) s = (Inr (RStr v), s)"
  by (simp add: complete_NonNull complete_scalar is_err_def is_nullish_def serialize_scalar_def)

lemma exec_user_scalars:
  "list_all (\<lambda>f. f \<in> set [''id'', ''name'', ''birthday''] \<and> (\<exists>v. map_of ufs f = Some (JStr v))) fs \<Longrightarrow>
   exec_sels (apollo_server st) ''User'' (JObj ufs) p (map (\<lambda>f. Sel f [] []) fs) \<sigma>
     = (Inr (map (\<lambda>f. (f, RStr (js_to_string (the (map_of ufs f))))) fs), \<sigma>)"
proof (induction fs)
  case Nil
  then show ?case by simp
next
  case (Cons f fs)
  from Cons.prems obtain v where f: "f \<in> set [''id'', ''name'', ''birthday'']" and v: "map_of ufs f = Some (JStr v)"
    by auto
  from field_of_User_scalar [OF f] obtain n where n: "n \<in> set scalar_names"
    and fd: "field_of typeDefs ''User'' f = Some (fld f (NonNull (Named n)))" by blast
  have "exec_field (apollo_server st) ''User'' (JObj ufs) p (Sel f [] []) \<sigma> = (Inr (RStr v), \<sigma>)"
    using fd v n lookup_resolver_User_scalar [OF f]
    by (simp add: resolve_def default_resolver_def fld_def complete_scalar_str)
  with Cons v show ?case by simp
qed

text \<open>For a stored user whose selected scalar fields hold strings, the query
  \<^verbatim>\<open>{ user(id: k) { f1 ... fn } }\<close> answers the stored values of exactly those fields in the
  order selected, without errors, calling only the \<^verbatim>\<open>Query.user\<close> resolver.\<close>

theorem found_user_response:
  assumes "valid_key k" and "fault st (GetDoc [''users'', k]) = None"
    and "map_of (docs st) [''users'', k] = Some ufs"
    and "list_all (\<lambda>f. f \<in> set [''id'', ''name'', ''birthday''] \<and> (\<exists>v. map_of ufs f = Some (JStr v))) fs"
  shows "execute (apollo_server st) [Sel ''user'' [(''id'', JStr k)] (map (\<lambda>f. Sel f [] []) fs)]
       = (RObj [(''user'', RObj (map (\<lambda>f. (f, RStr (js_to_string (the (map_of ufs f))))) fs))],
          \<lparr>errs = [], calls = [(''Query'', ''user'')]\<rparr>)"
proof -
  have "Query_user st (JObj [(''id'', JStr k)]) = Inr (JObj ufs)"
    using assms users_key_path [OF assms(1)] by (simp add: Query_user_at snapshot_data_def)
  then show ?thesis
    using exec_user_scalars [OF assms(4), of st "[PKey ''user'']" "\<lparr>errs = [], calls = [(''Query'', ''user'')]\<rparr>"]
    by (simp add: execute_def resolve_def lookup_resolver_server field_of_Query_user init_xst_def
        complete_object is_err_def is_nullish_def scalar_names_def)
qed

lemma field_of_Query_items:
  "field_of typeDefs ''Query'' ''items'' = Some (fld ''items'' (ListOf (Named ''Item'')))"
  by (simp add: field_of_def typeDefs_def fld_def)

text \<open>C14. When the store fails with error e, \<^verbatim>\<open>{ items }\<close> answers null with the raw
  message of e (\<^verbatim>\<open>Query.items\<close> has no catch), while \<^verbatim>\<open>{ user }\<close> answers null with
  \<^verbatim>\<open>String(e)\<close>, the name-prefixed text that the ApolloError wrapper carries.\<close>

theorem store_failure_responses:
  assumes "fault st (RunQuery [''items''] []) = Some e" and "valid_key k" and "fault st (GetDoc [''users'', k]) = Some e"
  shows "execute (apollo_server st) [Sel ''items'' [] subs]
           = (RObj [(''items'', RNull)], \<lparr>errs = [\<lparr>emsg = error_message e, epath = [PKey ''items'']\<rparr>], calls = [(''Query'', ''items'')]\<rparr>)
       \<and> execute (apollo_server st) [Sel ''user'' [(''id'', JStr k)] subs']
           = (RObj [(''user'', RNull)], \<lparr>errs = [\<lparr>emsg = error_to_string e, epath = [PKey ''user'']\<rparr>], calls = [(''Query'', ''user'')]\<rparr>)"
proof -
  have i: "Query_items st = Inl e"
    using assms(1) by (simp add: Query_items_def fs_collection_items query_get_def)
  have u: "Query_user st (JObj [(''id'', JStr k)]) = Inl (ApolloError (error_to_string e))"
    using assms(3) users_key_path [OF assms(2)] by (simp add: Query_user_def doc_get_def apollo_wrap_def)
  show ?thesis
    using i u by (simp add: execute_def resolve_def lookup_resolver_server field_of_Query_items field_of_Query_user
        init_xst_def handle_error_def fld_def)
qed


lemma schema_facts:
  "field_of typeDefs ''Item'' ''userId'' = Some (fld ''userId'' (NonNull (Named ''User'')))"
  "field_of typeDefs ''Item'' ''user'' = Some (fld ''user'' (NonNull (Named ''User'')))"
  "field_of typeDefs ''User'' ''id'' = Some (fld ''id'' (NonNull (Named ''ID'')))"
  "lookup_resolver (apollo_server st) ''Item'' ''userId'' = None"
  "lookup_resolver (apollo_server st) ''User'' ''id'' = None"
  "field_of typeDefs ''User'' ''items'' = Some (fld ''items'' (ListOf (Named ''Item'')))"
  by (simp_all add: field_of_def typeDefs_def fld_def lookup_resolver_def apollo_server_def resolvers_def)


text \<open>C23. \<^verbatim>\<open>Query.user\<close> answers \<^verbatim>\<open>userDoc.data()\<close>, which does not hold the
  document's key: for a stored user document without an \<^verbatim>\<open>id\<close> field,
  \<^verbatim>\<open>{ user(id: k) { id } }\<close> answers \<^verbatim>\<open>{ user: null }\<close> with the non-null error of
  \<^verbatim>\<open>User.id: ID!\<close>, and \<^verbatim>\<open>{ user(id: k) { items { ... } } }\<close> answers
  \<^verbatim>\<open>{ user: { items: null } }\<close> with the client's refusal of \<^verbatim>\<open>undefined\<close>, since
  \<^verbatim>\<open>User.items\<close> filters on the parent's missing \<^verbatim>\<open>id\<close>.\<close>

theorem user_key_not_in_data:
  assumes "valid_key k" and "fault st (GetDoc [''users'', k]) = None"
    and "map_of (docs st) [''users'', k] = Some ufs" and "map_of ufs ''id'' = None"
  shows "execute (apollo_server st) [Sel ''user'' [(''id'', JStr k)] [Sel ''id'' [] []]]
       = (RObj [(''user'', RNull)],
          \<lparr>errs = [\<lparr>emsg = ''Cannot return null for non-nullable field User.id.'', epath = [PKey ''user'', PKey ''id'']\<rparr>],
           calls = [(''Query'', ''user'')]\<rparr>)
     \<and> execute (apollo_server st) [Sel ''user'' [(''id'', JStr k)] [Sel ''items'' [] subs]]
       = (RObj [(''user'', RObj [(''items'', RNull)])],
          \<lparr>errs = [\<lparr>emsg = ''Error: Value for argument value is not a valid query constraint. Cannot use undefined as a Firestore value.'',
                    epath = [PKey ''user'', PKey ''items'']\<rparr>],
           calls = [(''Query'', ''user''), (''User'', ''items'')]\<rparr>)"
proof -
  have u: "Query_user st (JObj [(''id'', JStr k)]) = Inr (JObj ufs)"
    using assms users_key_path [OF assms(1)] by (simp add: Query_user_at snapshot_data_def)
  have i: "User_items st (JObj ufs) = Inl (ApolloError ''Error: Value for argument value is not a valid query constraint. Cannot use undefined as a Firestore value.'')"
    using assms(4) by (simp add: User_items_def fs_collection_items fs_where_def apollo_wrap_def error_to_string_def)
  show ?thesis
    using u i assms(4)
    by (simp add: execute_def resolve_def lookup_resolver_server field_of_Query_user init_xst_def
        complete_object complete_NonNull complete_nullish complete_ListOf is_err_def is_nullish_def scalar_names_def
        schema_facts default_resolver_def fld_def handle_error_def)
qed


lemma complete_item_userId:
  "map_of fs ''userId'' = Some (JStr u) \<Longrightarrow>
   complete (apollo_server st) t f (Named ''Item'') [Sel ''userId'' [] [Sel ''id'' [] []]] p (JObj fs) \<sigma>
     = (Inl (userId_error p), \<sigma>)"
  by (simp add: complete_object complete_NonNull complete_nullish is_err_def is_nullish_def scalar_names_def
      schema_facts resolve_def default_resolver_def fld_def handle_error_def userId_error_def)

lemma complete_list_userId:
  "\<forall>x\<in>set xs. \<exists>fs u. x = JObj fs \<and> map_of fs ''userId'' = Some (JStr u) \<Longrightarrow>
   complete_list (apollo_server st) t f (Named ''Item'') [Sel ''userId'' [] [Sel ''id'' [] []]] p i xs \<sigma>
     = (Inr (replicate (length xs) RNull),
        \<sigma>\<lparr>errs := errs \<sigma> @ map (\<lambda>j. userId_error (p @ [PIdx j])) [i..<i + length xs]\<rparr>)"
proof (induction xs arbitrary: i \<sigma>)
  case Nil
  then show ?case by simp
next
  case (Cons x xs)
  then obtain fs u where x: "x = JObj fs" and u: "map_of fs ''userId'' = Some (JStr u)" by auto
  have "[i..<i + length (x # xs)] = i # [Suc i..<Suc i + length xs]" by (simp add: upt_rec)
  with Cons x u show ?case by (simp add: complete_item_userId handle_error_def)
qed

text \<open>C15. The schema declares \<^verbatim>\<open>Item.userId: User!\<close> but no resolver maps the stored
  string to a user: when every item stores a string userId, selecting
  \<^verbatim>\<open>items { userId { id } }\<close> nulls every item of the list, with one non-null error per item.\<close>

theorem userId_field_unusable:
  assumes "fault st (RunQuery [''items''] []) = None"
    and "\<forall>(p, ifs) \<in> set (docs st). is_child [''items''] p \<longrightarrow> (\<exists>u. map_of ifs ''userId'' = Some (JStr u))"
  shows "execute (apollo_server st) [Sel ''items'' [] [Sel ''userId'' [] [Sel ''id'' [] []]]]
       = (RObj [(''items'', RList (replicate (length (filter (\<lambda>(p, ifs). is_child [''items''] p) (docs st))) RNull))],
          \<lparr>errs = map (\<lambda>j. userId_error [PKey ''items'', PIdx j]) [0..<length (filter (\<lambda>(p, ifs). is_child [''items''] p) (docs st))],
           calls = [(''Query'', ''items'')]\<rparr>)"
proof -
  let ?ds = "filter (\<lambda>(p, ifs). is_child [''items''] p) (docs st)"
  have q: "Query_items st = Inr (docs_data ?ds)"
    using assms(1) by (simp add: Query_items_result matches_def)
  have objs: "\<forall>x\<in>set (map (\<lambda>d. JObj (snd d)) ?ds). \<exists>fs u. x = JObj fs \<and> map_of fs ''userId'' = Some (JStr u)"
    using assms(2) by auto
  show ?thesis
    using q complete_list_userId [OF objs, of st "''Query''" "''items''" "[PKey ''items'']" 0
        "\<lparr>errs = [], calls = [(''Query'', ''items'')]\<rparr>"]
    by (simp add: execute_def resolve_def lookup_resolver_server field_of_Query_items init_xst_def
        fld_def complete_ListOf docs_data_def snapshot_data_def)
qed


lemma handle_error_calls: "calls (snd (handle_error ty e \<sigma>)) = calls \<sigma>"
  by (cases ty) (simp_all add: handle_error_def)

lemma snd_null_check: "snd (case r of (Inr RNull, s1) \<Rightarrow> (X, s1) | r \<Rightarrow> r) = snd r"
  by (auto split: prod.split sum.split rval.split)

lemma snd_wrap: "snd (case r of (Inl e, s1) \<Rightarrow> (Inl e, s1) | (Inr fs, s1) \<Rightarrow> (Inr (g fs), s1)) = snd r"
  by (auto split: prod.split sum.split)

lemma complete_scalar_state:
  assumes "n \<in> set scalar_names"
  shows "snd (complete en t f (NonNull (Named n)) subs p y \<sigma>) = \<sigma>"
proof (cases "is_err y")
  case True
  then show ?thesis by (cases y) (simp_all add: is_err_def)
next
  case False
  have "snd (complete en t f (Named n) subs p y \<sigma>) = \<sigma>"
    using False assms
    by (cases "is_nullish y") (simp_all add: complete_nullish complete_scalar split: sum.split)
  with False show ?thesis by (simp add: complete_NonNull snd_null_check)
qed

lemma exec_sels_Cons_state:
  "snd (exec_sels en t v p (Sel f a subs # rest) s) =
     (case exec_field en t v p (Sel f a subs) s of (Inl e, s1) \<Rightarrow> s1 | (Inr r, s1) \<Rightarrow> snd (exec_sels en t v p rest s1))"
  by (simp only: exec_sels.simps(2)) (auto split: prod.split sum.split)

lemma complete_list_Cons_state:
  "snd (complete_list en t f ty subs p i (x # xs) s) =
     (case complete en t f ty subs (p @ [PIdx i]) x s of
        (Inl e, s0) \<Rightarrow> (case handle_error ty e s0 of (Inl e, s1) \<Rightarrow> s1 | (Inr r, s1) \<Rightarrow> snd (complete_list en t f ty subs p (Suc i) xs s1))
      | (Inr r, s1) \<Rightarrow> snd (complete_list en t f ty subs p (Suc i) xs s1))"
  by (simp only: complete_list.simps(2)) (auto split: prod.split sum.split)

lemma exec_sels_single_state:
  "snd (exec_sels en t v p [Sel f a subs] s) = snd (exec_field en t v p (Sel f a subs) s)"
  by (auto split: prod.split sum.split)

lemma execute_calls:
  "calls (snd (execute en sels)) = calls (snd (exec_sels en ''Query'' JUndefined [] sels init_xst))"
  by (auto simp: execute_def split: prod.split sum.split)

lemma exec_user_field_calls:
  assumes f: "f \<in> set [''id'', ''name'', ''birthday'']"
  shows "calls (snd (exec_field (apollo_server st) ''User'' v p (Sel f [] []) \<sigma>)) = calls \<sigma>"
proof -
  from field_of_User_scalar [OF f] obtain n where n: "n \<in> set scalar_names"
    and fd: "field_of typeDefs ''User'' f = Some (fld f (NonNull (Named n)))" by blast
  have "snd (complete (apollo_server st) ''User'' f (NonNull (Named n)) [] (p @ [PKey f]) (default_resolver v f) \<sigma>) = \<sigma>"
    using n by (rule complete_scalar_state)
  then show ?thesis
    using fd lookup_resolver_User_scalar [OF f]
    by (auto simp: resolve_def fld_def handle_error_def split: prod.split sum.split)
qed

lemma exec_user_scalars_calls:
  "set fs \<subseteq> set [''id'', ''name'', ''birthday''] \<Longrightarrow>
   calls (snd (exec_sels (apollo_server st) ''User'' v p (map (\<lambda>f. Sel f [] []) fs) \<sigma>)) = calls \<sigma>"
proof (induction fs arbitrary: \<sigma>)
  case Nil
  then show ?case by simp
next
  case (Cons f fs)
  obtain r1 s1 where ex: "exec_field (apollo_server st) ''User'' v p (Sel f [] []) \<sigma> = (r1, s1)"
    by fastforce
  have "calls s1 = calls \<sigma>"
    using exec_user_field_calls [of f st v p \<sigma>] Cons.prems ex by simp
  then show ?case
    using Cons.IH [of s1] Cons.prems
    by (simp only: list.map exec_sels_Cons_state ex) (auto split: sum.split)
qed

lemma complete_user_calls:
  assumes fs: "set fs \<subseteq> set [''id'', ''name'', ''birthday'']"
  shows "calls (snd (complete (apollo_server st) t f (NonNull (Named ''User'')) (map (\<lambda>f. Sel f [] []) fs) p x \<sigma>)) = calls \<sigma>"
proof (cases "is_err x")
  case True
  then show ?thesis by (cases x) (simp_all add: is_err_def)
next
  case False
  have "calls (snd (complete (apollo_server st) t f (Named ''User'') (map (\<lambda>f. Sel f [] []) fs) p x \<sigma>)) = calls \<sigma>"
    using False exec_user_scalars_calls [OF fs]
    by (cases "is_nullish x") (simp_all add: complete_nullish complete_object scalar_names_def snd_wrap)
  with False show ?thesis by (simp add: complete_NonNull snd_null_check)
qed


lemma exec_field_calls:
  "calls (snd (exec_field en t v p (Sel f a subs) s)) =
     (case field_of (e_schema en) t f of
        None \<Rightarrow> calls s
      | Some fd \<Rightarrow>
          (case resolve en t f v (JObj a) s of
             (Inl err, s1) \<Rightarrow> calls s1
           | (Inr x, s1) \<Rightarrow> calls (snd (complete en t f (fd_type fd) subs (p @ [PKey f]) x s1))))"
  by (simp only: exec_field.simps) (auto simp: handle_error_calls split: option.split prod.split sum.split)

lemma complete_item_user_calls:
  assumes fs: "set fs \<subseteq> set [''id'', ''name'', ''birthday'']" and x: "\<not> is_err x" "\<not> is_nullish x"
  shows "calls (snd (complete (apollo_server st) t f (Named ''Item'') [Sel ''user'' [] (map (\<lambda>f. Sel f [] []) fs)] p x \<sigma>))
         = calls \<sigma> @ [(''Item'', ''user'')]"
proof -
  have "calls (snd (exec_field (apollo_server st) ''Item'' x p (Sel ''user'' [] (map (\<lambda>f. Sel f [] []) fs)) \<sigma>))
        = calls \<sigma> @ [(''Item'', ''user'')]"
    using complete_user_calls [OF fs]
    by (simp del: exec_field.simps add: exec_field_calls schema_facts resolve_def lookup_resolver_server fld_def
        split: sum.split)
  then show ?thesis
    using x by (simp del: exec_field.simps exec_sels.simps
        add: complete_object scalar_names_def snd_wrap exec_sels_single_state)
qed

lemma complete_list_item_user_calls:
  assumes fs: "set fs \<subseteq> set [''id'', ''name'', ''birthday'']"
  shows "\<forall>x\<in>set xs. \<not> is_err x \<and> \<not> is_nullish x \<Longrightarrow>
   calls (snd (complete_list (apollo_server st) t f (Named ''Item'') [Sel ''user'' [] (map (\<lambda>f. Sel f [] []) fs)] p i xs \<sigma>))
     = calls \<sigma> @ replicate (length xs) (''Item'', ''user'')"
proof (induction xs arbitrary: i \<sigma>)
  case Nil
  then show ?case by simp
next
  case (Cons x xs)
  let ?c = "complete (apollo_server st) t f (Named ''Item'') [Sel ''user'' [] (map (\<lambda>f. Sel f [] []) fs)] (p @ [PIdx i]) x \<sigma>"
  obtain r0 s0 where c: "?c = (r0, s0)" by fastforce
  have s0: "calls s0 = calls \<sigma> @ [(''Item'', ''user'')]"
    using complete_item_user_calls [OF fs, of x st t f "p @ [PIdx i]" \<sigma>] Cons.prems c by simp
  show ?case
    using Cons.IH [of "Suc i"] Cons.prems s0 c
    by (simp del: complete_list.simps add: complete_list_Cons_state handle_error_def split: sum.split)
qed

text \<open>C16. Resolving \<^verbatim>\<open>{ items { user { ... } } }\<close> over scalar user fields calls
  \<^verbatim>\<open>Query.items\<close> once and then \<^verbatim>\<open>Item.user\<close> once per item document, whatever the
  users' documents hold: one store read per item (the N+1 pattern).\<close>

theorem items_users_calls:
  assumes "fault st (RunQuery [''items''] []) = None" and "set fs \<subseteq> set [''id'', ''name'', ''birthday'']"
  shows "calls (snd (execute (apollo_server st) [Sel ''items'' [] [Sel ''user'' [] (map (\<lambda>f. Sel f [] []) fs)]]))
       = (''Query'', ''items'') # replicate (length (filter (\<lambda>(p, ifs). is_child [''items''] p) (docs st))) (''Item'', ''user'')"
proof -
  let ?ds = "filter (\<lambda>(p, ifs). is_child [''items''] p) (docs st)"
  let ?xs = "map (\<lambda>d. JObj (snd d)) ?ds"
  let ?\<sigma> = "\<lparr>errs = [], calls = [(''Query'', ''items'')]\<rparr>"
  have q: "Query_items st = Inr (JArr ?xs)"
    using assms(1) by (simp add: Query_items_result matches_def docs_data_def snapshot_data_def)
  have objs: "\<forall>x\<in>set ?xs. \<not> is_err x \<and> \<not> is_nullish x" by (auto simp: is_err_def is_nullish_def)
  have "calls (snd (complete_list (apollo_server st) ''Query'' ''items'' (Named ''Item'')
          [Sel ''user'' [] (map (\<lambda>f. Sel f [] []) fs)] [PKey ''items''] 0 ?xs ?\<sigma>))
        = calls ?\<sigma> @ replicate (length ?xs) (''Item'', ''user'')"
    using complete_list_item_user_calls [OF assms(2) objs] .
  then show ?thesis
    using q by (simp del: exec_field.simps exec_sels.simps add: execute_calls exec_sels_single_state exec_field_calls
        resolve_def lookup_resolver_server field_of_Query_items init_xst_def fld_def complete_ListOf snd_wrap)
qed


lemma complete_item_absent_user:
  assumes "map_of ifs ''userId'' = Some (JStr u)" and "valid_key u"
    and "fault st (GetDoc [''users'', u]) = None" and "map_of (docs st) [''users'', u] = None"
  shows "complete (apollo_server st) t f (Named ''Item'') [Sel ''user'' [] subs] p (JObj ifs) \<sigma>
     = (Inl (user_null_error p), \<sigma>\<lparr>calls := calls \<sigma> @ [(''Item'', ''user'')]\<rparr>)"
proof -
  have "Item_user st (JObj ifs) = Inr JUndefined"
    using Item_user_at [of "JObj ifs" "JStr u" "[''users'', u]" st] assms users_key_path [OF assms(2)]
    by (simp add: snapshot_data_def)
  then show ?thesis
    by (simp add: complete_object complete_NonNull complete_nullish is_err_def is_nullish_def scalar_names_def
        schema_facts resolve_def lookup_resolver_server fld_def handle_error_def user_null_error_def)
qed

text \<open>C17. \<^verbatim>\<open>Item.user\<close> is declared \<^verbatim>\<open>User!\<close>: when an item's userId names a user
  document that does not exist, the item's position in the list becomes null, one error
  "Cannot return null for non-nullable field Item.user." is recorded at that position, and
  the rest of the list is completed as usual.\<close>

theorem absent_user_nulls_item:
  assumes "map_of ifs ''userId'' = Some (JStr u)" and "valid_key u"
    and "fault st (GetDoc [''users'', u]) = None" and "map_of (docs st) [''users'', u] = None"
  shows "complete_list (apollo_server st) t f (Named ''Item'') [Sel ''user'' [] subs] p i (JObj ifs # xs) \<sigma>
     = (case complete_list (apollo_server st) t f (Named ''Item'') [Sel ''user'' [] subs] p (Suc i) xs
               (\<sigma>\<lparr>calls := calls \<sigma> @ [(''Item'', ''user'')], errs := errs \<sigma> @ [user_null_error (p @ [PIdx i])]\<rparr>) of
          (Inl e, s) \<Rightarrow> (Inl e, s)
        | (Inr rs, s) \<Rightarrow> (Inr (RNull # rs), s))"
  using complete_item_absent_user [OF assms, of t f subs "p @ [PIdx i]" \<sigma>]
  by (simp add: handle_error_def)


lemma comments_facts:
  "field_of typeDefs ''Item'' ''comments'' = Some (fld ''comments'' (ListOf (Named ''Comment'')))"
  "lookup_resolver (apollo_server st) ''Item'' ''comments'' = None"
  by (simp_all add: field_of_def typeDefs_def fld_def lookup_resolver_def apollo_server_def resolvers_def)

lemma complete_item_comments:
  "map_of ifs ''comments'' = None \<Longrightarrow>
   complete (apollo_server st) t f (Named ''Item'') [Sel ''comments'' [] subs] p (JObj ifs) \<sigma>
     = (Inr (RObj [(''comments'', RNull)]), \<sigma>)"
  by (simp add: complete_object complete_nullish is_err_def is_nullish_def scalar_names_def
      comments_facts resolve_def default_resolver_def fld_def)

lemma complete_list_comments:
  "\<forall>x\<in>set xs. \<exists>ifs. x = JObj ifs \<and> map_of ifs ''comments'' = None \<Longrightarrow>
   complete_list (apollo_server st) t f (Named ''Item'') [Sel ''comments'' [] subs] p i xs \<sigma>
     = (Inr (replicate (length xs) (RObj [(''comments'', RNull)])), \<sigma>)"
proof (induction xs arbitrary: i)
  case Nil
  then show ?case by simp
next
  case (Cons x xs)
  then obtain ifs where "x = JObj ifs" and "map_of ifs ''comments'' = None" by auto
  with Cons show ?case by (simp add: complete_item_comments)
qed

text \<open>C18. \<^verbatim>\<open>Item.comments\<close> has no resolver: over a store whose item documents have
  no \<^verbatim>\<open>comments\<close> field, \<^verbatim>\<open>items { comments { ... } }\<close> answers \<^verbatim>\<open>null\<close> for the
  comments of every item, without errors and without a resolver call; the \<^verbatim>\<open>Comment\<close>
  type is never reached.\<close>

theorem comments_always_null:
  assumes "fault st (RunQuery [''items''] []) = None"
    and "\<forall>(p, ifs) \<in> set (docs st). is_child [''items''] p \<longrightarrow> map_of ifs ''comments'' = None"
  shows "execute (apollo_server st) [Sel ''items'' [] [Sel ''comments'' [] subs]]
       = (RObj [(''items'', RList (replicate (length (filter (\<lambda>(p, ifs). is_child [''items''] p) (docs st)))
                                     (RObj [(''comments'', RNull)])))],
          \<lparr>errs = [], calls = [(''Query'', ''items'')]\<rparr>)"
proof -
  let ?ds = "filter (\<lambda>(p, ifs). is_child [''items''] p) (docs st)"
  have q: "Query_items st = Inr (docs_data ?ds)"
    using assms(1) by (simp add: Query_items_result matches_def)
  have objs: "\<forall>x\<in>set (map (\<lambda>d. JObj (snd d)) ?ds). \<exists>ifs. x = JObj ifs \<and> map_of ifs ''comments'' = None"
    using assms(2) by auto
  show ?thesis
    using q complete_list_comments [OF objs, of st "''Query''" "''items''" subs "[PKey ''items'']" 0
        "\<lparr>errs = [], calls = [(''Query'', ''items'')]\<rparr>"]
    by (simp add: execute_def resolve_def lookup_resolver_server field_of_Query_items init_xst_def
        fld_def complete_ListOf docs_data_def snapshot_data_def)
qed


text \<open>Boundary input: over a store with no item documents, \<^verbatim>\<open>{ items { ... } }\<close>
  answers an empty list, not \<^verbatim>\<open>null\<close> and not an error, after one call of
  \<^verbatim>\<open>Query.items\<close>.\<close>

theorem empty_items_response:
  assumes "fault st (RunQuery [''items''] []) = None" and "\<forall>(p, fs) \<in> set (docs st). \<not> is_child [''items''] p"
  shows "execute (apollo_server st) [Sel ''items'' [] subs]
       = (RObj [(''items'', RList [])], \<lparr>errs = [], calls = [(''Query'', ''items'')]\<rparr>)"
proof -
  have "filter (\<lambda>(p, fs). is_child [''items''] p) (docs st) = []"
    using assms(2) by (auto simp: filter_empty_conv)
  then have "Query_items st = Inr (JArr [])"
    using assms(1) by (simp add: Query_items_result matches_def docs_data_def)
  then show ?thesis
    by (simp add: execute_def resolve_def lookup_resolver_server field_of_Query_items init_xst_def fld_def complete_ListOf)
qed


subsection \<open>The theorems at concrete inputs\<close>

lemmas exec_unfold = exec_sels.simps exec_field.simps

theorem missing_user_response_witness:
  "execute (apollo_server demo_store) [Sel ''user'' [(''id'', JStr ''u2'')] [Sel ''name'' [] []]]
     = (RObj [(''user'', RNull)],
        \<lparr>errs = [\<lparr>emsg = ''User not found.'', epath = [PKey ''user'']\<rparr>], calls = [(''Query'', ''user'')]\<rparr>)"
  using missing_user_response [of "''u2''" demo_store "[Sel ''name'' [] []]"]
  by (simp del: exec_unfold add: demo_store_def valid_key_def)

theorem found_user_response_witness:
  "execute (apollo_server demo_store) [Sel ''user'' [(''id'', JStr ''u1'')] [Sel ''name'' [] [], Sel ''birthday'' [] []]]
     = (RObj [(''user'', RObj [(''name'', RStr ''Ann''), (''birthday'', RStr ''2000-01-01'')])],
        \<lparr>errs = [], calls = [(''Query'', ''user'')]\<rparr>)"
  using found_user_response [of "''u1''" demo_store
      "[(''id'', JStr ''u1''), (''name'', JStr ''Ann''), (''birthday'', JStr ''2000-01-01'')]" "[''name'', ''birthday'']"]
  by (simp del: exec_unfold add: demo_store_def valid_key_def)

theorem store_failure_responses_witness:
  "execute (apollo_server (demo_store\<lparr>fault := \<lambda>_. Some (GrpcError 14 ''unreachable'')\<rparr>)) [Sel ''items'' [] [Sel ''id'' [] []]]
     = (RObj [(''items'', RNull)],
        \<lparr>errs = [\<lparr>emsg = ''14 UNAVAILABLE: unreachable'', epath = [PKey ''items'']\<rparr>], calls = [(''Query'', ''items'')]\<rparr>)
   \<and> execute (apollo_server (demo_store\<lparr>fault := \<lambda>_. Some (GrpcError 14 ''unreachable'')\<rparr>)) [Sel ''user'' [(''id'', JStr ''u1'')] [Sel ''id'' [] []]]
     = (RObj [(''user'', RNull)],
        \<lparr>errs = [\<lparr>emsg = ''Error: 14 UNAVAILABLE: unreachable'', epath = [PKey ''user'']\<rparr>], calls = [(''Query'', ''user'')]\<rparr>)"
  using store_failure_responses [of "demo_store\<lparr>fault := \<lambda>_. Some (GrpcError 14 ''unreachable'')\<rparr>"
      "GrpcError 14 ''unreachable''" "''u1''" "[Sel ''id'' [] []]" "[Sel ''id'' [] []]"]
  by (simp del: exec_unfold add: valid_key_def js_simps)

theorem userId_field_unusable_witness:
  "execute (apollo_server demo_store) [Sel ''items'' [] [Sel ''userId'' [] [Sel ''id'' [] []]]]
     = (RObj [(''items'', RList [RNull, RNull, RNull])],
        \<lparr>errs = [userId_error [PKey ''items'', PIdx 0], userId_error [PKey ''items'', PIdx 1],
                 userId_error [PKey ''items'', PIdx 2]],
         calls = [(''Query'', ''items'')]\<rparr>)"
  using userId_field_unusable [of demo_store]
  by (simp del: exec_unfold add: demo_store_def is_child_def numeral_2_eq_2)

theorem user_key_not_in_data_witness:
  "execute (apollo_server (demo_store\<lparr>docs := [([''users'', ''u2''], [(''name'', JStr ''Bo'')])]\<rparr>))
      [Sel ''user'' [(''id'', JStr ''u2'')] [Sel ''id'' [] []]]
     = (RObj [(''user'', RNull)],
        \<lparr>errs = [\<lparr>emsg = ''Cannot return null for non-nullable field User.id.'', epath = [PKey ''user'', PKey ''id'']\<rparr>],
         calls = [(''Query'', ''user'')]\<rparr>)
   \<and> execute (apollo_server (demo_store\<lparr>docs := [([''users'', ''u2''], [(''name'', JStr ''Bo'')])]\<rparr>))
      [Sel ''user'' [(''id'', JStr ''u2'')] [Sel ''items'' [] [Sel ''title'' [] []]]]
     = (RObj [(''user'', RObj [(''items'', RNull)])],
        \<lparr>errs = [\<lparr>emsg = ''Error: Value for argument value is not a valid query constraint. Cannot use undefined as a Firestore value.'',
                  epath = [PKey ''user'', PKey ''items'']\<rparr>],
         calls = [(''Query'', ''user''), (''User'', ''items'')]\<rparr>)"
  by (rule user_key_not_in_data [where ufs = "[(''name'', JStr ''Bo'')]"]) (simp_all add: store_simps demo_store_def)

theorem items_users_calls_witness:
  "calls (snd (execute (apollo_server demo_store) [Sel ''items'' [] [Sel ''user'' [] [Sel ''name'' [] []]]]))
     = [(''Query'', ''items''), (''Item'', ''user''), (''Item'', ''user''), (''Item'', ''user'')]"
  using items_users_calls [of demo_store "[''name'']"]
  by (simp del: exec_unfold add: demo_store_def is_child_def numeral_3_eq_3)

theorem absent_user_nulls_item_witness:
  "complete_list (apollo_server demo_store) ''Query'' ''items'' (Named ''Item'') [Sel ''user'' [] [Sel ''name'' [] []]]
      [PKey ''items''] 1
      [JObj [(''id'', JStr ''i2''), (''userId'', JStr ''u2''), (''title'', JStr ''T2''), (''content'', JStr ''C2'')]]
      \<lparr>errs = [], calls = []\<rparr>
   = (Inr [RNull], \<lparr>errs = [user_null_error [PKey ''items'', PIdx 1]], calls = [(''Item'', ''user'')]\<rparr>)"
  using absent_user_nulls_item [of "[(''id'', JStr ''i2''), (''userId'', JStr ''u2''), (''title'', JStr ''T2''), (''content'', JStr ''C2'')]"
      "''u2''" demo_store "''Query''" "''items''" "[Sel ''name'' [] []]" "[PKey ''items'']" 1 "[]" "\<lparr>errs = [], calls = []\<rparr>"]
  by (simp del: exec_unfold add: demo_store_def valid_key_def)

theorem comments_always_null_witness:
  "execute (apollo_server demo_store) [Sel ''items'' [] [Sel ''comments'' [] [Sel ''id'' [] []]]]
     = (RObj [(''items'', RList [RObj [(''comments'', RNull)], RObj [(''comments'', RNull)], RObj [(''comments'', RNull)]])],
        \<lparr>errs = [], calls = [(''Query'', ''items'')]\<rparr>)"
  using comments_always_null [of demo_store "[Sel ''id'' [] []]"]
  by (simp del: exec_unfold add: demo_store_def is_child_def numeral_3_eq_3)

theorem empty_items_response_witness:
  "execute (apollo_server empty_store) [Sel ''items'' [] [Sel ''id'' [] []]]
     = (RObj [(''items'', RList [])], \<lparr>errs = [], calls = [(''Query'', ''items'')]\<rparr>)"
  using empty_items_response [of empty_store "[Sel ''id'' [] []]"]
  by (simp del: exec_unfold add: empty_store_def)

end
