(* ===== verification/Contract.thy ===== *)
theory Contract
  imports Resolvers "HOL-Library.Mapping"
begin

text \<open>
  The contract of the API, stated over an abstract database, and the proof that the
  resolvers of \<^verbatim>\<open>src/apollo/src/index.ts\<close> implement it.
  \<^item> The abstract database is a \<open>Mapping\<close> from document paths to fields
    (\<open>adb_of\<close> abstracts the store's sorted document list); the abstract state
    \<open>astate\<close> adds the availability of the store (which requests fail).
  \<^item> \<open>api_call\<close> names the four resolver calls the executor makes with the keys they
    receive; \<open>api_impl\<close> calls the resolver, \<open>api_request\<close> is the one remote request it
    issues, \<open>api_spec\<close> and \<open>api_fail\<close> are the answers the spec of section 4 gives
    when that request succeeds or fails (\<open>spec_answer\<close>).
  \<^item> \<open>event\<close> sequences interleave external writes through \<^verbatim>\<open>set()\<close>, changes of
    availability and API calls; \<open>run_impl\<close> runs them on the store, \<open>run_spec\<close> on the
    abstract state.  \<open>store_reach\<close> is the set of stores reachable from the empty
    database by such writes and changes.
  \<^item> Lemmas: one call meets the contract on a well-formed store (\<open>api_impl_contract\<close>);
    every reachable store is well formed (\<open>store_reach_wf\<close>, by rule induction); C19,
    the simulation of whole runs; C21, each
    call depends on the store's availability only through its one request.
\<close>

type_synonym adb = "(path, fields) mapping"

definition adb_of :: "fstore \<Rightarrow> adb" where
  "adb_of st = Mapping.of_alist (docs st)"

datatype api_call = ListItems | GetUser string | ItemsOfUser jsval | UserOfItem string

fun api_request :: "api_call \<Rightarrow> request" where
  "api_request ListItems = RunQuery [''items''] []"
| "api_request (GetUser k) = GetDoc [''users'', k]"
| "api_request (ItemsOfUser v) = RunQuery [''items''] [(''userId'', v)]"
| "api_request (UserOfItem k) = GetDoc [''users'', k]"

fun api_ok :: "api_call \<Rightarrow> bool" where
  "api_ok ListItems = True"
| "api_ok (GetUser k) = valid_key k"
| "api_ok (ItemsOfUser v) = fs_value v"
| "api_ok (UserOfItem k) = valid_key k"

fun api_impl :: "fstore \<Rightarrow> api_call \<Rightarrow> (jserr, jsval) result" where
  "api_impl st ListItems = Query_items st"
| "api_impl st (GetUser k) = Query_user st (JObj [(''id'', JStr k)])"
| "api_impl st (ItemsOfUser v) = User_items st (JObj [(''id'', v)])"
| "api_impl st (UserOfItem k) = Item_user st (JObj [(''userId'', JStr k)])"

definition spec_docs :: "adb \<Rightarrow> (fields \<Rightarrow> bool) \<Rightarrow> jsval" where
  "spec_docs db P =
     JArr (map (\<lambda>k. JObj (the (Mapping.lookup db k)))
       (filter (\<lambda>k. is_child [''items''] k \<and> P (the (Mapping.lookup db k))) (Mapping.ordered_keys db)))"

fun api_spec :: "adb \<Rightarrow> api_call \<Rightarrow> jsval" where
  "api_spec db ListItems = spec_docs db (\<lambda>fs. True)"
| "api_spec db (GetUser k) =
     (case Mapping.lookup db [''users'', k] of Some fs \<Rightarrow> JObj fs | None \<Rightarrow> JErr (ValidationError ''User not found.''))"
| "api_spec db (ItemsOfUser v) = spec_docs db (\<lambda>fs. map_of fs ''userId'' = Some v)"
| "api_spec db (UserOfItem k) = (case Mapping.lookup db [''users'', k] of Some fs \<Rightarrow> JObj fs | None \<Rightarrow> JUndefined)"

fun api_fail :: "api_call \<Rightarrow> jserr \<Rightarrow> jserr" where
  "api_fail ListItems e = e"
| "api_fail _ e = ApolloError (error_to_string e)"

record astate =
  adb :: adb
  afault :: "request \<Rightarrow> jserr option"

definition abs_state :: "fstore \<Rightarrow> astate" where
  "abs_state st = \<lparr>adb = adb_of st, afault = fault st\<rparr>"

definition spec_answer :: "astate \<Rightarrow> api_call \<Rightarrow> (jserr, jsval) result" where
  "spec_answer s op =
     (case afault s (api_request op) of None \<Rightarrow> Inr (api_spec (adb s) op) | Some e \<Rightarrow> Inl (api_fail op e))"

datatype event = Write path fields | Outage "request \<Rightarrow> jserr option" | Call api_call

fun run_impl :: "fstore \<Rightarrow> event list \<Rightarrow> (jserr, jsval) result list" where
  "run_impl st [] = []"
| "run_impl st (Write p fs # evs) = (case fs_set st p fs of Inl _ \<Rightarrow> run_impl st evs | Inr st' \<Rightarrow> run_impl st' evs)"
| "run_impl st (Outage f # evs) = run_impl (st\<lparr>fault := f\<rparr>) evs"
| "run_impl st (Call op # evs) = api_impl st op # run_impl st evs"

fun run_spec :: "astate \<Rightarrow> event list \<Rightarrow> (jserr, jsval) result list" where
  "run_spec s [] = []"
| "run_spec s (Write p fs # evs) =
     run_spec (if is_doc_path p \<and> wf_fields fs then s\<lparr>adb := Mapping.update p fs (adb s)\<rparr> else s) evs"
| "run_spec s (Outage f # evs) = run_spec (s\<lparr>afault := f\<rparr>) evs"
| "run_spec s (Call op # evs) = spec_answer s op # run_spec s evs"

fun call_ok :: "event \<Rightarrow> bool" where
  "call_ok (Call op) = api_ok op"
| "call_ok _ = True"

inductive store_reach :: "fstore \<Rightarrow> bool" where
  empty: "store_reach empty_store"
| set_doc: "store_reach st \<Longrightarrow> fs_set st p fs = Inr st' \<Longrightarrow> store_reach st'"
| outage: "store_reach st \<Longrightarrow> store_reach (st\<lparr>fault := f\<rparr>)"

subsection \<open>The abstract database\<close>

lemma ordered_keys_of_alist:
  "strict_keys xs \<Longrightarrow> Mapping.ordered_keys (Mapping.of_alist xs) = map fst xs"
  using sorted_list_of_set_sort_remdups [of "map fst xs"]
  by (simp add: Mapping.ordered_keys_def Mapping.keys_of_alist strict_sorted_iff distinct_remdups_id sorted_sort_id)

lemma spec_docs_of_alist:
  assumes "strict_keys xs"
  shows "spec_docs (Mapping.of_alist xs) P = docs_data (filter (\<lambda>(p, fs). is_child [''items''] p \<and> P fs) xs)"
proof -
  have d: "distinct (map fst xs)" using assms by (simp add: strict_sorted_iff)
  have "\<And>d. d \<in> set xs \<Longrightarrow> map_of xs (fst d) = Some (snd d)"
    using d by (auto intro: map_of_is_SomeI)
  then show ?thesis
    using assms
    by (auto simp: spec_docs_def ordered_keys_of_alist Mapping.lookup_of_alist docs_data_def snapshot_data_def
        filter_map comp_def intro!: map_cong filter_cong split: prod.split)
qed

lemma lookup_adb_of [simp]: "Mapping.lookup (adb_of st) p = map_of (docs st) p"
  by (simp add: adb_of_def Mapping.lookup_of_alist)

lemma spec_docs_adb_of:
  "wf_store st \<Longrightarrow> spec_docs (adb_of st) P = docs_data (filter (\<lambda>(p, fs). is_child [''items''] p \<and> P fs) (docs st))"
  unfolding adb_of_def by (rule spec_docs_of_alist) (simp add: wf_store_def)

lemma filter_matches_userId:
  "filter (\<lambda>(p, fs). is_child [''items''] p \<and> matches [(''userId'', v)] fs) ds
     = filter (\<lambda>(p, fs). is_child [''items''] p \<and> map_of fs ''userId'' = Some v) ds"
  by (simp add: matches_userId)

text \<open>One call: on a well-formed store each resolver call answers what the contract says
  of the abstract state, on both branches of its one remote request.\<close>

lemma api_impl_contract:
  assumes "wf_store st" and "api_ok op"
  shows "api_impl st op = spec_answer (abs_state st) op"
proof (cases op)
  case ListItems
  then show ?thesis
    using spec_docs_adb_of [OF assms(1), of "\<lambda>fs. True"]
    by (simp add: spec_answer_def abs_state_def Query_items_def fs_collection_items query_get_def matches_def
        split: option.split)
next
  case (GetUser k)
  then show ?thesis
    using assms(2) users_key_path [of k]
    by (simp add: spec_answer_def abs_state_def Query_user_def doc_get_def snapshot_data_def apollo_wrap_def
        split: option.split)
next
  case (ItemsOfUser v)
  then show ?thesis
    using assms(2) spec_docs_adb_of [OF assms(1), of "\<lambda>fs. map_of fs ''userId'' = Some v"]
    by (simp add: spec_answer_def abs_state_def User_items_def fs_collection_items fs_where_items query_get_def
        filter_matches_userId apollo_wrap_def split: option.split)
next
  case (UserOfItem k)
  then show ?thesis
    using assms(2) users_key_path [of k]
    by (simp add: spec_answer_def abs_state_def Item_user_def doc_get_def snapshot_data_def apollo_wrap_def
        split: option.split)
qed

lemma abs_state_fault [simp]: "abs_state (st\<lparr>fault := f\<rparr>) = (abs_state st)\<lparr>afault := f\<rparr>"
  by (simp add: abs_state_def adb_of_def)

lemma adb_of_upd_sorted: "Mapping.of_alist (upd_sorted p fs xs) = Mapping.update p fs (Mapping.of_alist xs)"
  by (rule mapping_eqI) (simp add: Mapping.lookup_of_alist map_of_upd_sorted Mapping.lookup_update')

lemma abs_state_fs_set:
  "fs_set st p fs = Inr st' \<Longrightarrow> abs_state st' = (abs_state st)\<lparr>adb := Mapping.update p fs (adb_of st)\<rparr>"
  by (simp add: fs_set_Inr_iff abs_state_def adb_of_def adb_of_upd_sorted)

lemma fs_set_Inl_iff: "(\<exists>e. fs_set st p fs = Inl e) \<longleftrightarrow> \<not> (is_doc_path p \<and> wf_fields fs)"
  by (simp add: fs_set_def)

lemma store_reach_wf: "store_reach st \<Longrightarrow> wf_store st"
proof (induction rule: store_reach.induct)
  case empty
  then show ?case by (simp add: wf_store_def empty_store_def)
next
  case (set_doc st p fs st')
  then show ?case by (blast intro: fs_set_wf)
next
  case (outage st f)
  then show ?case by (simp add: wf_store_def)
qed

text \<open>C19. Simulation: for any sequence of external writes, changes of the store's
  availability and API calls, the answers the resolvers give on a well-formed store are
  the answers of the abstract specification run on the abstract database, where a write
  is \<open>Mapping.update\<close> when \<^verbatim>\<open>set()\<close> accepts it and nothing otherwise.\<close>

theorem run_refines:
  "wf_store st \<Longrightarrow> list_all call_ok evs \<Longrightarrow> run_impl st evs = run_spec (abs_state st) evs"
proof (induction st evs rule: run_impl.induct)
  case (1 st)
  then show ?case by simp
next
  case (2 st p fs evs)
  show ?case
  proof (cases "fs_set st p fs")
    case (Inl e)
    then have "\<not> (is_doc_path p \<and> wf_fields fs)" using fs_set_Inl_iff by blast
    with 2 Inl show ?thesis by auto
  next
    case (Inr st')
    then have "is_doc_path p \<and> wf_fields fs" by (simp add: fs_set_Inr_iff)
    moreover have "wf_store st'" using "2.prems"(1) Inr by (rule fs_set_wf)
    ultimately show ?thesis
      using 2 Inr abs_state_fs_set [OF Inr] by (simp add: abs_state_def)
  qed
next
  case (3 st f evs)
  then show ?case by (simp add: wf_store_def)
next
  case (4 st op evs)
  then show ?case by (simp add: api_impl_contract)
qed

text \<open>C21. Each resolver call makes one remote request: its answer depends on the store's
  availability only through the request \<open>api_request\<close> names, so two stores with the
  same documents that agree on that one request give the same answer.\<close>

theorem one_remote_request:
  assumes "api_ok op" and "docs st' = docs st" and "fault st' (api_request op) = fault st (api_request op)"
  shows "api_impl st' op = api_impl st op"
proof (cases op)
  case ListItems
  with assms show ?thesis by (simp add: Query_items_def fs_collection_items query_get_def split: option.split)
next
  case (GetUser k)
  with assms users_key_path [of k] show ?thesis by (simp add: Query_user_def doc_get_def split: option.split)
next
  case (ItemsOfUser v)
  with assms show ?thesis by (simp add: User_items_def fs_collection_items fs_where_items query_get_def split: option.split)
next
  case (UserOfItem k)
  with assms users_key_path [of k] show ?thesis by (simp add: Item_user_def doc_get_def split: option.split)
qed

subsection \<open>The theorems at concrete inputs\<close>

theorem run_refines_witness:
  "run_impl demo_store [Call (GetUser ''u2''), Write [''users'', ''u2''] [(''id'', JStr ''u2'')],
       Call (GetUser ''u2''), Outage (\<lambda>_. Some (GrpcError 14 ''unreachable'')), Call ListItems]
   = run_spec (abs_state demo_store) [Call (GetUser ''u2''), Write [''users'', ''u2''] [(''id'', JStr ''u2'')],
       Call (GetUser ''u2''), Outage (\<lambda>_. Some (GrpcError 14 ''unreachable'')), Call ListItems]"
  by (rule run_refines) (simp_all add: store_simps demo_store_def)

theorem one_remote_request_witness:
  "api_impl (demo_store\<lparr>fault := \<lambda>r. if r = GetDoc [''users'', ''u1''] then None else Some (GrpcError 14 ''unreachable'')\<rparr>)
      (GetUser ''u1'')
   = api_impl demo_store (GetUser ''u1'')"
  by (rule one_remote_request) (simp_all add: valid_key_def demo_store_def)

end
