(* ===== verification/Conformance.thy ===== *)
theory Conformance
  imports Execution
begin

text \<open>
  Type soundness of the executor: whatever the store holds and whatever the resolvers
  return, the data of a response conforms to the schema and the query.  \<open>conforms\<close>
  says what a value at a position of declared type may be: never \<^verbatim>\<open>null\<close> at a
  non-null type, a list at a list type, a string at a scalar, and at an object type an
  object with exactly the selected fields, in order, each conforming to its declared
  type.  The proof is one induction over the executor (\<open>exec_induct\<close>): a value is
  completed against its declared type, and a field error becomes \<^verbatim>\<open>null\<close> only at a
  nullable position (\<open>handle_error_Inr\<close>).
\<close>

fun conforms :: "type_def list \<Rightarrow> gql_type \<Rightarrow> selection list \<Rightarrow> rval \<Rightarrow> bool"
and conforms_list :: "type_def list \<Rightarrow> gql_type \<Rightarrow> selection list \<Rightarrow> rval list \<Rightarrow> bool"
and fields_conform :: "type_def list \<Rightarrow> string \<Rightarrow> selection list \<Rightarrow> (string \<times> rval) list \<Rightarrow> bool" where
  "conforms tds (NonNull t) subs v = (v \<noteq> RNull \<and> conforms tds t subs v)"
| "conforms tds (ListOf t) subs RNull = True"
| "conforms tds (ListOf t) subs (RList vs) = conforms_list tds t subs vs"
| "conforms tds (ListOf t) subs (RStr s) = False"
| "conforms tds (ListOf t) subs (RObj fs) = False"
| "conforms tds (Named n) subs RNull = True"
| "conforms tds (Named n) subs (RStr s) = (n \<in> set scalar_names)"
| "conforms tds (Named n) subs (RObj fs) = (n \<notin> set scalar_names \<and> fields_conform tds n subs fs)"
| "conforms tds (Named n) subs (RList vs) = False"
| "conforms_list tds t subs [] = True"
| "conforms_list tds t subs (v # vs) = (conforms tds t subs v \<and> conforms_list tds t subs vs)"
| "fields_conform tds n [] [] = True"
| "fields_conform tds n (Sel f a ss # rest) ((k, v) # fs) =
     (k = f \<and> (case field_of tds n f of Some fd \<Rightarrow> conforms tds (fd_type fd) ss v | None \<Rightarrow> False)
      \<and> fields_conform tds n rest fs)"
| "fields_conform tds n [] (_ # _) = False"
| "fields_conform tds n (_ # _) [] = False"

definition response_conforms :: "type_def list \<Rightarrow> selection list \<Rightarrow> rval \<Rightarrow> bool" where
  "response_conforms tds sels v =
     (case v of RNull \<Rightarrow> True | RObj fs \<Rightarrow> fields_conform tds ''Query'' sels fs | _ \<Rightarrow> False)"

lemma conforms_RNull: "conforms tds ty subs RNull \<longleftrightarrow> (\<forall>t. ty \<noteq> NonNull t)"
  by (cases ty) simp_all

lemma handle_error_Inr: "fst (handle_error ty e s) = Inr r \<Longrightarrow> r = RNull \<and> (\<forall>t. ty \<noteq> NonNull t)"
  by (cases ty) (auto simp: handle_error_def)

lemma handle_error_Inr_pair: "handle_error ty e s = (Inr r, s') \<Longrightarrow> r = RNull \<and> (\<forall>t. ty \<noteq> NonNull t)"
  using handle_error_Inr [of ty e s r] by simp

lemma serialize_scalar_Inr: "serialize_scalar n x = Inr r \<Longrightarrow> \<exists>s. r = RStr s"
  by (auto simp: serialize_scalar_def split: if_splits jsval.splits)

lemma complete_ListOf_other:
  "\<not> is_err x \<Longrightarrow> \<not> is_nullish x \<Longrightarrow> (\<forall>xs. x \<noteq> JArr xs) \<Longrightarrow> fst (complete en t f (ListOf ty) subs p x s) \<noteq> Inr r"
  by (subst complete.simps) (cases x; simp add: is_err_def)

lemma complete_conforms_step:
  assumes obj: "\<And>n fs. \<not> is_err x \<Longrightarrow> ty = Named n \<Longrightarrow> \<not> is_nullish x \<Longrightarrow> n \<notin> set scalar_names \<Longrightarrow>
      fst (exec_sels en n x p subs s) = Inr fs \<Longrightarrow> fields_conform (e_schema en) n subs fs"
    and nn: "\<And>ty' r. \<not> is_err x \<Longrightarrow> ty = NonNull ty' \<Longrightarrow> fst (complete en t f ty' subs p x s) = Inr r \<Longrightarrow>
      conforms (e_schema en) ty' subs r"
    and lst: "\<And>ty' xs rs. \<not> is_err x \<Longrightarrow> ty = ListOf ty' \<Longrightarrow> \<not> is_nullish x \<Longrightarrow> x = JArr xs \<Longrightarrow>
      fst (complete_list en t f ty' subs p 0 xs s) = Inr rs \<Longrightarrow> conforms_list (e_schema en) ty' subs rs"
    and r: "fst (complete en t f ty subs p x s) = Inr r"
  shows "conforms (e_schema en) ty subs r"
proof (cases "is_err x")
  case True
  then obtain e where "x = JErr e" by (cases x) (simp_all add: is_err_def)
  with r show ?thesis by simp
next
  case ne: False
  show ?thesis
  proof (cases ty)
    case (NonNull ty')
    with r ne nn show ?thesis
      by (auto simp: complete_NonNull split: prod.splits sum.splits rval.splits)
  next
    case (ListOf ty')
    show ?thesis
    proof (cases "is_nullish x")
      case True
      with r ListOf show ?thesis by (simp add: complete_nullish)
    next
      case nl: False
      show ?thesis
      proof (cases "\<exists>xs. x = JArr xs")
        case True
        then obtain xs where "x = JArr xs" by blast
        with r ne nl ListOf lst show ?thesis
          by (auto simp: complete_ListOf split: prod.splits sum.splits)
      next
        case False
        with r ne nl ListOf complete_ListOf_other show ?thesis by blast
      qed
    qed
  next
    case (Named n)
    show ?thesis
    proof (cases "is_nullish x")
      case True
      with r Named show ?thesis by (simp add: complete_nullish)
    next
      case nl: False
      show ?thesis
      proof (cases "n \<in> set scalar_names")
        case True
        with r ne nl Named show ?thesis
          by (auto simp: complete_scalar dest: serialize_scalar_Inr split: sum.splits)
      next
        case False
        with r ne nl Named obj show ?thesis
          by (auto simp: complete_object split: prod.splits sum.splits)
      qed
    qed
  qed
qed

lemma exec_conforms:
  "fst (exec_sels en t v p sels s) = Inr fs \<Longrightarrow> fields_conform (e_schema en) t sels fs"
  "fst (exec_field en t v p sel s) = Inr r \<Longrightarrow>
     (case sel of Sel f a ss \<Rightarrow>
        (case field_of (e_schema en) t f of Some fd \<Rightarrow> conforms (e_schema en) (fd_type fd) ss r | None \<Rightarrow> False))"
  "fst (complete en t f ty subs p x s) = Inr r \<Longrightarrow> conforms (e_schema en) ty subs r"
  "fst (complete_list en t f ty subs p i xs s) = Inr rs \<Longrightarrow> conforms_list (e_schema en) ty subs rs"
proof (induction en t v p sels s and en t v p sel s and en t f ty subs p x s and en t f ty subs p i xs s
    arbitrary: fs and r and r and rs rule: exec_induct)
  case (1 en t v p s)
  then show ?case by simp
next
  case (2 en t v p f a subs rest s)
  then show ?case by (auto split: prod.splits sum.splits)
next
  case (3 en t v p f a subs s)
  show ?case
  proof (cases "field_of (e_schema en) t f")
    case None
    with "3.prems" show ?thesis by simp
  next
    case (Some fd)
    obtain x s1 where rs: "resolve en t f v (JObj a) s = (x, s1)" by fastforce
    show ?thesis
    proof (cases x)
      case (Inl err)
      with "3.prems" Some rs show ?thesis by (auto simp: conforms_RNull dest: handle_error_Inr)
    next
      case (Inr b)
      obtain y s2 where c: "complete en t f (fd_type fd) subs (p @ [PKey f]) b s1 = (y, s2)" by fastforce
      have "\<And>r. fst (complete en t f (fd_type fd) subs (p @ [PKey f]) b s1) = Inr r \<Longrightarrow>
              conforms (e_schema en) (fd_type fd) subs r"
        using "3.IH" [OF Some rs [symmetric] Inr] .
      with "3.prems" Some rs Inr c show ?thesis
        by (cases y) (auto simp: conforms_RNull dest: handle_error_Inr)
    qed
  qed
next
  case (4 en t f ty subs p x s)
  then show ?case by - (rule complete_conforms_step, assumption+)
next
  case (5 en t f ty subs p i s)
  then show ?case by simp
next
  case (6 en t f ty subs p i x xs s)
  then show ?case
    by (auto simp: conforms_RNull dest!: handle_error_Inr_pair split: prod.splits sum.splits)
qed

lemma fields_conform_Nil: "fields_conform tds n [] fs \<longleftrightarrow> fs = []"
  by (cases fs) simp_all

lemma fields_conform_Cons:
  "fields_conform tds n (Sel f a ss # rest) fs \<longleftrightarrow>
     (\<exists>v fs'. fs = (f, v) # fs' \<and> (case field_of tds n f of Some fd \<Rightarrow> conforms tds (fd_type fd) ss v | None \<Rightarrow> False)
        \<and> fields_conform tds n rest fs')"
  by (cases fs) auto

lemma conforms_Named_scalar:
  "n \<in> set scalar_names \<Longrightarrow> conforms tds (Named n) ss v \<longleftrightarrow> v = RNull \<or> (\<exists>s. v = RStr s)"
  by (cases v) simp_all

text \<open>Every response the server gives conforms to the schema: for every store and
  every query, the data is \<^verbatim>\<open>null\<close> or an object of the selected \<^verbatim>\<open>Query\<close> fields
  whose values have their declared types, with no \<^verbatim>\<open>null\<close> at a non-null position.\<close>

theorem execute_conforms: "response_conforms typeDefs sels (fst (execute (apollo_server st) sels))"
  using exec_conforms(1) [of "apollo_server st" "''Query''" JUndefined "[]" sels init_xst]
  by (auto simp del: exec_sels.simps simp: execute_def response_conforms_def split: prod.split sum.split)

end
