(* ===== verification/Startup.thy ===== *)
theory Startup
  imports Execution
begin

text \<open>
  Module start-up, lines 4--8 of \<^verbatim>\<open>src/apollo/src/index.ts\<close>, and the store client the
  resolvers obtain with \<^verbatim>\<open>firebaseAdmin.firestore()\<close> (lines 44, 59, 72, 81).
  \<^item> \<open>module_start\<close> is \<^verbatim>\<open>require('../service-account.json')\<close> followed by
    \<^verbatim>\<open>firebaseAdmin.initializeApp({ credential: firebaseAdmin.credential.cert(serviceAccount) })\<close>,
    run once when the module is loaded, with no app registered yet.  The file is given as
    its parsed JSON value, \<open>None\<close> when it does not exist.
  \<^item> The Firebase Admin library is not code of this repository; it is modelled from its
    documented behaviour.  \<open>fb_cert\<close> is the service-account check of \<^verbatim>\<open>cert()\<close>: the
    value must be a (non-array) object whose project id, private key and client email,
    each read as \<^verbatim>\<open>json.camelCase || json.snake_case\<close> (\<open>sa_attr\<close>), are non-empty
    strings, checked in that order, and the key must parse as PEM (the parser is the
    parameter \<open>pem_ok\<close>).  \<open>fb_initialize_app\<close> registers the default app for the
    credential's project and fails if one exists.  \<open>fb_firestore\<close> is
    \<^verbatim>\<open>firestore()\<close> on the default app: it fails when there is none, creates the client
    of the project's database (\<open>dbs\<close>) on its first call and caches it in the app
    (\<open>app_db\<close>): the single lazily initialised handle of the program.  Messages are
    abbreviated to their first sentence.
  \<^item> \<open>fb_calls\<close> is a sequence of \<^verbatim>\<open>firestore()\<close> calls, one per resolver call.
  C22 shows which errors a start can end in.  \<open>store_handle_shared\<close> shows that after
  a successful start every \<^verbatim>\<open>firestore()\<close> call returns the same client of the
  project's database; this is the library's caching, and it is why the other theories
  take the store as a parameter \<open>st\<close> of every resolver.
\<close>

type_synonym fb_credential = "string \<times> string"

record fb_app =
  app_project :: string
  app_db :: "fstore option"

type_synonym fb_admin = "fb_app option"

definition sa_attr :: "(string \<times> jsval) list \<Rightarrow> string \<Rightarrow> string \<Rightarrow> string option" where
  "sa_attr fs camel snake =
     (let prop = (\<lambda>k. case map_of fs k of Some v \<Rightarrow> v | None \<Rightarrow> JUndefined)
      in case js_or (prop camel) (prop snake) of
           JStr s \<Rightarrow> if s = [] then None else Some s
         | _ \<Rightarrow> None)"

definition sa_missing :: "string \<Rightarrow> jserr" where
  "sa_missing k = JsError (''Service account object must contain a string '' @ [CHR 0x22] @ k @ [CHR 0x22] @ '' property.'')"

definition fb_cert :: "(string \<Rightarrow> bool) \<Rightarrow> jsval \<Rightarrow> (jserr, fb_credential) result" where
  "fb_cert pem_ok sa =
     (case sa of
        JObj fs \<Rightarrow>
          (case sa_attr fs ''projectId'' ''project_id'' of
             None \<Rightarrow> Inl (sa_missing ''project_id'')
           | Some pid \<Rightarrow>
               (case sa_attr fs ''privateKey'' ''private_key'' of
                  None \<Rightarrow> Inl (sa_missing ''private_key'')
                | Some key \<Rightarrow>
                    (case sa_attr fs ''clientEmail'' ''client_email'' of
                       None \<Rightarrow> Inl (sa_missing ''client_email'')
                     | Some email \<Rightarrow>
                         if pem_ok key then Inr (pid, email)
                         else Inl (JsError ''Failed to parse private key.''))))
      | _ \<Rightarrow> Inl (JsError ''Service account must be an object.''))"

definition fb_initialize_app :: "fb_credential \<Rightarrow> fb_admin \<Rightarrow> (jserr, fb_admin) result" where
  "fb_initialize_app cred adm =
     (case adm of
        Some _ \<Rightarrow> Inl (JsError ''The default Firebase app already exists.'')
      | None \<Rightarrow> Inr (Some \<lparr>app_project = fst cred, app_db = None\<rparr>))"

definition fb_firestore :: "(string \<Rightarrow> fstore) \<Rightarrow> fb_admin \<Rightarrow> (jserr, fstore) result \<times> fb_admin" where
  "fb_firestore dbs adm =
     (case adm of
        None \<Rightarrow> (Inl (JsError ''The default Firebase app does not exist.''), None)
      | Some app \<Rightarrow>
          (case app_db app of
             Some st \<Rightarrow> (Inr st, adm)
           | None \<Rightarrow> (let st = dbs (app_project app) in (Inr st, Some (app\<lparr>app_db := Some st\<rparr>)))))"

definition module_start :: "(string \<Rightarrow> bool) \<Rightarrow> jsval option \<Rightarrow> (jserr, fb_admin) result" where
  "module_start pem_ok file =
     sbind (case file of
              None \<Rightarrow> Inl (JsError (''Cannot find module '' @ [CHR 0x27] @ ''../service-account.json'' @ [CHR 0x27]))
            | Some serviceAccount \<Rightarrow> Inr serviceAccount) (\<lambda>serviceAccount.
     sbind (fb_cert pem_ok serviceAccount) (\<lambda>credential.
     fb_initialize_app credential None))"

fun fb_calls :: "(string \<Rightarrow> fstore) \<Rightarrow> fb_admin \<Rightarrow> nat \<Rightarrow> (jserr, fstore) result list \<times> fb_admin" where
  "fb_calls dbs adm 0 = ([], adm)"
| "fb_calls dbs adm (Suc n) =
     (let (r, adm1) = fb_firestore dbs adm; (rs, adm2) = fb_calls dbs adm1 n in (r # rs, adm2))"

definition demo_sa :: jsval where
  "demo_sa = JObj [(''project_id'', JStr ''betlogan''), (''private_key'', JStr ''KEY''),
                   (''client_email'', JStr ''api@betlogan'')]"

lemma fb_calls_cached:
  "app_db app = Some st \<Longrightarrow> fb_calls dbs (Some app) n = (replicate n (Inr st), Some app)"
  by (induction n) (simp_all add: fb_firestore_def)

lemma fb_initialize_app_None: "fb_initialize_app cred None = Inr (Some \<lparr>app_project = fst cred, app_db = None\<rparr>)"
  by (simp add: fb_initialize_app_def)

lemma module_start_Inr:
  "module_start pem_ok file = Inr adm \<longleftrightarrow>
     (\<exists>sa pid email. file = Some sa \<and> fb_cert pem_ok sa = Inr (pid, email)
        \<and> adm = Some \<lparr>app_project = pid, app_db = None\<rparr>)"
  by (auto simp: module_start_def fb_initialize_app_None sbind_eq_Inr_iff split: option.splits)


lemma demo_cert: "fb_cert (\<lambda>k. k = ''KEY'') demo_sa = Inr (''betlogan'', ''api@betlogan'')"
  by (simp add: fb_cert_def demo_sa_def sa_attr_def js_or_def)

lemma demo_start: "module_start (\<lambda>k. k = ''KEY'') (Some demo_sa) = Inr (Some \<lparr>app_project = ''betlogan'', app_db = None\<rparr>)"
  by (simp add: module_start_def demo_cert fb_initialize_app_def)

text \<open>The store client is initialised once and read-only afterwards: after a
  successful start, any number of \<^verbatim>\<open>firestore()\<close> calls all return the client of the
  database of the service account's project, and from the first call on the app state
  no longer changes.\<close>

theorem store_handle_shared:
  assumes "module_start pem_ok file = Inr adm"
  shows "\<exists>sa pid email. file = Some sa \<and> fb_cert pem_ok sa = Inr (pid, email)
           \<and> fst (fb_calls dbs adm n) = replicate n (Inr (dbs pid))
           \<and> (0 < n \<longrightarrow> snd (fb_calls dbs adm n) = Some \<lparr>app_project = pid, app_db = Some (dbs pid)\<rparr>)"
proof -
  obtain sa pid email where sa: "file = Some sa" "fb_cert pem_ok sa = Inr (pid, email)"
    and adm: "adm = Some \<lparr>app_project = pid, app_db = None\<rparr>"
    using assms module_start_Inr by blast
  have "fst (fb_calls dbs adm n) = replicate n (Inr (dbs pid))
        \<and> (0 < n \<longrightarrow> snd (fb_calls dbs adm n) = Some \<lparr>app_project = pid, app_db = Some (dbs pid)\<rparr>)"
    using adm by (cases n) (simp_all add: fb_firestore_def Let_def fb_calls_cached)
  with sa show ?thesis by blast
qed

theorem store_handle_shared_witness:
  "module_start (\<lambda>k. k = ''KEY'') (Some demo_sa) = Inr (Some \<lparr>app_project = ''betlogan'', app_db = None\<rparr>)
   \<and> fst (fb_calls (\<lambda>p. demo_store) (Some \<lparr>app_project = ''betlogan'', app_db = None\<rparr>) 3)
       = replicate 3 (Inr demo_store)"
  using store_handle_shared [OF demo_start, where dbs = "\<lambda>p. demo_store" and n = 3] demo_start by auto



end
