(* ===== verification/Promises.thy ===== *)
theory Promises
  imports Execution
begin

text \<open>
  The concurrent execution graphql-js performs for every request, with the promises of
  sibling fields running at the same time.  graphql-js's \<^verbatim>\<open>executeFields\<close> calls the
  resolver of every field of an object in selection order before any promise settles; a
  field whose completion throws synchronously (a default resolver's value that is
  \<^verbatim>\<open>null\<close> at a non-null type, say) aborts the loop; otherwise the object waits for all its
  fields with \<^verbatim>\<open>Promise.all\<close>, which rejects at the first rejection and leaves the other
  fields running.  The four resolvers of \<^verbatim>\<open>src/apollo/src/index.ts\<close> are \<^verbatim>\<open>async\<close>
  functions, so each returns a promise; every default resolver is synchronous.
  \<^item> Time is a natural number; a latency \<open>L\<close> gives, for the path of every resolver call,
    the time its promise takes to settle.  Quantifying over \<open>L\<close> covers every order in
    which the remote reads can complete; promises settling at the same time are taken
    in program order.
  \<^item> \<open>texec_sels\<close>, \<open>texec_field\<close>, \<open>tcomplete\<close>, \<open>tcomplete_list\<close> follow
    \<^verbatim>\<open>executeFields\<close>, \<^verbatim>\<open>executeField\<close>, \<^verbatim>\<open>completeValue\<close> and
    \<^verbatim>\<open>completeListValue\<close>.  Each returns its result, \<open>None\<close> when it settled
    synchronously or \<open>Some t\<close> when its promise settles at time \<open>t\<close>, and the state
    \<open>tst\<close>: the errors recorded by \<^verbatim>\<open>handleFieldError\<close> (\<open>thandle\<close>, \<open>thandle_out\<close>)
    and the resolver calls, each with its time, in program order.  \<open>pall\<close> is
    \<^verbatim>\<open>Promise.all\<close> of a field and the rest of its siblings; \<open>tjoin\<close> adds the
    synchronous abort.  The branches of a failed object go on running: their calls and
    errors are in the log with their times.
  \<^item> \<open>texecute\<close> gives the response: the data, the errors recorded up to the time the
    response settles (later ones come after it is built and sent), and the timed log.
  \<^item> The derived rule \<open>texec_induct\<close> has one hypothesis per recursive call;
    \<open>value_cases\<close> splits a completion by value and declared type; the evaluation
    lemmas unfold \<open>tcomplete\<close> one declared type at a time.
\<close>

type_synonym latency = "pseg list \<Rightarrow> nat"

record tst =
  terrs :: "(nat \<times> gql_error) list"
  tcalls :: "(nat \<times> (string \<times> string)) list"

definition init_tst :: tst where
  "init_tst = \<lparr>terrs = [], tcalls = []\<rparr>"

definition settle_time :: "nat \<Rightarrow> nat option \<Rightarrow> nat" where
  "settle_time t0 m = (case m of None \<Rightarrow> t0 | Some t \<Rightarrow> t)"

definition pall :: "nat \<Rightarrow> ('e, 'a) result \<times> nat option \<Rightarrow> ('e, 'a list) result \<times> nat option \<Rightarrow>
    ('e, 'a list) result \<times> nat option" where
  "pall t0 x xs =
     (let a1 = settle_time t0 (snd x); a2 = settle_time t0 (snd xs)
      in case (fst x, fst xs) of
           (Inl e1, Inl e2) \<Rightarrow> (if a1 \<le> a2 then (Inl e1, Some a1) else (Inl e2, Some a2))
         | (Inl e1, Inr _) \<Rightarrow> (Inl e1, Some a1)
         | (Inr _, Inl e2) \<Rightarrow> (Inl e2, Some a2)
         | (Inr r, Inr rs) \<Rightarrow> (Inr (r # rs), if snd x = None \<and> snd xs = None then None else Some (max a1 a2)))"

definition thandle :: "gql_type \<Rightarrow> gql_error \<Rightarrow> nat \<Rightarrow> tst \<Rightarrow> (gql_error, rval) result \<times> tst" where
  "thandle ty e tm s =
     (case ty of NonNull _ \<Rightarrow> (Inl e, s) | _ \<Rightarrow> (Inr RNull, s\<lparr>terrs := terrs s @ [(tm, e)]\<rparr>))"

definition thandle_out :: "gql_type \<Rightarrow> nat \<Rightarrow> (gql_error, rval) result \<times> nat option \<times> tst \<Rightarrow>
    (gql_error, rval) result \<times> nat option \<times> tst" where
  "thandle_out ty t0 c =
     (case c of
        (Inl e, m, s) \<Rightarrow> (case thandle ty e (settle_time t0 m) s of (r, s') \<Rightarrow> (r, m, s'))
      | _ \<Rightarrow> c)"

definition as_async :: "nat \<Rightarrow> 'r \<times> nat option \<times> tst \<Rightarrow> 'r \<times> nat option \<times> tst" where
  "as_async t1 c = (case c of (r, m, s) \<Rightarrow> (r, Some (settle_time t1 m), s))"

function (sequential) texec_sels ::
    "latency \<Rightarrow> env \<Rightarrow> string \<Rightarrow> jsval \<Rightarrow> pseg list \<Rightarrow> selection list \<Rightarrow> nat \<Rightarrow> tst \<Rightarrow>
       (gql_error, (string \<times> rval) list) result \<times> nat option \<times> tst"
and texec_field ::
    "latency \<Rightarrow> env \<Rightarrow> string \<Rightarrow> jsval \<Rightarrow> pseg list \<Rightarrow> selection \<Rightarrow> nat \<Rightarrow> tst \<Rightarrow>
       (gql_error, rval) result \<times> nat option \<times> tst"
and tcomplete ::
    "latency \<Rightarrow> env \<Rightarrow> string \<Rightarrow> string \<Rightarrow> gql_type \<Rightarrow> selection list \<Rightarrow> pseg list \<Rightarrow> jsval \<Rightarrow> nat \<Rightarrow> tst \<Rightarrow>
       (gql_error, rval) result \<times> nat option \<times> tst"
and tcomplete_list ::
    "latency \<Rightarrow> env \<Rightarrow> string \<Rightarrow> string \<Rightarrow> gql_type \<Rightarrow> selection list \<Rightarrow> pseg list \<Rightarrow> nat \<Rightarrow> jsval list \<Rightarrow> nat \<Rightarrow> tst \<Rightarrow>
       (gql_error, rval list) result \<times> nat option \<times> tst"
where
  "texec_sels L en t v p [] t0 s = (Inr [], None, s)"
| "texec_sels L en t v p (Sel f a subs # rest) t0 s =
     (case texec_field L en t v p (Sel f a subs) t0 s of
        (Inl e, None, s1) \<Rightarrow> (Inl e, None, s1)
      | (r1, m1, s1) \<Rightarrow>
          (case texec_sels L en t v p rest t0 s1 of
             (Inl e, None, s2) \<Rightarrow> (Inl e, None, s2)
           | (rs, ms, s2) \<Rightarrow> (case pall t0 (map_sum id (Pair f) r1, m1) (rs, ms) of (r, m) \<Rightarrow> (r, m, s2))))"
| "texec_field L en t v p (Sel f a subs) t0 s =
     (case field_of (e_schema en) t f of
        None \<Rightarrow> (Inl \<lparr>emsg = ''Cannot query field '' @ f @ '' on type '' @ t @ ''.'', epath = p @ [PKey f]\<rparr>, None, s)
      | Some fd \<Rightarrow>
          (case lookup_resolver en t f of
             Some r \<Rightarrow>
               (let t1 = t0 + L (p @ [PKey f]); s1 = s\<lparr>tcalls := tcalls s @ [(t0, (t, f))]\<rparr>
                in as_async t1 (thandle_out (fd_type fd) t1
                     (case r (e_store en) v (JObj a) of
                        Inl err \<Rightarrow> (Inl \<lparr>emsg = error_message err, epath = p @ [PKey f]\<rparr>, None, s1)
                      | Inr x \<Rightarrow> tcomplete L en t f (fd_type fd) subs (p @ [PKey f]) x t1 s1)))
           | None \<Rightarrow>
               thandle_out (fd_type fd) t0 (tcomplete L en t f (fd_type fd) subs (p @ [PKey f]) (default_resolver v f) t0 s)))"
| "tcomplete L en t f ty subs p x t0 s =
     (case x of
        JErr err \<Rightarrow> (Inl \<lparr>emsg = error_message err, epath = p\<rparr>, None, s)
      | _ \<Rightarrow>
        (case ty of
           NonNull ty' \<Rightarrow>
             (case tcomplete L en t f ty' subs p x t0 s of
                (Inr RNull, None, s1) \<Rightarrow>
                  (Inl \<lparr>emsg = ''Cannot return null for non-nullable field '' @ t @ ''.'' @ f @ ''.'', epath = p\<rparr>, None, s1)
              | r \<Rightarrow> r)
         | ListOf ty' \<Rightarrow>
             (if is_nullish x then (Inr RNull, None, s)
              else case x of
                JArr xs \<Rightarrow>
                  (case tcomplete_list L en t f ty' subs p 0 xs t0 s of
                     (Inl e, m, s1) \<Rightarrow> (Inl e, m, s1)
                   | (Inr rs, m, s1) \<Rightarrow> (Inr (RList rs), m, s1))
              | _ \<Rightarrow> (Inl \<lparr>emsg = ''Expected Iterable, but did not find one for field '' @ [CHR 0x22] @ t @ ''.'' @ f @ [CHR 0x22] @ ''.'', epath = p\<rparr>, None, s))
         | Named n \<Rightarrow>
             (if is_nullish x then (Inr RNull, None, s)
              else if n \<in> set scalar_names then
                (case serialize_scalar n x of
                   Inl m \<Rightarrow> (Inl \<lparr>emsg = m, epath = p\<rparr>, None, s)
                 | Inr r \<Rightarrow> (Inr r, None, s))
              else
                (case texec_sels L en n x p subs t0 s of
                   (Inl e, m, s1) \<Rightarrow> (Inl e, m, s1)
                 | (Inr fs, m, s1) \<Rightarrow> (Inr (RObj fs), m, s1)))))"
| "tcomplete_list L en t f ty subs p i [] t0 s = (Inr [], None, s)"
| "tcomplete_list L en t f ty subs p i (x # xs) t0 s =
     (case thandle_out ty t0 (tcomplete L en t f ty subs (p @ [PIdx i]) x t0 s) of
        (Inl e, None, s1) \<Rightarrow> (Inl e, None, s1)
      | (r1, m1, s1) \<Rightarrow>
          (case tcomplete_list L en t f ty subs p (Suc i) xs t0 s1 of
             (Inl e, None, s2) \<Rightarrow> (Inl e, None, s2)
           | (rs, ms, s2) \<Rightarrow> (case pall t0 (r1, m1) (rs, ms) of (r, m) \<Rightarrow> (r, m, s2))))"
  by pat_completeness auto
termination
  by (relation "measures
        [\<lambda>x. case x of Inl (Inl (L, en, t, v, p, sels, t0, s)) \<Rightarrow> size_list size sels
                   | Inl (Inr (L, en, t, v, p, sel, t0, s)) \<Rightarrow> size sel
                   | Inr (Inl (L, en, t, f, ty, subs, p, x, t0, s)) \<Rightarrow> size_list size subs
                   | Inr (Inr (L, en, t, f, ty, subs, p, i, xs, t0, s)) \<Rightarrow> size_list size subs,
         \<lambda>x. case x of Inl _ \<Rightarrow> 0
                   | Inr (Inl (L, en, t, f, ty, subs, p, x, t0, s)) \<Rightarrow> tsize ty
                   | Inr (Inr (L, en, t, f, ty, subs, p, i, xs, t0, s)) \<Rightarrow> tsize ty,
         \<lambda>x. case x of Inl _ \<Rightarrow> 0
                   | Inr (Inl (L, en, t, f, ty, subs, p, x, t0, s)) \<Rightarrow> size x
                   | Inr (Inr (L, en, t, f, ty, subs, p, i, xs, t0, s)) \<Rightarrow> size_list size xs]") auto


definition texecute :: "latency \<Rightarrow> env \<Rightarrow> selection list \<Rightarrow> rval \<times> gql_error list \<times> tst" where
  "texecute L en sels =
     (case texec_sels L en ''Query'' JUndefined [] sels 0 init_tst of
        (r, m, s) \<Rightarrow>
          (let T = settle_time 0 m;
               s' = (case r of Inl e \<Rightarrow> s\<lparr>terrs := terrs s @ [(T, e)]\<rparr> | Inr _ \<Rightarrow> s)
           in (case r of Inl _ \<Rightarrow> RNull | Inr fs \<Rightarrow> RObj fs,
               map snd (sort_key fst (filter (\<lambda>te. fst te \<le> T) (terrs s'))), s')))"

definition tjoin :: "nat \<Rightarrow> ('a \<Rightarrow> 'b) \<Rightarrow> ('e, 'a) result \<times> nat option \<times> tst \<Rightarrow>
    ('e, 'b list) result \<times> nat option \<times> tst \<Rightarrow> ('e, 'b list) result \<times> nat option \<times> tst" where
  "tjoin t0 g c1 c2 =
     (case c1 of
        (Inl e, None, w1) \<Rightarrow> (Inl e, None, w1)
      | (a1, b1, w1) \<Rightarrow>
          (case c2 of
             (Inl e, None, w2) \<Rightarrow> (Inl e, None, w2)
           | (a2, b2, w2) \<Rightarrow> (case pall t0 (map_sum id g a1, b1) (a2, b2) of (r, m) \<Rightarrow> (r, m, w2))))"

declare tcomplete.simps [simp del]

lemma texec_induct:
  assumes sels_Nil: "\<And>L en t v p t0 s. P L en t v p [] t0 s"
    and sels_Cons: "\<And>L en t v p f a subs rest t0 s. Q L en t v p (Sel f a subs) t0 s \<Longrightarrow>
      (\<And>r1 m1 s1. texec_field L en t v p (Sel f a subs) t0 s = (r1, m1, s1) \<Longrightarrow> \<not> (isl r1 \<and> m1 = None) \<Longrightarrow>
         P L en t v p rest t0 s1) \<Longrightarrow>
      P L en t v p (Sel f a subs # rest) t0 s"
    and field: "\<And>L en t v p f a subs t0 s.
      (\<And>fd. field_of (e_schema en) t f = Some fd \<Longrightarrow> lookup_resolver en t f = None \<Longrightarrow>
         R L en t f (fd_type fd) subs (p @ [PKey f]) (default_resolver v f) t0 s) \<Longrightarrow>
      (\<And>fd r x. field_of (e_schema en) t f = Some fd \<Longrightarrow> lookup_resolver en t f = Some r \<Longrightarrow>
         r (e_store en) v (JObj a) = Inr x \<Longrightarrow>
         R L en t f (fd_type fd) subs (p @ [PKey f]) x (t0 + L (p @ [PKey f])) (s\<lparr>tcalls := tcalls s @ [(t0, (t, f))]\<rparr>)) \<Longrightarrow>
      Q L en t v p (Sel f a subs) t0 s"
    and compl: "\<And>L en t f ty subs p x t0 s.
      (\<And>n. \<not> is_err x \<Longrightarrow> ty = Named n \<Longrightarrow> \<not> is_nullish x \<Longrightarrow> n \<notin> set scalar_names \<Longrightarrow> P L en n x p subs t0 s) \<Longrightarrow>
      (\<And>ty'. \<not> is_err x \<Longrightarrow> ty = NonNull ty' \<Longrightarrow> R L en t f ty' subs p x t0 s) \<Longrightarrow>
      (\<And>ty' xs. \<not> is_err x \<Longrightarrow> ty = ListOf ty' \<Longrightarrow> \<not> is_nullish x \<Longrightarrow> x = JArr xs \<Longrightarrow> S L en t f ty' subs p 0 xs t0 s) \<Longrightarrow>
      R L en t f ty subs p x t0 s"
    and list_Nil: "\<And>L en t f ty subs p i t0 s. S L en t f ty subs p i [] t0 s"
    and list_Cons: "\<And>L en t f ty subs p i x xs t0 s. R L en t f ty subs (p @ [PIdx i]) x t0 s \<Longrightarrow>
      (\<And>r1 m1 s1. thandle_out ty t0 (tcomplete L en t f ty subs (p @ [PIdx i]) x t0 s) = (r1, m1, s1) \<Longrightarrow>
         \<not> (isl r1 \<and> m1 = None) \<Longrightarrow> S L en t f ty subs p (Suc i) xs t0 s1) \<Longrightarrow>
      S L en t f ty subs p i (x # xs) t0 s"
  shows "P L1 en1 t1 v1 p1 sels u1 s1" "Q L2 en2 t2 v2 p2 sel u2 s2" "R L3 en3 t3 f3 ty3 subs3 p3 x3 u3 s3"
    "S L4 en4 t4 f4 ty4 subs4 p4 i4 xs4 u4 s4"
proof (induction L1 en1 t1 v1 p1 sels u1 s1 and L2 en2 t2 v2 p2 sel u2 s2 and L3 en3 t3 f3 ty3 subs3 p3 x3 u3 s3
    and L4 en4 t4 f4 ty4 subs4 p4 i4 xs4 u4 s4 rule: texec_sels_texec_field_tcomplete_tcomplete_list.induct)
  case (1 L en t v p t0 s)
  then show ?case by (rule sels_Nil)
next
  case (2 L en t v p f a subs rest t0 s)
  show ?case
  proof (rule sels_Cons [OF "2.IH"(1)])
    fix r1 m1 s1 assume eq: "texec_field L en t v p (Sel f a subs) t0 s = (r1, m1, s1)" and ns: "\<not> (isl r1 \<and> m1 = None)"
    show "P L en t v p rest t0 s1"
    proof (cases r1)
      case (Inl e)
      with ns obtain u where u: "m1 = Some u" by (cases m1) auto
      show ?thesis by (rule "2.IH"(2) [OF eq [symmetric] Inl refl u])
    next
      case (Inr b)
      show ?thesis by (rule "2.IH"(3) [OF eq [symmetric] Inr refl])
    qed
  qed
next
  case (3 L en t v p f a subs t0 s)
  then show ?case by (intro field) blast+
next
  case (4 L en t f ty subs p x t0 s)
  show ?case
  proof (rule compl)
    fix n assume "\<not> is_err x" "ty = Named n" "\<not> is_nullish x" "n \<notin> set scalar_names"
    with 4 show "P L en n x p subs t0 s" by (cases x) (simp_all add: is_err_def)
  next
    fix ty' assume "\<not> is_err x" "ty = NonNull ty'"
    with 4 show "R L en t f ty' subs p x t0 s" by (cases x) (simp_all add: is_err_def)
  next
    fix ty' xs assume "\<not> is_err x" "ty = ListOf ty'" "\<not> is_nullish x" "x = JArr xs"
    with 4 show "S L en t f ty' subs p 0 xs t0 s" by simp
  qed
next
  case (5 L en t f ty subs p i t0 s)
  then show ?case by (rule list_Nil)
next
  case (6 L en t f ty subs p i x xs t0 s)
  show ?case
  proof (rule list_Cons [OF "6.IH"(1)])
    fix r1 m1 s1 assume eq: "thandle_out ty t0 (tcomplete L en t f ty subs (p @ [PIdx i]) x t0 s) = (r1, m1, s1)"
      and ns: "\<not> (isl r1 \<and> m1 = None)"
    show "S L en t f ty subs p (Suc i) xs t0 s1"
    proof (cases r1)
      case (Inl e)
      with ns obtain u where u: "m1 = Some u" by (cases m1) auto
      show ?thesis by (rule "6.IH"(2) [OF eq [symmetric] Inl refl u])
    next
      case (Inr b)
      show ?thesis by (rule "6.IH"(3) [OF eq [symmetric] Inr refl])
    qed
  qed
qed


subsection \<open>Evaluation lemmas\<close>

lemma value_cases [case_names err nonnull nullish arr not_arr scalar object]:
  assumes "\<And>e. x = JErr e \<Longrightarrow> P"
    and "\<And>ty'. \<not> is_err x \<Longrightarrow> ty = NonNull ty' \<Longrightarrow> P"
    and "\<not> is_err x \<Longrightarrow> is_nullish x \<Longrightarrow> \<forall>ty'. ty \<noteq> NonNull ty' \<Longrightarrow> P"
    and "\<And>ty' xs. \<not> is_err x \<Longrightarrow> ty = ListOf ty' \<Longrightarrow> \<not> is_nullish x \<Longrightarrow> x = JArr xs \<Longrightarrow> P"
    and "\<And>ty'. \<not> is_err x \<Longrightarrow> ty = ListOf ty' \<Longrightarrow> \<not> is_nullish x \<Longrightarrow> \<forall>xs. x \<noteq> JArr xs \<Longrightarrow> P"
    and "\<And>n. \<not> is_err x \<Longrightarrow> ty = Named n \<Longrightarrow> \<not> is_nullish x \<Longrightarrow> n \<in> set scalar_names \<Longrightarrow> P"
    and "\<And>n. \<not> is_err x \<Longrightarrow> ty = Named n \<Longrightarrow> \<not> is_nullish x \<Longrightarrow> n \<notin> set scalar_names \<Longrightarrow> P"
  shows P
proof (cases "is_err x")
  case True
  then show P using assms(1) by (cases x) (simp_all add: is_err_def)
next
  case ne: False
  show P
  proof (cases ty)
    case (NonNull ty')
    with ne assms(2) show P by blast
  next
    case (ListOf ty')
    with ne assms(3-5) show P by (cases "is_nullish x") blast+
  next
    case (Named n)
    with ne assms(3,6,7) show P by (cases "is_nullish x") blast+
  qed
qed

lemma tcomplete_JErr [simp]:
  "tcomplete L en t f ty subs p (JErr e) t0 s = (Inl \<lparr>emsg = error_message e, epath = p\<rparr>, None, s)"
  by (subst tcomplete.simps) simp

lemma tcomplete_NonNull:
  "\<not> is_err x \<Longrightarrow> tcomplete L en t f (NonNull ty) subs p x t0 s =
     (case tcomplete L en t f ty subs p x t0 s of
        (Inr RNull, None, s1) \<Rightarrow> (Inl \<lparr>emsg = ''Cannot return null for non-nullable field '' @ t @ ''.'' @ f @ ''.'', epath = p\<rparr>, None, s1)
      | r \<Rightarrow> r)"
  by (subst tcomplete.simps) (cases x; simp add: is_err_def)

lemma tcomplete_nullish:
  "is_nullish x \<Longrightarrow> (\<forall>ty'. ty \<noteq> NonNull ty') \<Longrightarrow> tcomplete L en t f ty subs p x t0 s = (Inr RNull, None, s)"
  by (subst tcomplete.simps) (cases ty; auto simp: is_nullish_def)

lemma tcomplete_scalar:
  "\<not> is_err x \<Longrightarrow> \<not> is_nullish x \<Longrightarrow> n \<in> set scalar_names \<Longrightarrow>
   tcomplete L en t f (Named n) subs p x t0 s =
     (case serialize_scalar n x of Inl m \<Rightarrow> (Inl \<lparr>emsg = m, epath = p\<rparr>, None, s) | Inr r \<Rightarrow> (Inr r, None, s))"
  by (subst tcomplete.simps) (cases x; simp add: is_err_def)

lemma tcomplete_object:
  "\<not> is_err x \<Longrightarrow> \<not> is_nullish x \<Longrightarrow> n \<notin> set scalar_names \<Longrightarrow>
   tcomplete L en t f (Named n) subs p x t0 s =
     (case texec_sels L en n x p subs t0 s of (Inl e, m, s1) \<Rightarrow> (Inl e, m, s1) | (Inr fs, m, s1) \<Rightarrow> (Inr (RObj fs), m, s1))"
  by (subst tcomplete.simps) (cases x; simp add: is_err_def)

lemma tcomplete_ListOf:
  "tcomplete L en t f (ListOf ty) subs p (JArr xs) t0 s =
     (case tcomplete_list L en t f ty subs p 0 xs t0 s of
        (Inl e, m, s1) \<Rightarrow> (Inl e, m, s1) | (Inr rs, m, s1) \<Rightarrow> (Inr (RList rs), m, s1))"
  by (subst tcomplete.simps) (simp add: is_nullish_def)

lemma tcomplete_ListOf_other:
  "\<not> is_err x \<Longrightarrow> \<not> is_nullish x \<Longrightarrow> (\<forall>xs. x \<noteq> JArr xs) \<Longrightarrow>
   tcomplete L en t f (ListOf ty) subs p x t0 s =
     (Inl \<lparr>emsg = ''Expected Iterable, but did not find one for field '' @ [CHR 0x22] @ t @ ''.'' @ f @ [CHR 0x22] @ ''.'', epath = p\<rparr>, None, s)"
  by (subst tcomplete.simps) (cases x; simp add: is_err_def)

text \<open>A completion that settles later is never \<^verbatim>\<open>null\<close>: \<^verbatim>\<open>null\<close> comes only from a nullish
  value, synchronously, so the non-null check of \<^verbatim>\<open>completeValue\<close> on a value (not a
  promise) sees every \<^verbatim>\<open>null\<close>.\<close>

lemma tcomplete_null_sync:
  "fst (tcomplete L en t f ty subs p x t0 s) = Inr RNull \<Longrightarrow> fst (snd (tcomplete L en t f ty subs p x t0 s)) = None"
proof (induction ty arbitrary: s)
  case (Named n)
  then show ?case
    by (cases "is_err x"; cases "is_nullish x"; cases "n \<in> set scalar_names")
       (auto simp: is_err_def tcomplete_nullish tcomplete_scalar tcomplete_object
          split: jsval.splits sum.splits prod.splits)
next
  case (NonNull ty)
  show ?case
  proof (cases "is_err x")
    case True
    with NonNull.prems show ?thesis by (cases x) (simp_all add: is_err_def)
  next
    case False
    obtain r m s1 where c: "tcomplete L en t f ty subs p x t0 s = (r, m, s1)" by (metis prod_cases3)
    have "r = Inr RNull \<Longrightarrow> m = None" using NonNull.IH [of s] c by simp
    with NonNull.prems False c show ?thesis
      by (auto simp: tcomplete_NonNull split: sum.splits rval.splits option.splits)
  qed
next
  case (ListOf ty)
  then show ?case
    by (cases "is_err x"; cases "is_nullish x"; cases "\<exists>xs. x = JArr xs")
       (auto simp: is_err_def tcomplete_nullish tcomplete_ListOf tcomplete_ListOf_other split: jsval.splits sum.splits prod.splits)
qed

lemma pall_isl:
  "isl (fst x) \<or> isl (fst xs) \<Longrightarrow> isl (fst (pall t0 x xs))"
  by (auto simp: pall_def Let_def split: sum.splits)

lemma pall_Inr:
  "fst x = Inr r \<Longrightarrow> fst xs = Inr rs \<Longrightarrow> fst (pall t0 x xs) = Inr (r # rs)"
  by (simp add: pall_def Let_def)

lemma pall_sync:
  "(snd (pall t0 x xs) = None) = (\<not> isl (fst x) \<and> \<not> isl (fst xs) \<and> snd x = None \<and> snd xs = None)"
  by (auto simp: pall_def Let_def split: sum.splits)

lemma tjoin_eval:
  "\<not> (isl r1 \<and> m1 = None) \<Longrightarrow> \<not> (isl rs \<and> ms = None) \<Longrightarrow>
   tjoin t0 g (r1, m1, s1) (rs, ms, s2)
   = (fst (pall t0 (map_sum id g r1, m1) (rs, ms)), snd (pall t0 (map_sum id g r1, m1) (rs, ms)), s2)"
  by (cases r1; cases m1; cases rs; cases ms) (simp_all add: tjoin_def split: prod.splits)

lemma texec_sels_Cons:
  "texec_sels L en t v p (Sel f a subs # rest) t0 s =
     tjoin t0 (Pair f) (texec_field L en t v p (Sel f a subs) t0 s)
       (texec_sels L en t v p rest t0 (snd (snd (texec_field L en t v p (Sel f a subs) t0 s))))"
  by (simp del: texec_field.simps texec_sels.simps add: texec_sels.simps(2) tjoin_def split: prod.splits sum.splits option.splits)

lemma tcomplete_list_Cons:
  "tcomplete_list L en t f ty subs p i (x # xs) t0 s =
     tjoin t0 id (thandle_out ty t0 (tcomplete L en t f ty subs (p @ [PIdx i]) x t0 s))
       (tcomplete_list L en t f ty subs p (Suc i) xs t0 (snd (snd (thandle_out ty t0 (tcomplete L en t f ty subs (p @ [PIdx i]) x t0 s)))))"
  by (simp add: tjoin_def sum.map_id split: prod.splits sum.splits option.splits)

lemma init_tst_simps [simp]: "tcalls init_tst = []" "terrs init_tst = []"
  by (simp_all add: init_tst_def)

lemma texecute_fst: "fst (texecute L en sels) =
    (case fst (texec_sels L en ''Query'' JUndefined [] sels 0 init_tst) of Inl _ \<Rightarrow> RNull | Inr fs \<Rightarrow> RObj fs)"
  by (simp add: texecute_def Let_def split: prod.split)

lemma texecute_tcalls: "tcalls (snd (snd (texecute L en sels))) = tcalls (snd (snd (texec_sels L en ''Query'' JUndefined [] sels 0 init_tst)))"
  by (simp add: texecute_def Let_def split: prod.split sum.split)

end
