(* ===== verification/Async.thy ===== *)
theory Async
  imports Promises "HOL-Library.Sublist"
begin

text \<open>
  What concurrency changes and what it does not, comparing the concurrent executor of
  \<open>Promises\<close> with the sequential one of \<open>Execution\<close>, for every latency.
  \<^item> \<open>data_of\<close> forgets which error a result carries; \<open>tshape\<close> keeps of a run its data,
    whether it settled synchronously, and the resolvers it called.
  \<^item> Each property is one induction over \<open>texec_induct\<close> whose cases are step lemmas:
    the data agree with the sequential executor (\<open>texec_data\<close>); the timed call log
    only grows (\<open>texec_tcalls_prefix\<close>); the sequential calls are a subsequence of the
    timed ones (\<open>texec_calls_subseq\<close>); and the shape of a run does not depend on the
    latency (\<open>texec_shape\<close>).
  \<^item> For the server: the data of every response do not depend on the timing
    (\<open>timed_data_agrees\<close>), so the claims of \<open>Execution\<close> about response data hold
    for graphql-js as well; the calls made do not depend on it either
    (\<open>calls_latency_free\<close>), and the sequential model's calls are among them
    (\<open>seq_calls_subseq\<close>); the errors do (\<open>errors_depend_on_latency\<close>).
\<close>

definition data_of :: "('e, 'a) result \<Rightarrow> 'a option" where
  "data_of r = (case r of Inl _ \<Rightarrow> None | Inr a \<Rightarrow> Some a)"

definition tshape :: "('e, 'a) result \<times> nat option \<times> tst \<Rightarrow> 'a option \<times> bool \<times> (string \<times> string) list" where
  "tshape c = (data_of (fst c), fst (snd c) = None, map snd (tcalls (snd (snd c))))"

text \<open>The query \<^verbatim>\<open>{ items { user { id } userId { items { id } } } }\<close> and a latency
  under which only the \<^verbatim>\<open>User.items\<close> read below the second item's \<^verbatim>\<open>userId\<close> is slow.\<close>

definition items_user_userId_query :: "selection list" where
  "items_user_userId_query =
     [Sel ''items'' [] [Sel ''user'' [] [Sel ''id'' [] []], Sel ''userId'' [] [Sel ''items'' [] [Sel ''id'' [] []]]]]"

definition slow_branch :: latency where
  "slow_branch p = (if p = [PKey ''items'', PIdx 1, PKey ''userId'', PKey ''items''] then 10 else 1)"

subsection \<open>Data\<close>

lemma data_of_simps [simp]: "data_of (Inl e) = None" "data_of (Inr a) = Some a"
  by (simp_all add: data_of_def)

lemma data_of_None_iff: "data_of r = None \<longleftrightarrow> isl r"
  by (cases r) simp_all

lemma data_of_isl: "isl r \<Longrightarrow> data_of r = None"
  by (cases r) simp_all

lemma data_of_map_sum: "data_of (map_sum id g r) = map_option g (data_of r)"
  by (cases r) simp_all

lemma pall_data:
  "data_of (fst (pall t0 x xs)) = (case (data_of (fst x), data_of (fst xs)) of (Some a, Some b) \<Rightarrow> Some (a # b) | _ \<Rightarrow> None)"
  by (auto simp: pall_def Let_def split: sum.splits)

lemma handle_pair_data:
  "data_of (fst d) = data_of (fst c) \<Longrightarrow>
   data_of (fst (case d of (Inl e, s2) \<Rightarrow> handle_error ty e s2 | (Inr r, s2) \<Rightarrow> (Inr r, s2)))
     = data_of (fst (thandle_out ty t0 c))"
  by (cases ty) (auto simp: handle_error_def thandle_out_def thandle_def data_of_def split: prod.splits sum.splits)

lemma as_async_fst [simp]: "fst (as_async t1 c) = fst c"
  by (simp add: as_async_def split: prod.splits)

lemma complete_ListOf_other_eq:
  "\<not> is_err x \<Longrightarrow> \<not> is_nullish x \<Longrightarrow> (\<forall>xs. x \<noteq> JArr xs) \<Longrightarrow>
   complete en t f (ListOf ty) subs p x s =
     (Inl \<lparr>emsg = ''Expected Iterable, but did not find one for field '' @ [CHR 0x22] @ t @ ''.'' @ f @ [CHR 0x22] @ ''.'', epath = p\<rparr>, s)"
  by (subst complete.simps) (cases x; simp add: is_err_def)

text \<open>Sequential and concurrent runs of a list of siblings agree on the data when their
  first elements and their rests do.\<close>

lemma join_data:
  assumes d1: "data_of x1 = data_of r1"
    and d2: "\<not> (isl r1 \<and> m1 = None) \<longrightarrow> data_of x2 = data_of rs"
  shows "data_of (case x1 of Inl e \<Rightarrow> Inl e | Inr b \<Rightarrow> (case x2 of Inl e \<Rightarrow> Inl e | Inr bs \<Rightarrow> Inr (g b # bs)))
       = data_of (fst (tjoin tz g (r1, m1, ua) (rs, ms, ub)))"
proof (cases x1)
  case (Inl e)
  with d1 obtain e' where "r1 = Inl e'" by (cases r1) simp_all
  with Inl show ?thesis by (cases m1; cases rs; cases ms) (simp_all add: tjoin_def pall_data prod.case_eq_if)
next
  case (Inr b)
  with d1 have r1: "r1 = Inr b" by (cases r1) simp_all
  with Inr d2 have d: "data_of x2 = data_of rs" by simp
  show ?thesis
  proof (cases x2)
    case (Inl e)
    with d obtain e' where "rs = Inl e'" by (cases rs) simp_all
    with Inl Inr r1 show ?thesis by (cases ms) (simp_all add: tjoin_def pall_data prod.case_eq_if)
  next
    case (Inr bs)
    with d have "rs = Inr bs" by (cases rs) simp_all
    with Inr \<open>x1 = Inr b\<close> r1 show ?thesis by (simp add: tjoin_def pall_data prod.case_eq_if)
  qed
qed

lemma sels_step_data:
  assumes IH1: "\<forall>s. data_of (fst (exec_field en t v p (Sel f a subs) s)) = data_of (fst (texec_field L en t v p (Sel f a subs) t0 s'))"
    and IH2: "\<And>r1 m1 s1. texec_field L en t v p (Sel f a subs) t0 s' = (r1, m1, s1) \<Longrightarrow> \<not> (isl r1 \<and> m1 = None) \<Longrightarrow>
      \<forall>s. data_of (fst (exec_sels en t v p rest s)) = data_of (fst (texec_sels L en t v p rest t0 s1))"
  shows "\<forall>s. data_of (fst (exec_sels en t v p (Sel f a subs # rest) s))
           = data_of (fst (texec_sels L en t v p (Sel f a subs # rest) t0 s'))"
proof
  fix s
  obtain x1 sq1 where e1: "exec_field en t v p (Sel f a subs) s = (x1, sq1)" by fastforce
  obtain r1 m1 s1 where t1: "texec_field L en t v p (Sel f a subs) t0 s' = (r1, m1, s1)" by (metis prod_cases3)
  obtain x2 sq2 where e2: "exec_sels en t v p rest sq1 = (x2, sq2)" by fastforce
  obtain rs ms s2 where t2: "texec_sels L en t v p rest t0 s1 = (rs, ms, s2)" by (metis prod_cases3)
  have d1: "data_of x1 = data_of r1" using IH1 e1 t1 by (metis fst_conv)
  have d2: "\<not> (isl r1 \<and> m1 = None) \<longrightarrow> data_of x2 = data_of rs" using IH2 [OF t1] e2 t2 by (metis fst_conv)
  show "data_of (fst (exec_sels en t v p (Sel f a subs # rest) s)) = data_of (fst (texec_sels L en t v p (Sel f a subs # rest) t0 s'))"
    using join_data [OF d1 d2, where g = "Pair f" and tz = t0 and ua = s1 and ms = ms and ub = s2] e1 e2 t1 t2
    by (simp del: exec_field.simps texec_field.simps texec_sels.simps add: texec_sels_Cons split: sum.splits)
qed

lemma field_data:
  assumes IH1: "\<And>fd. field_of (e_schema en) t f = Some fd \<Longrightarrow> lookup_resolver en t f = None \<Longrightarrow>
      \<forall>s. data_of (fst (complete en t f (fd_type fd) subs (p @ [PKey f]) (default_resolver v f) s))
        = data_of (fst (tcomplete L en t f (fd_type fd) subs (p @ [PKey f]) (default_resolver v f) t0 s'))"
    and IH2: "\<And>fd r y. field_of (e_schema en) t f = Some fd \<Longrightarrow> lookup_resolver en t f = Some r \<Longrightarrow> r (e_store en) v (JObj a) = Inr y \<Longrightarrow>
      \<forall>s. data_of (fst (complete en t f (fd_type fd) subs (p @ [PKey f]) y s))
        = data_of (fst (tcomplete L en t f (fd_type fd) subs (p @ [PKey f]) y (t0 + L (p @ [PKey f]))
            (s'\<lparr>tcalls := tcalls s' @ [(t0, (t, f))]\<rparr>)))"
  shows "\<forall>s. data_of (fst (exec_field en t v p (Sel f a subs) s)) = data_of (fst (texec_field L en t v p (Sel f a subs) t0 s'))"
proof
  fix s
  show "data_of (fst (exec_field en t v p (Sel f a subs) s)) = data_of (fst (texec_field L en t v p (Sel f a subs) t0 s'))"
  proof (cases "field_of (e_schema en) t f")
    case None
    then show ?thesis by simp
  next
    case (Some fd)
    show ?thesis
    proof (cases "lookup_resolver en t f")
      case None
      from handle_pair_data [OF spec [OF IH1 [OF Some None], of s], of "fd_type fd" t0] Some None
      show ?thesis by (simp add: resolve_def)
    next
      case (Some r)
      show ?thesis
      proof (cases "r (e_store en) v (JObj a)")
        case (Inl err)
        with \<open>field_of (e_schema en) t f = Some fd\<close> Some show ?thesis
          by (cases "fd_type fd") (simp_all add: resolve_def Let_def as_async_def thandle_out_def thandle_def handle_error_def)
      next
        case (Inr y)
        from handle_pair_data [OF spec [OF IH2 [OF \<open>field_of (e_schema en) t f = Some fd\<close> Some Inr],
            of "s\<lparr>calls := calls s @ [(t, f)]\<rparr>"], of "fd_type fd" "t0 + L (p @ [PKey f])"]
          \<open>field_of (e_schema en) t f = Some fd\<close> Some Inr
        show ?thesis by (simp add: resolve_def Let_def)
      qed
    qed
  qed
qed

lemma complete_data:
  assumes obj: "\<And>n. \<not> is_err x \<Longrightarrow> ty = Named n \<Longrightarrow> \<not> is_nullish x \<Longrightarrow> n \<notin> set scalar_names \<Longrightarrow>
      \<forall>s. data_of (fst (exec_sels en n x p subs s)) = data_of (fst (texec_sels L en n x p subs t0 s'))"
    and nn: "\<And>ty'. \<not> is_err x \<Longrightarrow> ty = NonNull ty' \<Longrightarrow>
      \<forall>s. data_of (fst (complete en t f ty' subs p x s)) = data_of (fst (tcomplete L en t f ty' subs p x t0 s'))"
    and lst: "\<And>ty' xs. \<not> is_err x \<Longrightarrow> ty = ListOf ty' \<Longrightarrow> \<not> is_nullish x \<Longrightarrow> x = JArr xs \<Longrightarrow>
      \<forall>s. data_of (fst (complete_list en t f ty' subs p 0 xs s)) = data_of (fst (tcomplete_list L en t f ty' subs p 0 xs t0 s'))"
  shows "\<forall>s. data_of (fst (complete en t f ty subs p x s)) = data_of (fst (tcomplete L en t f ty subs p x t0 s'))"
proof
  fix s
  show "data_of (fst (complete en t f ty subs p x s)) = data_of (fst (tcomplete L en t f ty subs p x t0 s'))"
  proof (cases rule: value_cases [where x = x and ty = ty])
    case (err e)
    then show ?thesis by simp
  next
    case (nonnull ty')
    obtain y sy where c: "complete en t f ty' subs p x s = (y, sy)" by fastforce
    obtain r m sr where tc: "tcomplete L en t f ty' subs p x t0 s' = (r, m, sr)" by (metis prod_cases3)
    have d: "data_of y = data_of r" using nn [OF nonnull] c tc by (metis fst_conv)
    have sync: "r = Inr RNull \<Longrightarrow> m = None" using tcomplete_null_sync [of L en t f ty' subs p x t0 s'] tc by simp
    show ?thesis
    proof (cases y)
      case (Inl e)
      with d obtain e' where "r = Inl e'" by (cases r) simp_all
      with Inl c tc nonnull show ?thesis by (simp add: complete_NonNull tcomplete_NonNull)
    next
      case (Inr w)
      with d have "r = Inr w" by (cases r) simp_all
      with Inr c tc nonnull sync show ?thesis
        by (cases w) (simp_all add: complete_NonNull tcomplete_NonNull split: option.splits)
    qed
  next
    case nullish
    then show ?thesis by (simp add: complete_nullish tcomplete_nullish)
  next
    case (arr ty' xs)
    with spec [OF lst [OF arr], of s] show ?thesis
      by (auto simp: complete_ListOf tcomplete_ListOf split: prod.splits sum.splits)
  next
    case (not_arr ty')
    then show ?thesis by (simp add: complete_ListOf_other_eq tcomplete_ListOf_other)
  next
    case (scalar n)
    then show ?thesis by (simp add: complete_scalar tcomplete_scalar split: sum.splits)
  next
    case (object n)
    with spec [OF obj [OF object], of s] show ?thesis
      by (auto simp: complete_object tcomplete_object split: prod.splits sum.splits)
  qed
qed

lemma list_step_data:
  assumes IH1: "\<forall>s. data_of (fst (complete en t f ty subs (p @ [PIdx i]) x s))
      = data_of (fst (tcomplete L en t f ty subs (p @ [PIdx i]) x t0 s'))"
    and IH2: "\<And>r1 m1 s1. thandle_out ty t0 (tcomplete L en t f ty subs (p @ [PIdx i]) x t0 s') = (r1, m1, s1) \<Longrightarrow>
      \<not> (isl r1 \<and> m1 = None) \<Longrightarrow>
      \<forall>s. data_of (fst (complete_list en t f ty subs p (Suc i) xs s)) = data_of (fst (tcomplete_list L en t f ty subs p (Suc i) xs t0 s1))"
  shows "\<forall>s. data_of (fst (complete_list en t f ty subs p i (x # xs) s))
           = data_of (fst (tcomplete_list L en t f ty subs p i (x # xs) t0 s'))"
proof
  fix s
  obtain x1 sq1 where e1: "(case complete en t f ty subs (p @ [PIdx i]) x s of
      (Inl e, s0) \<Rightarrow> handle_error ty e s0 | r \<Rightarrow> r) = (x1, sq1)" by fastforce
  obtain r1 m1 s1 where t1: "thandle_out ty t0 (tcomplete L en t f ty subs (p @ [PIdx i]) x t0 s') = (r1, m1, s1)"
    by (metis prod_cases3)
  obtain x2 sq2 where e2: "complete_list en t f ty subs p (Suc i) xs sq1 = (x2, sq2)" by fastforce
  obtain rs ms s2 where t2: "tcomplete_list L en t f ty subs p (Suc i) xs t0 s1 = (rs, ms, s2)" by (metis prod_cases3)
  from handle_pair_data [OF spec [OF IH1, of s], of ty t0] have d1: "data_of x1 = data_of r1"
    using e1 t1 by simp
  have d2: "\<not> (isl r1 \<and> m1 = None) \<longrightarrow> data_of x2 = data_of rs" using IH2 [OF t1] e2 t2 by (metis fst_conv)
  show "data_of (fst (complete_list en t f ty subs p i (x # xs) s)) = data_of (fst (tcomplete_list L en t f ty subs p i (x # xs) t0 s'))"
    using join_data [OF d1 d2, where g = id and tz = t0 and ua = s1 and ms = ms and ub = s2] e1 e2 t1 t2
    by (simp del: tcomplete_list.simps add: tcomplete_list_Cons map_sum.id split: sum.splits)
qed

lemma texec_data:
  "\<forall>s. data_of (fst (exec_sels en t v p sels s)) = data_of (fst (texec_sels L en t v p sels t0 s'))"
  "\<forall>s. data_of (fst (exec_field en t v p sel s)) = data_of (fst (texec_field L en t v p sel t0 s'))"
  "\<forall>s. data_of (fst (complete en t f ty subs p x s)) = data_of (fst (tcomplete L en t f ty subs p x t0 s'))"
  "\<forall>s. data_of (fst (complete_list en t f ty subs p i xs s)) = data_of (fst (tcomplete_list L en t f ty subs p i xs t0 s'))"
proof (induction L en t v p sels t0 s' and L en t v p sel t0 s' and L en t f ty subs p x t0 s'
    and L en t f ty subs p i xs t0 s' rule: texec_induct)
  case (2 L en t v p f a subs rest t0 s')
  from "2.IH" show ?case by (rule sels_step_data)
next
  case (3 L en t v p f a subs t0 s')
  from "3.IH" show ?case by (rule field_data)
next
  case (4 L en t f ty subs p x t0 s')
  from "4.IH" show ?case by (rule complete_data)
next
  case (6 L en t f ty subs p i x xs t0 s')
  from "6.IH" show ?case by (rule list_step_data)
qed simp_all


subsection \<open>Calls\<close>

lemma thandle_out_tcalls: "tcalls (snd (snd (thandle_out ty t0 c))) = tcalls (snd (snd c))"
  by (auto simp: thandle_out_def thandle_def split: prod.splits sum.splits gql_type.splits)

lemma as_async_snd [simp]: "snd (snd (as_async t1 c)) = snd (snd c)"
  by (simp add: as_async_def split: prod.splits)

lemma tjoin_state: "snd (snd (tjoin tz g (r1, m1, ua) c)) = (if isl r1 \<and> m1 = None then ua else snd (snd c))"
  by (cases r1; cases m1; cases c) (auto simp: tjoin_def prod.case_eq_if split: sum.splits option.splits)

lemma handle_error_calls_pair: "handle_error ty e s = (r, s') \<Longrightarrow> calls s' = calls s"
  by (cases ty) (auto simp: handle_error_def)

lemma subseq_prefix_trans: "subseq xs ys \<Longrightarrow> prefix ys zs \<Longrightarrow> subseq xs zs"
  by (metis prefix_imp_subseq subseq_order.trans)

lemma prefix_map_snd: "prefix xs ys \<Longrightarrow> prefix (map snd xs) (map snd ys)"
  by (auto simp: prefix_def)

lemma complete_prefix:
  assumes obj: "\<And>n. \<not> is_err x \<Longrightarrow> ty = Named n \<Longrightarrow> \<not> is_nullish x \<Longrightarrow> n \<notin> set scalar_names \<Longrightarrow>
      prefix (tcalls s) (tcalls (snd (snd (texec_sels L en n x p subs t0 s))))"
    and nn: "\<And>ty'. \<not> is_err x \<Longrightarrow> ty = NonNull ty' \<Longrightarrow> prefix (tcalls s) (tcalls (snd (snd (tcomplete L en t f ty' subs p x t0 s))))"
    and lst: "\<And>ty' xs. \<not> is_err x \<Longrightarrow> ty = ListOf ty' \<Longrightarrow> \<not> is_nullish x \<Longrightarrow> x = JArr xs \<Longrightarrow>
      prefix (tcalls s) (tcalls (snd (snd (tcomplete_list L en t f ty' subs p 0 xs t0 s))))"
  shows "prefix (tcalls s) (tcalls (snd (snd (tcomplete L en t f ty subs p x t0 s))))"
proof (cases rule: value_cases [where x = x and ty = ty])
  case (nonnull ty')
  with nn [OF nonnull] show ?thesis
    by (auto simp: tcomplete_NonNull split: prod.splits sum.splits rval.splits option.splits)
next
  case (arr ty' xs)
  with lst [OF arr] show ?thesis by (auto simp: tcomplete_ListOf split: prod.splits sum.splits)
next
  case (object n)
  with obj [OF object] show ?thesis by (auto simp: tcomplete_object split: prod.splits sum.splits)
qed (simp_all add: tcomplete_nullish tcomplete_ListOf_other tcomplete_scalar split: sum.splits)

lemma field_prefix:
  assumes IH1: "\<And>fd. field_of (e_schema en) t f = Some fd \<Longrightarrow> lookup_resolver en t f = None \<Longrightarrow>
      prefix (tcalls s) (tcalls (snd (snd (tcomplete L en t f (fd_type fd) subs (p @ [PKey f]) (default_resolver v f) t0 s))))"
    and IH2: "\<And>fd r y. field_of (e_schema en) t f = Some fd \<Longrightarrow> lookup_resolver en t f = Some r \<Longrightarrow> r (e_store en) v (JObj a) = Inr y \<Longrightarrow>
      prefix (tcalls (s\<lparr>tcalls := tcalls s @ [(t0, (t, f))]\<rparr>))
        (tcalls (snd (snd (tcomplete L en t f (fd_type fd) subs (p @ [PKey f]) y (t0 + L (p @ [PKey f]))
           (s\<lparr>tcalls := tcalls s @ [(t0, (t, f))]\<rparr>)))))"
  shows "prefix (tcalls s) (tcalls (snd (snd (texec_field L en t v p (Sel f a subs) t0 s))))"
proof (cases "field_of (e_schema en) t f")
  case (Some fd)
  show ?thesis
  proof (cases "lookup_resolver en t f")
    case None
    with Some IH1 [OF Some None] show ?thesis by (simp add: thandle_out_tcalls)
  next
    case (Some r)
    show ?thesis
    proof (cases "r (e_store en) v (JObj a)")
      case (Inr y)
      with \<open>field_of (e_schema en) t f = Some fd\<close> Some IH2 [OF \<open>field_of (e_schema en) t f = Some fd\<close> Some Inr]
      show ?thesis by (auto simp: Let_def thandle_out_tcalls dest: append_prefixD)
    qed (use \<open>field_of (e_schema en) t f = Some fd\<close> Some in \<open>simp add: Let_def thandle_out_tcalls\<close>)
  qed
qed simp

lemma texec_tcalls_prefix:
  "prefix (tcalls s) (tcalls (snd (snd (texec_sels L en t v p sels t0 s))))"
  "prefix (tcalls s) (tcalls (snd (snd (texec_field L en t v p sel t0 s))))"
  "prefix (tcalls s) (tcalls (snd (snd (tcomplete L en t f ty subs p x t0 s))))"
  "prefix (tcalls s) (tcalls (snd (snd (tcomplete_list L en t f ty subs p i xs t0 s))))"
proof (induction L en t v p sels t0 s and L en t v p sel t0 s and L en t f ty subs p x t0 s
    and L en t f ty subs p i xs t0 s rule: texec_induct)
  case (2 L en t v p f a subs rest t0 s)
  obtain r1 m1 s1 where t1: "texec_field L en t v p (Sel f a subs) t0 s = (r1, m1, s1)" by (metis prod_cases3)
  with "2.IH" show ?case
    by (auto simp del: texec_field.simps texec_sels.simps simp: texec_sels_Cons tjoin_state prod.case_eq_if
        dest: prefix_order.trans)
next
  case (3 L en t v p f a subs t0 s)
  from "3.IH" show ?case by (rule field_prefix)
next
  case (4 L en t f ty subs p x t0 s)
  from "4.IH" show ?case by (rule complete_prefix)
next
  case (6 L en t f ty subs p i x xs t0 s)
  obtain r1 m1 s1 where t1: "thandle_out ty t0 (tcomplete L en t f ty subs (p @ [PIdx i]) x t0 s) = (r1, m1, s1)"
    by (metis prod_cases3)
  have "prefix (tcalls s) (tcalls s1)"
    using "6.IH"(1) t1 thandle_out_tcalls [of ty t0 "tcomplete L en t f ty subs (p @ [PIdx i]) x t0 s"] by simp
  with "6.IH"(2) [OF t1] t1 show ?case
    by (auto simp del: tcomplete_list.simps simp: tcomplete_list_Cons tjoin_state prod.case_eq_if dest: prefix_order.trans)
qed simp_all


text \<open>The sequential calls are a subsequence of the concurrent ones: at a step where the
  sequential run stops, the concurrent one has made at least the same calls and may go
  on (\<open>texec_tcalls_prefix\<close>).\<close>

lemma join_subseq:
  assumes c1: "subseq (calls sq1) (map snd (tcalls s1))"
    and d1: "data_of x1 = data_of r1"
    and c2: "\<not> (isl r1 \<and> m1 = None) \<longrightarrow> subseq (calls sq2) (map snd (tcalls (snd (snd c))))"
    and p2: "prefix (tcalls s1) (tcalls (snd (snd c)))"
  shows "subseq (calls (if isl x1 then sq1 else sq2)) (map snd (tcalls (snd (snd (tjoin tz g (r1, m1, s1) c)))))"
proof (cases "isl x1")
  case True
  then have "isl r1" using d1 by (simp add: data_of_None_iff [symmetric])
  with True c1 p2 show ?thesis
    by (auto simp: tjoin_state intro: subseq_prefix_trans dest: prefix_map_snd)
next
  case False
  then have "\<not> isl r1" using d1 by (simp add: data_of_None_iff [symmetric])
  with False c2 show ?thesis by (simp add: tjoin_state)
qed

lemma sels_step_subseq:
  assumes IH1: "\<forall>s. subseq (calls s) (map snd (tcalls s')) \<longrightarrow>
      subseq (calls (snd (exec_field en t v p (Sel f a subs) s))) (map snd (tcalls (snd (snd (texec_field L en t v p (Sel f a subs) t0 s')))))"
    and IH2: "\<And>r1 m1 s1. texec_field L en t v p (Sel f a subs) t0 s' = (r1, m1, s1) \<Longrightarrow> \<not> (isl r1 \<and> m1 = None) \<Longrightarrow>
      \<forall>s. subseq (calls s) (map snd (tcalls s1)) \<longrightarrow>
        subseq (calls (snd (exec_sels en t v p rest s))) (map snd (tcalls (snd (snd (texec_sels L en t v p rest t0 s1)))))"
  shows "\<forall>s. subseq (calls s) (map snd (tcalls s')) \<longrightarrow>
      subseq (calls (snd (exec_sels en t v p (Sel f a subs # rest) s)))
        (map snd (tcalls (snd (snd (texec_sels L en t v p (Sel f a subs # rest) t0 s')))))"
proof (intro allI impI)
  fix s :: xst assume s: "subseq (calls s) (map snd (tcalls s'))"
  obtain x1 sq1 where e1: "exec_field en t v p (Sel f a subs) s = (x1, sq1)" by fastforce
  obtain r1 m1 s1 where t1: "texec_field L en t v p (Sel f a subs) t0 s' = (r1, m1, s1)" by (metis prod_cases3)
  obtain x2 sq2 where e2: "exec_sels en t v p rest sq1 = (x2, sq2)" by fastforce
  have c1: "subseq (calls sq1) (map snd (tcalls s1))" using IH1 s e1 t1 by (metis snd_conv)
  have d1: "data_of x1 = data_of r1" using texec_data(2) e1 t1 by (metis fst_conv)
  have c2: "\<not> (isl r1 \<and> m1 = None) \<longrightarrow> subseq (calls sq2) (map snd (tcalls (snd (snd (texec_sels L en t v p rest t0 s1)))))"
    using IH2 [OF t1] c1 e2 by (metis snd_conv)
  from join_subseq [OF c1 d1 c2 texec_tcalls_prefix(1), where tz = t0 and g = "Pair f"] e1 e2 t1
  show "subseq (calls (snd (exec_sels en t v p (Sel f a subs # rest) s)))
      (map snd (tcalls (snd (snd (texec_sels L en t v p (Sel f a subs # rest) t0 s')))))"
    by (auto simp del: exec_field.simps texec_field.simps texec_sels.simps simp: texec_sels_Cons split: sum.splits)
qed

lemma field_subseq:
  assumes IH1: "\<And>fd. field_of (e_schema en) t f = Some fd \<Longrightarrow> lookup_resolver en t f = None \<Longrightarrow>
      \<forall>s. subseq (calls s) (map snd (tcalls s')) \<longrightarrow>
        subseq (calls (snd (complete en t f (fd_type fd) subs (p @ [PKey f]) (default_resolver v f) s)))
          (map snd (tcalls (snd (snd (tcomplete L en t f (fd_type fd) subs (p @ [PKey f]) (default_resolver v f) t0 s')))))"
    and IH2: "\<And>fd r y. field_of (e_schema en) t f = Some fd \<Longrightarrow> lookup_resolver en t f = Some r \<Longrightarrow> r (e_store en) v (JObj a) = Inr y \<Longrightarrow>
      \<forall>s. subseq (calls s) (map snd (tcalls (s'\<lparr>tcalls := tcalls s' @ [(t0, (t, f))]\<rparr>))) \<longrightarrow>
        subseq (calls (snd (complete en t f (fd_type fd) subs (p @ [PKey f]) y s)))
          (map snd (tcalls (snd (snd (tcomplete L en t f (fd_type fd) subs (p @ [PKey f]) y (t0 + L (p @ [PKey f]))
             (s'\<lparr>tcalls := tcalls s' @ [(t0, (t, f))]\<rparr>))))))"
  shows "\<forall>s. subseq (calls s) (map snd (tcalls s')) \<longrightarrow>
      subseq (calls (snd (exec_field en t v p (Sel f a subs) s))) (map snd (tcalls (snd (snd (texec_field L en t v p (Sel f a subs) t0 s')))))"
proof (intro allI impI)
  fix s :: xst assume s: "subseq (calls s) (map snd (tcalls s'))"
  show "subseq (calls (snd (exec_field en t v p (Sel f a subs) s))) (map snd (tcalls (snd (snd (texec_field L en t v p (Sel f a subs) t0 s')))))"
  proof (cases "field_of (e_schema en) t f")
    case None
    with s show ?thesis by simp
  next
    case (Some fd)
    show ?thesis
    proof (cases "lookup_resolver en t f")
      case None
      with Some s IH1 [OF Some None] show ?thesis
        by (auto simp: resolve_def thandle_out_tcalls handle_error_calls split: prod.splits sum.splits)
    next
      case (Some r)
      have s1: "subseq (calls (s\<lparr>calls := calls s @ [(t, f)]\<rparr>)) (map snd (tcalls (s'\<lparr>tcalls := tcalls s' @ [(t0, (t, f))]\<rparr>)))"
        using s by simp
      show ?thesis
      proof (cases "r (e_store en) v (JObj a)")
        case (Inl err)
        with \<open>field_of (e_schema en) t f = Some fd\<close> Some s1 show ?thesis
          by (simp add: resolve_def Let_def thandle_out_tcalls handle_error_calls)
      next
        case (Inr y)
        from spec [OF IH2 [OF \<open>field_of (e_schema en) t f = Some fd\<close> Some Inr], of "s\<lparr>calls := calls s @ [(t, f)]\<rparr>"] s1
          \<open>field_of (e_schema en) t f = Some fd\<close> Some Inr show ?thesis
          by (auto simp: resolve_def Let_def thandle_out_tcalls handle_error_calls split: prod.splits sum.splits)
      qed
    qed
  qed
qed

lemma complete_subseq:
  assumes obj: "\<And>n. \<not> is_err x \<Longrightarrow> ty = Named n \<Longrightarrow> \<not> is_nullish x \<Longrightarrow> n \<notin> set scalar_names \<Longrightarrow>
      \<forall>s. subseq (calls s) (map snd (tcalls s')) \<longrightarrow>
        subseq (calls (snd (exec_sels en n x p subs s))) (map snd (tcalls (snd (snd (texec_sels L en n x p subs t0 s')))))"
    and nn: "\<And>ty'. \<not> is_err x \<Longrightarrow> ty = NonNull ty' \<Longrightarrow>
      \<forall>s. subseq (calls s) (map snd (tcalls s')) \<longrightarrow>
        subseq (calls (snd (complete en t f ty' subs p x s))) (map snd (tcalls (snd (snd (tcomplete L en t f ty' subs p x t0 s')))))"
    and lst: "\<And>ty' xs. \<not> is_err x \<Longrightarrow> ty = ListOf ty' \<Longrightarrow> \<not> is_nullish x \<Longrightarrow> x = JArr xs \<Longrightarrow>
      \<forall>s. subseq (calls s) (map snd (tcalls s')) \<longrightarrow>
        subseq (calls (snd (complete_list en t f ty' subs p 0 xs s))) (map snd (tcalls (snd (snd (tcomplete_list L en t f ty' subs p 0 xs t0 s')))))"
  shows "\<forall>s. subseq (calls s) (map snd (tcalls s')) \<longrightarrow>
      subseq (calls (snd (complete en t f ty subs p x s))) (map snd (tcalls (snd (snd (tcomplete L en t f ty subs p x t0 s')))))"
proof (intro allI impI)
  fix s :: xst assume s: "subseq (calls s) (map snd (tcalls s'))"
  show "subseq (calls (snd (complete en t f ty subs p x s))) (map snd (tcalls (snd (snd (tcomplete L en t f ty subs p x t0 s')))))"
  proof (cases rule: value_cases [where x = x and ty = ty])
    case (nonnull ty')
    with s nn [OF nonnull] show ?thesis
      by (auto simp: complete_NonNull tcomplete_NonNull split: prod.splits sum.splits rval.splits option.splits)
  next
    case (arr ty' xs)
    with s lst [OF arr] show ?thesis
      by (auto simp: complete_ListOf tcomplete_ListOf split: prod.splits sum.splits)
  next
    case (object n)
    with s obj [OF object] show ?thesis
      by (auto simp: complete_object tcomplete_object split: prod.splits sum.splits)
  qed (use s in \<open>simp_all add: complete_nullish tcomplete_nullish complete_ListOf_other_eq tcomplete_ListOf_other
        complete_scalar tcomplete_scalar split: sum.splits\<close>)
qed

lemma list_step_subseq:
  assumes IH1: "\<forall>s. subseq (calls s) (map snd (tcalls s')) \<longrightarrow>
      subseq (calls (snd (complete en t f ty subs (p @ [PIdx i]) x s)))
        (map snd (tcalls (snd (snd (tcomplete L en t f ty subs (p @ [PIdx i]) x t0 s')))))"
    and IH2: "\<And>r1 m1 s1. thandle_out ty t0 (tcomplete L en t f ty subs (p @ [PIdx i]) x t0 s') = (r1, m1, s1) \<Longrightarrow>
      \<not> (isl r1 \<and> m1 = None) \<Longrightarrow>
      \<forall>s. subseq (calls s) (map snd (tcalls s1)) \<longrightarrow>
        subseq (calls (snd (complete_list en t f ty subs p (Suc i) xs s)))
          (map snd (tcalls (snd (snd (tcomplete_list L en t f ty subs p (Suc i) xs t0 s1)))))"
  shows "\<forall>s. subseq (calls s) (map snd (tcalls s')) \<longrightarrow>
      subseq (calls (snd (complete_list en t f ty subs p i (x # xs) s)))
        (map snd (tcalls (snd (snd (tcomplete_list L en t f ty subs p i (x # xs) t0 s')))))"
proof (intro allI impI)
  fix s :: xst assume s: "subseq (calls s) (map snd (tcalls s'))"
  obtain x1 sq1 where e1: "(case complete en t f ty subs (p @ [PIdx i]) x s of
      (Inl e, s0) \<Rightarrow> handle_error ty e s0 | r \<Rightarrow> r) = (x1, sq1)" by fastforce
  obtain r1 m1 s1 where t1: "thandle_out ty t0 (tcomplete L en t f ty subs (p @ [PIdx i]) x t0 s') = (r1, m1, s1)"
    by (metis prod_cases3)
  obtain x2 sq2 where e2: "complete_list en t f ty subs p (Suc i) xs sq1 = (x2, sq2)" by fastforce
  have c1: "subseq (calls sq1) (map snd (tcalls s1))"
    using spec [OF IH1, of s] s e1 t1 thandle_out_tcalls [of ty t0 "tcomplete L en t f ty subs (p @ [PIdx i]) x t0 s'"]
    by (auto split: prod.splits sum.splits dest: handle_error_calls_pair)
  have "data_of (fst (complete en t f ty subs (p @ [PIdx i]) x s)) = data_of (fst (tcomplete L en t f ty subs (p @ [PIdx i]) x t0 s'))"
    using texec_data(3) by blast
  from handle_pair_data [OF this, of ty t0] have d1: "data_of x1 = data_of r1"
    using e1 t1 by simp
  have c2: "\<not> (isl r1 \<and> m1 = None) \<longrightarrow> subseq (calls sq2) (map snd (tcalls (snd (snd (tcomplete_list L en t f ty subs p (Suc i) xs t0 s1)))))"
    using IH2 [OF t1] c1 e2 by (metis snd_conv)
  from join_subseq [OF c1 d1 c2 texec_tcalls_prefix(4), where tz = t0 and g = id] e1 e2 t1
  show "subseq (calls (snd (complete_list en t f ty subs p i (x # xs) s)))
      (map snd (tcalls (snd (snd (tcomplete_list L en t f ty subs p i (x # xs) t0 s')))))"
    by (auto simp del: tcomplete_list.simps simp: tcomplete_list_Cons split: sum.splits)
qed

lemma texec_calls_subseq:
  "\<forall>s. subseq (calls s) (map snd (tcalls s')) \<longrightarrow>
     subseq (calls (snd (exec_sels en t v p sels s))) (map snd (tcalls (snd (snd (texec_sels L en t v p sels t0 s')))))"
  "\<forall>s. subseq (calls s) (map snd (tcalls s')) \<longrightarrow>
     subseq (calls (snd (exec_field en t v p sel s))) (map snd (tcalls (snd (snd (texec_field L en t v p sel t0 s')))))"
  "\<forall>s. subseq (calls s) (map snd (tcalls s')) \<longrightarrow>
     subseq (calls (snd (complete en t f ty subs p x s))) (map snd (tcalls (snd (snd (tcomplete L en t f ty subs p x t0 s')))))"
  "\<forall>s. subseq (calls s) (map snd (tcalls s')) \<longrightarrow>
     subseq (calls (snd (complete_list en t f ty subs p i xs s))) (map snd (tcalls (snd (snd (tcomplete_list L en t f ty subs p i xs t0 s')))))"
proof (induction L en t v p sels t0 s' and L en t v p sel t0 s' and L en t f ty subs p x t0 s'
    and L en t f ty subs p i xs t0 s' rule: texec_induct)
  case (2 L en t v p f a subs rest t0 s')
  from "2.IH" show ?case by (rule sels_step_subseq)
next
  case (3 L en t v p f a subs t0 s')
  from "3.IH" show ?case by (rule field_subseq)
next
  case (4 L en t f ty subs p x t0 s')
  from "4.IH" show ?case by (rule complete_subseq)
next
  case (6 L en t f ty subs p i x xs t0 s')
  from "6.IH" show ?case by (rule list_step_subseq)
qed simp_all


subsection \<open>Shape\<close>

lemma tshape_triple [simp]: "tshape (r, m, s) = (data_of r, m = None, map snd (tcalls s))"
  by (simp add: tshape_def)

lemma tshape_pall:
  "data_of (fst x) = data_of (fst x') \<Longrightarrow> data_of (fst xs) = data_of (fst xs') \<Longrightarrow>
   (snd x = None) = (snd x' = None) \<Longrightarrow> (snd xs = None) = (snd xs' = None) \<Longrightarrow>
   data_of (fst (pall t0 x xs)) = data_of (fst (pall t0' x' xs')) \<and> (snd (pall t0 x xs) = None) = (snd (pall t0' x' xs') = None)"
  unfolding pall_data pall_sync data_of_None_iff [symmetric] by simp

lemma thandle_out_shape:
  "tshape c = tshape c' \<Longrightarrow> tshape (thandle_out ty t0 c) = tshape (thandle_out ty t0' c')"
  by (cases ty) (auto simp: tshape_def thandle_out_def thandle_def data_of_def split: prod.splits sum.splits)

lemma as_async_shape:
  "tshape c = tshape c' \<Longrightarrow> tshape (as_async t1 c) = tshape (as_async t1' c')"
  by (auto simp: tshape_def as_async_def split: prod.splits)

lemma nonnull_shape:
  "tshape c = tshape c' \<Longrightarrow>
   tshape (case c of (Inr RNull, None, s1) \<Rightarrow> (Inl e, None, s1) | r \<Rightarrow> r)
     = tshape (case c' of (Inr RNull, None, s1) \<Rightarrow> (Inl e', None, s1) | r \<Rightarrow> r)"
  by (auto simp: tshape_def data_of_def split: prod.splits sum.splits rval.splits option.splits)

lemma map_Inr_shape:
  "tshape c = tshape c' \<Longrightarrow>
   tshape (case c of (Inl e, m, s1) \<Rightarrow> (Inl e, m, s1) | (Inr rs, m, s1) \<Rightarrow> (Inr (h rs), m, s1))
     = tshape (case c' of (Inl e, m, s1) \<Rightarrow> (Inl e, m, s1) | (Inr rs, m, s1) \<Rightarrow> (Inr (h rs), m, s1))"
  by (auto simp: tshape_def data_of_def split: prod.splits sum.splits)

text \<open>Two runs of a list of siblings have the same shape when their first elements and
  their rests do: whether the loop aborts and how \<^verbatim>\<open>Promise.all\<close> settles depend only
  on the shapes.\<close>

lemma tjoin_shape:
  assumes sh1: "tshape (r1, m1, ua) = tshape (r1', m1', ua')"
    and sh2: "\<not> (isl r1 \<and> m1 = None) \<longrightarrow> tshape c = tshape c'"
  shows "tshape (tjoin tz g (r1, m1, ua) c) = tshape (tjoin tz' g (r1', m1', ua') c')"
proof -
  obtain rs ms ub where c: "c = (rs, ms, ub)" by (metis prod_cases3)
  obtain rs' ms' ub' where c': "c' = (rs', ms', ub')" by (metis prod_cases3)
  have d1: "data_of r1 = data_of r1'" and m: "(m1 = None) = (m1' = None)" using sh1 by simp_all
  have i1: "isl r1 = isl r1'" using d1 by (simp add: data_of_None_iff [symmetric])
  show ?thesis
  proof (cases "isl r1 \<and> m1 = None")
    case True
    with i1 m sh1 show ?thesis by (cases r1; cases r1'; cases m1; cases m1') (simp_all add: tjoin_def data_of_isl)
  next
    case False
    with i1 m have F': "\<not> (isl r1' \<and> m1' = None)" by simp
    from sh2 False c c' have d2: "data_of rs = data_of rs'" and ms: "(ms = None) = (ms' = None)"
      and n2: "map snd (tcalls ub) = map snd (tcalls ub')" by simp_all
    have i2: "isl rs = isl rs'" using d2 by (simp add: data_of_None_iff [symmetric])
    show ?thesis
    proof (cases "isl rs \<and> ms = None")
      case True
      with i1 i2 ms n2 False F' c c' show ?thesis
        by (cases r1; cases r1'; cases rs; cases rs'; cases ms; cases ms'; cases m1; cases m1') (simp_all add: tjoin_def data_of_isl)
    next
      case False2: False
      with i2 ms have F2': "\<not> (isl rs' \<and> ms' = None)" by simp
      have p: "data_of (fst (pall tz (map_sum id g r1, m1) (rs, ms))) = data_of (fst (pall tz' (map_sum id g r1', m1') (rs', ms')))
          \<and> (snd (pall tz (map_sum id g r1, m1) (rs, ms)) = None) = (snd (pall tz' (map_sum id g r1', m1') (rs', ms')) = None)"
        by (rule tshape_pall) (simp_all add: data_of_map_sum d1 d2 m ms)
      show ?thesis
        unfolding c c' tjoin_eval [OF False False2] tjoin_eval [OF F' F2'] using p n2 by simp
    qed
  qed
qed

lemma sels_step_shape:
  assumes IH1: "\<forall>L' t' s2. map snd (tcalls s) = map snd (tcalls s2) \<longrightarrow>
      tshape (texec_field L en t v p (Sel f a subs) t0 s) = tshape (texec_field L' en t v p (Sel f a subs) t' s2)"
    and IH2: "\<And>r1 m1 s1. texec_field L en t v p (Sel f a subs) t0 s = (r1, m1, s1) \<Longrightarrow> \<not> (isl r1 \<and> m1 = None) \<Longrightarrow>
      \<forall>L' t' s2. map snd (tcalls s1) = map snd (tcalls s2) \<longrightarrow>
        tshape (texec_sels L en t v p rest t0 s1) = tshape (texec_sels L' en t v p rest t' s2)"
  shows "\<forall>L' t' s2. map snd (tcalls s) = map snd (tcalls s2) \<longrightarrow>
      tshape (texec_sels L en t v p (Sel f a subs # rest) t0 s) = tshape (texec_sels L' en t v p (Sel f a subs # rest) t' s2)"
proof (intro allI impI)
  fix L' t' and s2 :: tst assume n: "map snd (tcalls s) = map snd (tcalls s2)"
  obtain r1 m1 s1 where t1: "texec_field L en t v p (Sel f a subs) t0 s = (r1, m1, s1)" by (metis prod_cases3)
  obtain r1' m1' s1' where t1': "texec_field L' en t v p (Sel f a subs) t' s2 = (r1', m1', s1')" by (metis prod_cases3)
  have sh1: "tshape (r1, m1, s1) = tshape (r1', m1', s1')" using IH1 n t1 t1' by metis
  then have n1: "map snd (tcalls s1) = map snd (tcalls s1')" by simp
  have sh2: "\<not> (isl r1 \<and> m1 = None) \<longrightarrow> tshape (texec_sels L en t v p rest t0 s1) = tshape (texec_sels L' en t v p rest t' s1')"
    using IH2 [OF t1] n1 by blast
  show "tshape (texec_sels L en t v p (Sel f a subs # rest) t0 s) = tshape (texec_sels L' en t v p (Sel f a subs # rest) t' s2)"
    unfolding texec_sels_Cons t1 t1' using tjoin_shape [OF sh1 sh2] by simp
qed

lemma field_shape:
  assumes IH1: "\<And>fd. field_of (e_schema en) t f = Some fd \<Longrightarrow> lookup_resolver en t f = None \<Longrightarrow>
      \<forall>L' t' s2. map snd (tcalls s) = map snd (tcalls s2) \<longrightarrow>
        tshape (tcomplete L en t f (fd_type fd) subs (p @ [PKey f]) (default_resolver v f) t0 s)
          = tshape (tcomplete L' en t f (fd_type fd) subs (p @ [PKey f]) (default_resolver v f) t' s2)"
    and IH2: "\<And>fd r y. field_of (e_schema en) t f = Some fd \<Longrightarrow> lookup_resolver en t f = Some r \<Longrightarrow> r (e_store en) v (JObj a) = Inr y \<Longrightarrow>
      \<forall>L' t' s2. map snd (tcalls (s\<lparr>tcalls := tcalls s @ [(t0, (t, f))]\<rparr>)) = map snd (tcalls s2) \<longrightarrow>
        tshape (tcomplete L en t f (fd_type fd) subs (p @ [PKey f]) y (t0 + L (p @ [PKey f])) (s\<lparr>tcalls := tcalls s @ [(t0, (t, f))]\<rparr>))
          = tshape (tcomplete L' en t f (fd_type fd) subs (p @ [PKey f]) y t' s2)"
  shows "\<forall>L' t' s2. map snd (tcalls s) = map snd (tcalls s2) \<longrightarrow>
      tshape (texec_field L en t v p (Sel f a subs) t0 s) = tshape (texec_field L' en t v p (Sel f a subs) t' s2)"
proof (intro allI impI)
  fix L' t' and s2 :: tst assume n: "map snd (tcalls s) = map snd (tcalls s2)"
  show "tshape (texec_field L en t v p (Sel f a subs) t0 s) = tshape (texec_field L' en t v p (Sel f a subs) t' s2)"
  proof (cases "field_of (e_schema en) t f")
    case None
    with n show ?thesis by simp
  next
    case (Some fd)
    show ?thesis
    proof (cases "lookup_resolver en t f")
      case None
      from thandle_out_shape [OF spec [OF spec [OF spec [OF IH1 [OF Some None]]], THEN mp, OF n], of "fd_type fd" t0 t'] Some None
      show ?thesis by simp
    next
      case (Some r)
      have n': "map snd (tcalls (s\<lparr>tcalls := tcalls s @ [(t0, (t, f))]\<rparr>)) = map snd (tcalls (s2\<lparr>tcalls := tcalls s2 @ [(t', (t, f))]\<rparr>))"
        using n by simp
      show ?thesis
      proof (cases "r (e_store en) v (JObj a)")
        case (Inl err)
        have "tshape (Inl \<lparr>emsg = error_message err, epath = p @ [PKey f]\<rparr>, None, s\<lparr>tcalls := tcalls s @ [(t0, (t, f))]\<rparr>)
            = tshape (Inl \<lparr>emsg = error_message err, epath = p @ [PKey f]\<rparr>, None, s2\<lparr>tcalls := tcalls s2 @ [(t', (t, f))]\<rparr>)"
          using n' by simp
        from as_async_shape [OF thandle_out_shape [OF this]] \<open>field_of (e_schema en) t f = Some fd\<close> Some Inl
        show ?thesis by (simp add: Let_def)
      next
        case (Inr y)
        from IH2 [OF \<open>field_of (e_schema en) t f = Some fd\<close> Some Inr] n'
        have "tshape (tcomplete L en t f (fd_type fd) subs (p @ [PKey f]) y (t0 + L (p @ [PKey f])) (s\<lparr>tcalls := tcalls s @ [(t0, (t, f))]\<rparr>))
            = tshape (tcomplete L' en t f (fd_type fd) subs (p @ [PKey f]) y (t' + L' (p @ [PKey f])) (s2\<lparr>tcalls := tcalls s2 @ [(t', (t, f))]\<rparr>))"
          by blast
        from as_async_shape [OF thandle_out_shape [OF this]] \<open>field_of (e_schema en) t f = Some fd\<close> Some Inr
        show ?thesis by (simp add: Let_def)
      qed
    qed
  qed
qed

lemma complete_shape:
  assumes obj: "\<And>n. \<not> is_err x \<Longrightarrow> ty = Named n \<Longrightarrow> \<not> is_nullish x \<Longrightarrow> n \<notin> set scalar_names \<Longrightarrow>
      \<forall>L' t' s2. map snd (tcalls s) = map snd (tcalls s2) \<longrightarrow> tshape (texec_sels L en n x p subs t0 s) = tshape (texec_sels L' en n x p subs t' s2)"
    and nn: "\<And>ty'. \<not> is_err x \<Longrightarrow> ty = NonNull ty' \<Longrightarrow>
      \<forall>L' t' s2. map snd (tcalls s) = map snd (tcalls s2) \<longrightarrow> tshape (tcomplete L en t f ty' subs p x t0 s) = tshape (tcomplete L' en t f ty' subs p x t' s2)"
    and lst: "\<And>ty' xs. \<not> is_err x \<Longrightarrow> ty = ListOf ty' \<Longrightarrow> \<not> is_nullish x \<Longrightarrow> x = JArr xs \<Longrightarrow>
      \<forall>L' t' s2. map snd (tcalls s) = map snd (tcalls s2) \<longrightarrow>
        tshape (tcomplete_list L en t f ty' subs p 0 xs t0 s) = tshape (tcomplete_list L' en t f ty' subs p 0 xs t' s2)"
  shows "\<forall>L' t' s2. map snd (tcalls s) = map snd (tcalls s2) \<longrightarrow>
      tshape (tcomplete L en t f ty subs p x t0 s) = tshape (tcomplete L' en t f ty subs p x t' s2)"
proof (intro allI impI)
  fix L' t' and s2 :: tst assume n: "map snd (tcalls s) = map snd (tcalls s2)"
  show "tshape (tcomplete L en t f ty subs p x t0 s) = tshape (tcomplete L' en t f ty subs p x t' s2)"
  proof (cases rule: value_cases [where x = x and ty = ty])
    case (nonnull ty')
    from nn [OF nonnull] n have "tshape (tcomplete L en t f ty' subs p x t0 s) = tshape (tcomplete L' en t f ty' subs p x t' s2)"
      by blast
    from nonnull_shape [OF this] nonnull show ?thesis by (simp add: tcomplete_NonNull)
  next
    case (arr ty' xs)
    from lst [OF arr] n have "tshape (tcomplete_list L en t f ty' subs p 0 xs t0 s) = tshape (tcomplete_list L' en t f ty' subs p 0 xs t' s2)"
      by blast
    from map_Inr_shape [OF this, of RList] arr show ?thesis by (simp add: tcomplete_ListOf)
  next
    case (object n')
    from obj [OF object] n have "tshape (texec_sels L en n' x p subs t0 s) = tshape (texec_sels L' en n' x p subs t' s2)"
      by blast
    from map_Inr_shape [OF this, of RObj] object show ?thesis by (simp add: tcomplete_object)
  qed (use n in \<open>simp_all add: tcomplete_nullish tcomplete_ListOf_other tcomplete_scalar split: sum.splits\<close>)
qed

lemma list_step_shape:
  assumes IH1: "\<forall>L' t' s2. map snd (tcalls s) = map snd (tcalls s2) \<longrightarrow>
      tshape (tcomplete L en t f ty subs (p @ [PIdx i]) x t0 s) = tshape (tcomplete L' en t f ty subs (p @ [PIdx i]) x t' s2)"
    and IH2: "\<And>r1 m1 s1. thandle_out ty t0 (tcomplete L en t f ty subs (p @ [PIdx i]) x t0 s) = (r1, m1, s1) \<Longrightarrow>
      \<not> (isl r1 \<and> m1 = None) \<Longrightarrow>
      \<forall>L' t' s2. map snd (tcalls s1) = map snd (tcalls s2) \<longrightarrow>
        tshape (tcomplete_list L en t f ty subs p (Suc i) xs t0 s1) = tshape (tcomplete_list L' en t f ty subs p (Suc i) xs t' s2)"
  shows "\<forall>L' t' s2. map snd (tcalls s) = map snd (tcalls s2) \<longrightarrow>
      tshape (tcomplete_list L en t f ty subs p i (x # xs) t0 s) = tshape (tcomplete_list L' en t f ty subs p i (x # xs) t' s2)"
proof (intro allI impI)
  fix L' t' and s2 :: tst assume n: "map snd (tcalls s) = map snd (tcalls s2)"
  obtain r1 m1 s1 where t1: "thandle_out ty t0 (tcomplete L en t f ty subs (p @ [PIdx i]) x t0 s) = (r1, m1, s1)"
    by (metis prod_cases3)
  obtain r1' m1' s1' where t1': "thandle_out ty t' (tcomplete L' en t f ty subs (p @ [PIdx i]) x t' s2) = (r1', m1', s1')"
    by (metis prod_cases3)
  from IH1 n have "tshape (tcomplete L en t f ty subs (p @ [PIdx i]) x t0 s) = tshape (tcomplete L' en t f ty subs (p @ [PIdx i]) x t' s2)"
    by blast
  from thandle_out_shape [OF this, of ty t0 t'] have sh1: "tshape (r1, m1, s1) = tshape (r1', m1', s1')"
    using t1 t1' by simp
  then have n1: "map snd (tcalls s1) = map snd (tcalls s1')" by simp
  have sh2: "\<not> (isl r1 \<and> m1 = None) \<longrightarrow>
      tshape (tcomplete_list L en t f ty subs p (Suc i) xs t0 s1) = tshape (tcomplete_list L' en t f ty subs p (Suc i) xs t' s1')"
    using IH2 [OF t1] n1 by blast
  show "tshape (tcomplete_list L en t f ty subs p i (x # xs) t0 s) = tshape (tcomplete_list L' en t f ty subs p i (x # xs) t' s2)"
    unfolding tcomplete_list_Cons t1 t1' using tjoin_shape [OF sh1 sh2] by simp
qed

lemma texec_shape:
  "\<forall>L' t' s2. map snd (tcalls s) = map snd (tcalls s2) \<longrightarrow>
     tshape (texec_sels L en t v p sels t0 s) = tshape (texec_sels L' en t v p sels t' s2)"
  "\<forall>L' t' s2. map snd (tcalls s) = map snd (tcalls s2) \<longrightarrow>
     tshape (texec_field L en t v p sel t0 s) = tshape (texec_field L' en t v p sel t' s2)"
  "\<forall>L' t' s2. map snd (tcalls s) = map snd (tcalls s2) \<longrightarrow>
     tshape (tcomplete L en t f ty subs p x t0 s) = tshape (tcomplete L' en t f ty subs p x t' s2)"
  "\<forall>L' t' s2. map snd (tcalls s) = map snd (tcalls s2) \<longrightarrow>
     tshape (tcomplete_list L en t f ty subs p i xs t0 s) = tshape (tcomplete_list L' en t f ty subs p i xs t' s2)"
proof (induction L en t v p sels t0 s and L en t v p sel t0 s and L en t f ty subs p x t0 s
    and L en t f ty subs p i xs t0 s rule: texec_induct)
  case (2 L en t v p f a subs rest t0 s)
  from "2.IH" show ?case by (rule sels_step_shape)
next
  case (3 L en t v p f a subs t0 s)
  from "3.IH" show ?case by (rule field_shape)
next
  case (4 L en t f ty subs p x t0 s)
  from "4.IH" show ?case by (rule complete_shape)
next
  case (6 L en t f ty subs p i x xs t0 s)
  from "6.IH" show ?case by (rule list_step_shape)
qed simp_all

subsection \<open>The demo query\<close>

text \<open>On the demo store, where the second item's user is missing, graphql-js still calls
  \<^verbatim>\<open>User.items\<close> below that item's \<^verbatim>\<open>userId\<close>: one remote read more than the
  sequential executor, whose \<^verbatim>\<open>user\<close> field fails first.\<close>

lemma extra_calls_demo:
  "calls (snd (execute (apollo_server demo_store) items_user_userId_query))
     = [(''Query'', ''items''), (''Item'', ''user''), (''User'', ''items''), (''Item'', ''user''), (''Item'', ''user''), (''User'', ''items'')]
   \<and> map snd (tcalls (snd (snd (texecute L (apollo_server demo_store) items_user_userId_query))))
     = [(''Query'', ''items''), (''Item'', ''user''), (''User'', ''items''), (''Item'', ''user''), (''User'', ''items''),
        (''Item'', ''user''), (''User'', ''items'')]"
proof -
  have "map snd (tcalls (snd (snd (texecute (\<lambda>p. 1) (apollo_server demo_store) items_user_userId_query))))
     = [(''Query'', ''items''), (''Item'', ''user''), (''User'', ''items''), (''Item'', ''user''), (''User'', ''items''),
        (''Item'', ''user''), (''User'', ''items'')]"
    by code_simp
  moreover have "map snd (tcalls (snd (snd (texecute L (apollo_server demo_store) items_user_userId_query))))
      = map snd (tcalls (snd (snd (texecute (\<lambda>p. 1) (apollo_server demo_store) items_user_userId_query))))"
  proof -
    have "tshape (texec_sels L (apollo_server demo_store) ''Query'' JUndefined [] items_user_userId_query 0 init_tst)
        = tshape (texec_sels (\<lambda>p. 1) (apollo_server demo_store) ''Query'' JUndefined [] items_user_userId_query 0 init_tst)"
      using texec_shape(1) by blast
    then show ?thesis by (simp add: texecute_tcalls tshape_def)
  qed
  moreover have "calls (snd (execute (apollo_server demo_store) items_user_userId_query))
     = [(''Query'', ''items''), (''Item'', ''user''), (''User'', ''items''), (''Item'', ''user''), (''Item'', ''user''), (''User'', ''items'')]"
    by code_simp
  ultimately show ?thesis by simp
qed

subsection \<open>The two executors on the server\<close>

text \<open>Concurrency does not change the data: for every assignment of latencies to
  the resolver calls, the data of the response graphql-js builds with sibling promises
  running concurrently is the data of the sequential executor \<open>execute\<close>.\<close>

theorem timed_data_agrees: "fst (texecute L (apollo_server st) sels) = fst (execute (apollo_server st) sels)"
proof -
  have "data_of (fst (exec_sels (apollo_server st) ''Query'' JUndefined [] sels init_xst))
      = data_of (fst (texec_sels L (apollo_server st) ''Query'' JUndefined [] sels 0 init_tst))"
    using texec_data(1) by blast
  then show ?thesis
    by (auto simp: execute_def texecute_fst data_of_def split: prod.splits sum.splits)
qed

text \<open>The errors a client receives depend on timing: over the demo store, the query
  \<^verbatim>\<open>{ items { user { id } userId { items { id } } } }\<close> gets the same data under two
  latency assignments but different error lists.  The second item is nulled as soon as
  its \<^verbatim>\<open>user\<close> is found missing, while the \<^verbatim>\<open>User.items\<close> read started below its
  \<^verbatim>\<open>userId\<close> keeps running; its error is in the response only if it is recorded before
  the response settles.\<close>

theorem errors_depend_on_latency:
  "\<exists>L1 L2. fst (texecute L1 (apollo_server demo_store) items_user_userId_query)
             = fst (texecute L2 (apollo_server demo_store) items_user_userId_query)
         \<and> fst (snd (texecute L1 (apollo_server demo_store) items_user_userId_query))
             \<noteq> fst (snd (texecute L2 (apollo_server demo_store) items_user_userId_query))"
proof -
  have "length (fst (snd (texecute (\<lambda>p. 1) (apollo_server demo_store) items_user_userId_query))) = 4
      \<and> length (fst (snd (texecute slow_branch (apollo_server demo_store) items_user_userId_query))) = 3"
    by code_simp
  moreover have "fst (texecute (\<lambda>p. 1) (apollo_server demo_store) items_user_userId_query)
      = fst (texecute slow_branch (apollo_server demo_store) items_user_userId_query)"
    by code_simp
  ultimately show ?thesis by (metis n_not_Suc_n numeral_eq_Suc pred_numeral_simps(2) semiring_norm(26) semiring_norm(27))
qed

text \<open>Which remote calls a request makes does not depend on timing: for any two
  latency assignments the server calls the same resolvers, in the same program order.\<close>

theorem calls_latency_free:
  "map snd (tcalls (snd (snd (texecute L (apollo_server st) sels))))
     = map snd (tcalls (snd (snd (texecute L' (apollo_server st) sels))))"
proof -
  have "tshape (texec_sels L (apollo_server st) ''Query'' JUndefined [] sels 0 init_tst)
      = tshape (texec_sels L' (apollo_server st) ''Query'' JUndefined [] sels 0 init_tst)"
    using texec_shape(1) by blast
  then show ?thesis by (auto simp: texecute_tcalls tshape_def)
qed

text \<open>The sequential executor refines the concurrent one on the remote calls: the
  resolver calls \<open>execute\<close> records are a subsequence of those graphql-js makes, which
  also starts the siblings after a field that fails later, and never cancels them.\<close>

theorem seq_calls_subseq:
  "subseq (calls (snd (execute (apollo_server st) sels))) (map snd (tcalls (snd (snd (texecute L (apollo_server st) sels)))))"
proof -
  have "subseq (calls (snd (exec_sels (apollo_server st) ''Query'' JUndefined [] sels init_xst)))
      (map snd (tcalls (snd (snd (texec_sels L (apollo_server st) ''Query'' JUndefined [] sels 0 init_tst)))))"
    using texec_calls_subseq(1) by (simp add: init_xst_def)
  then show ?thesis by (auto simp: execute_def texecute_tcalls split: prod.splits sum.splits)
qed

end
