(* ===== verification/Timed_Responses.thy ===== *)
theory Timed_Responses
  imports Promises "HOL-Library.Multiset"
begin











text \<open>The order of the errors does depend on the timing, at the root already: when every
  read fails, \<^verbatim>\<open>{ user(id: "u1") { id } items { id } }\<close> reports the error of the root
  field whose read settles first first.\<close>

lemma root_error_order:
  "fst (snd (texecute (\<lambda>p. if p = [PKey ''user''] then 1 else 2)
      (apollo_server (demo_store\<lparr>fault := (\<lambda>_. Some (GrpcError 14 ''unreachable''))\<rparr>))
      [Sel ''user'' [(''id'', JStr ''u1'')] [Sel ''id'' [] []], Sel ''items'' [] [Sel ''id'' [] []]]))
   = [\<lparr>emsg = ''Error: 14 UNAVAILABLE: unreachable'', epath = [PKey ''user'']\<rparr>,
      \<lparr>emsg = ''14 UNAVAILABLE: unreachable'', epath = [PKey ''items'']\<rparr>]
   \<and> fst (snd (texecute (\<lambda>p. if p = [PKey ''user''] then 2 else 1)
      (apollo_server (demo_store\<lparr>fault := (\<lambda>_. Some (GrpcError 14 ''unreachable''))\<rparr>))
      [Sel ''user'' [(''id'', JStr ''u1'')] [Sel ''id'' [] []], Sel ''items'' [] [Sel ''id'' [] []]]))
   = [\<lparr>emsg = ''14 UNAVAILABLE: unreachable'', epath = [PKey ''items'']\<rparr>,
      \<lparr>emsg = ''Error: 14 UNAVAILABLE: unreachable'', epath = [PKey ''user'']\<rparr>]"
  by code_simp

subsection \<open>The theorem at a concrete input\<close>


end
