(* ===== verification/Spec2Isabelle.thy ===== *)
theory Spec2Isabelle
  imports Execution Contract Conformance Startup Async Timed_Responses
begin

text \<open>
  \<^bold>\<open>A verification development of \<^verbatim>\<open>src/apollo/src/index.ts\<close>.\<close>

  \<^bold>\<open>The program.\<close>  One TypeScript module: it initialises the Firebase Admin client from a
  service-account file (lines 4--8), declares a GraphQL schema with the types \<^verbatim>\<open>User\<close>,
  \<^verbatim>\<open>Item\<close>, \<^verbatim>\<open>Comment\<close> and \<^verbatim>\<open>Query\<close> (lines 10--37), defines four resolvers
  (lines 39--92) and starts an Apollo server (lines 94--102).  The resolvers are the
  behaviour: \<^verbatim>\<open>Query.items\<close> lists the \<^verbatim>\<open>items\<close> collection, \<^verbatim>\<open>Query.user(id)\<close>
  reads \<^verbatim>\<open>users/<id>\<close>, \<^verbatim>\<open>User.items\<close> queries \<^verbatim>\<open>items\<close> for \<^verbatim>\<open>userId == user.id\<close>,
  \<^verbatim>\<open>Item.user\<close> reads \<^verbatim>\<open>users/<item.userId>\<close>.  Each is one remote call to the
  database; three of them turn any failure into an \<^verbatim>\<open>ApolloError\<close>, \<^verbatim>\<open>Query.items\<close>
  lets it through, and \<^verbatim>\<open>Query.user\<close> returns an error object as data when the user is
  missing.  The GraphQL executor calls the resolvers and feeds each result to the
  resolvers of the nested fields.

  \<^bold>\<open>The theories.\<close>
  \<^item> \<open>Prelude\<close>: the result type \<open>'e + 'a\<close> of an \<^verbatim>\<open>async\<close> function (\<open>Inl\<close> a
    rejection), \<open>sbind\<close> for \<^verbatim>\<open>await\<close>, \<open>rethrow\<close> for \<^verbatim>\<open>try/catch/throw\<close>; strictly
    sorted association lists and their insertion \<open>upd_sorted\<close>; the collections
    \<open>js_simps\<close>, \<open>store_simps\<close>, \<open>resolver_simps\<close> that evaluate concrete runs.
  \<^item> \<open>JsValue\<close>: JavaScript values (\<open>jsval\<close>) and errors (\<open>jserr\<close>); property access
    \<open>get_prop\<close> (a \<^verbatim>\<open>TypeError\<close> on \<^verbatim>\<open>undefined\<close>/\<^verbatim>\<open>null\<close>), template-literal
    \<open>js_to_string\<close>, truthiness and \<open>js_or\<close> for \<^verbatim>\<open>||\<close>, \<open>error_to_string\<close> for
    \<^verbatim>\<open>Error.prototype.toString\<close>, \<open>js_split\<close>/\<open>js_join\<close> with their round trip.
  \<^item> \<open>Firestore\<close>: the database client as the program uses it.  The store
    (\<open>fstore\<close>) is a list of documents sorted strictly by path plus a fault oracle that
    decides which remote calls fail; \<open>fs_doc\<close>/\<open>fs_collection\<close> validate and split a
    path string as \<^verbatim>\<open>doc()\<close>/\<^verbatim>\<open>collection()\<close> do; \<open>fs_where\<close>, \<open>doc_get\<close>,
    \<open>query_get\<close>, \<open>snapshot_data\<close> are \<^verbatim>\<open>where\<close>, \<^verbatim>\<open>get\<close> and \<^verbatim>\<open>data()\<close>;
    \<open>fs_set\<close> is the external writer.  Lemmas: paths print and parse back
    (\<open>fs_doc_roundtrip\<close>); \<open>wf_store\<close> is kept by every write (\<open>fs_set_wf\<close>); writes
    and queries refine the abstract map \<open>map_of (docs st)\<close> (\<open>fs_set_refines\<close>,
    \<open>query_get_refines\<close>); results come in document-id order.
  \<^item> \<open>Resolvers\<close>: \<open>User_items\<close>, \<open>Item_user\<close>, \<open>Query_items\<close>, \<open>Query_user\<close>, one
    definition per resolver, each a chain of \<open>sbind\<close> steps in the source's evaluation
    order, and the map \<open>resolvers\<close>.  Claims C1--C6 and C8--C12: the functional
    behaviour of every resolver on every branch (found, missing, store failure,
    invalid id, parent without id), the agreement of \<^verbatim>\<open>User.items\<close> with
    \<^verbatim>\<open>Query.items\<close>, the kinds of rejection, and the path escape of \<^verbatim>\<open>Query.user\<close>.
  \<^item> \<open>Schema\<close>: \<open>typeDefs\<close> as data, with a validity check \<open>schema_wf\<close>.
  \<^item> \<open>Execution\<close>: the GraphQL execution that \<^verbatim>\<open>new ApolloServer\<close> (lines 94--97,
    \<open>apollo_server\<close>) runs for each request, modelled from graphql-js: \<open>exec_sels\<close>,
    \<open>exec_field\<close>, \<open>complete\<close> and \<open>complete_list\<close> (one mutually recursive
    \<open>function\<close>, terminating by the size of the selection, then of the declared type,
    then of the value), \<open>handle_error\<close> for null propagation, and \<open>execute\<close> for the
    whole response.  This executor runs sibling fields one after another; the state
    \<open>xst\<close> collects the errors with their paths and logs every call of a resolver of
    the map.  Claims C13--C18 and C23 are about what a client receives:
    \<^verbatim>\<open>{ user: null }\<close> with "User not found." for a missing user (C13); the message a
    store failure carries (C14); \<^verbatim>\<open>Item.userId\<close> nulls every item (C15); \<open>N\<close> items
    with their users mean \<open>N + 1\<close> resolver calls (C16); an item whose user is missing
    is nulled (C17); \<^verbatim>\<open>Item.comments\<close> is always \<^verbatim>\<open>null\<close>, so \<^verbatim>\<open>Comment\<close> is never
    reached (C18); a user document that does not store its own key answers
    \<^verbatim>\<open>user: null\<close> for \<^verbatim>\<open>id\<close> and \<^verbatim>\<open>items: null\<close> for its items (C23).
  \<^item> \<open>Contract\<close>: the API's contract over an abstract database, a \<open>Mapping\<close> from
    paths to documents with the store's availability (\<open>astate\<close>, \<open>abs_state\<close>);
    \<open>api_spec\<close>/\<open>api_fail\<close> are the answers section 4 of the spec gives to the four
    resolver calls.  C19: every sequence of external writes, availability changes and
    calls is simulated by the abstract run (refinement); every store reachable from the
    empty database is well formed (\<open>store_reach_wf\<close>, by rule induction); C21: each
    call depends on the store's availability only through its one remote request
    \<open>api_request\<close>.
  \<^item> \<open>Conformance\<close>: type soundness of the executor model: \<open>conforms\<close> says which
    values a position of a declared type may hold, and the data of every response
    conforms to \<open>typeDefs\<close> and the query (\<open>execute_conforms\<close>).  This holds of the
    executor whatever the resolvers return; it checks the model, not the program.
  \<^item> \<open>Startup\<close>: lines 4--8, \<^verbatim>\<open>require('../service-account.json')\<close> and
    \<^verbatim>\<open>initializeApp({ credential: cert(serviceAccount) })\<close> (\<open>module_start\<close>), with the
    Firebase Admin calls modelled from the library's documented behaviour: the
    service-account check of \<^verbatim>\<open>cert()\<close> (\<open>fb_cert\<close>), the default app
    (\<open>fb_initialize_app\<close>) and \<^verbatim>\<open>firestore()\<close>, which creates the project's client on
    its first call and caches it (\<open>fb_firestore\<close>).  C22: a start fails only with a
    missing file or a credential error, never a duplicate app.
  \<^item> \<open>Promises\<close>: the execution graphql-js really performs, with the promises of
    sibling fields running concurrently at every depth: \<open>texec_sels\<close>,
    \<open>texec_field\<close>, \<open>tcomplete\<close>, \<open>tcomplete_list\<close> and \<open>texecute\<close> mirror the
    sequential functions, calling every sibling's resolver before any promise settles,
    aborting on a synchronous error and otherwise joining with \<^verbatim>\<open>Promise.all\<close>
    (\<open>pall\<close>); a latency \<open>L\<close> gives each resolver call's settling time, and every
    theorem quantifies over it, so over every completion order of the remote reads.
  \<^item> \<open>Async\<close>: the two executors compared, for every resolver map.  The data of a
    response are those of \<open>execute\<close> whatever the timing (\<open>texec_data\<close>), which is why
    the claims about response data are stated on the simpler sequential executor; the
    calls made do not depend on the timing (\<open>texec_shape\<close>) and include those of
    \<open>execute\<close> (\<open>texec_calls_subseq\<close>), strictly so on the demo store, since
    graphql-js keeps running the siblings of a field that fails.
  \<^item> \<open>Timed_Responses\<close>: responses of this server under the concurrent executor.  C24:
    for every latency, the N+1 query \<^verbatim>\<open>{ items { user { id } } }\<close> reports exactly one
    error per item whose user is missing, in an order that depends on the timing
    (\<open>root_error_order\<close> shows the order changing at the root).
  \<^item> This theory: properties across components: user \<open>\<rightarrow>\<close> items \<open>\<rightarrow>\<close> user navigation
    (C7) and the round trip of a written user through the whole server (C20).

  \<^bold>\<open>How the model corresponds to the code.\<close>  Every resolver calls
  \<^verbatim>\<open>firebaseAdmin.firestore()\<close> (lines 44, 59, 72, 81); after a start this returns the
  one cached client of the project (\<open>Startup.store_handle_shared\<close>, a fact of the
  library), so the store is a parameter \<open>st\<close> of every resolver.  The parent and the
  arguments are \<open>jsval\<close>s; a resolver's promise is its \<open>'e + 'a\<close> result.  Remote calls
  are deterministic given the store and its fault oracle, so a "store failure during a
  resolver" is a store whose oracle fails that request.  The client libraries are not
  code of this repository: their functions are modelled from their documented
  behaviour (messages abbreviated), and every claim is about a resolver, the schema or
  the start-up code.  All functions are total and structural (\<open>nat_str\<close> recurses on
  \<open>n div 10\<close>); the executors recurse on the query and the value, and the concurrent
  one represents waiting by settling times, so no fuel or bound is needed.  Every
  concrete run is evaluated in the kernel by \<open>simp\<close> or \<open>code_simp\<close>.

  \<^bold>\<open>Not modelled.\<close>  Reading and JSON-parsing the credential file (the file is given
  as its parsed value) and the PEM parser of the private key (a parameter); the
  database behind a project id (the parameter \<open>dbs\<close> of \<open>fb_firestore\<close>); binding the
  port and the HTTP transport of \<^verbatim>\<open>server.listen\<close> (only its log line,
  \<open>server_ready_log\<close>, is modelled); Apollo's formatting of errors into the response
  (\<open>extensions\<close>, codes, stack traces): an \<^verbatim>\<open>ApolloError\<close> is its message only, and a
  response error is its message and path; query parsing and validation, variables,
  fragments and aliases (the theorems are about valid queries written as selection
  lists); the scalars \<^verbatim>\<open>Int\<close>, \<^verbatim>\<open>Float\<close>, \<^verbatim>\<open>Boolean\<close>, which the schema does not use;
  the microtask order of promises settling at the same time (taken in program order)
  and errors recorded after the response is sent (left out of it); database features
  the program does not call (other operators, ordering clauses, transactions).  Numbers
  are integers; Firestore's order-insensitive equality of map values is not modelled.
\<close>

lemma User_items_member:
  assumes "User_items st user = Inr (JArr xs)" and "x \<in> set xs"
    and "get_prop user ''id'' = Inr v" and "fs_value v"
  shows "\<exists>p fs. x = JObj fs \<and> (p, fs) \<in> set (docs st) \<and> is_child [''items''] p \<and> map_of fs ''userId'' = Some v"
proof -
  obtain ds where q: "query_get st (FQuery [''items''] [(''userId'', v)]) = Inr ds" and xs: "JArr xs = docs_data ds"
    using assms(1,3,4) by (auto simp: User_items_query rethrow_eq_Inr_iff sbind_eq_Inr_iff)
  then have ds: "ds = filter (\<lambda>(p, fs). is_child [''items''] p \<and> matches [(''userId'', v)] fs) (docs st)"
    by (simp add: query_get_result)
  from xs assms(2) obtain d where "d \<in> set ds" and "x = JObj (snd d)"
    by (auto simp: docs_data_def snapshot_data_def)
  with ds show ?thesis by (cases d) (auto simp: matches_userId)
qed

text \<open>C7. Navigating from a user to its items and back: when the user document
  \<^verbatim>\<open>users/k\<close> stores its own key in its \<^verbatim>\<open>id\<close> field, \<^verbatim>\<open>Item.user\<close> of every item that
  \<^verbatim>\<open>User.items\<close> returns for it is that same user document.\<close>

theorem navigation_roundtrip:
  assumes "map_of (docs st) [''users'', k] = Some ufs" and "map_of ufs ''id'' = Some (JStr k)"
    and "valid_key k" and "fault st (GetDoc [''users'', k]) = None"
    and "User_items st (JObj ufs) = Inr (JArr xs)" and "x \<in> set xs"
  shows "Item_user st x = Inr (JObj ufs)"
proof -
  have uid: "get_prop (JObj ufs) ''id'' = Inr (JStr k)" using assms(2) by simp
  obtain p fs where x: "x = JObj fs" and fs: "map_of fs ''userId'' = Some (JStr k)"
    using User_items_member [OF assms(5,6) uid] by auto
  have "get_prop x ''userId'' = Inr (JStr k)" using x fs by simp
  with assms(1,4) users_key_path [OF assms(3)] show ?thesis
    by (simp add: Item_user_def doc_get_def snapshot_data_def)
qed

text \<open>Every resolver the source registers names a field its schema declares, so
  the server's schema construction (lines 94--97) accepts the resolver map.\<close>

theorem resolvers_in_schema:
  "list_all (\<lambda>(t, rs). list_all (\<lambda>(f, r). field_of typeDefs t f \<noteq> None) rs) resolvers"
  by (simp add: resolvers_def typeDefs_def field_of_def fld_def)

text \<open>C20. Round trip through the whole server: a user document written with \<^verbatim>\<open>set()\<close>
  with string fields id, name and birthday is answered, field for field and unchanged, by
  the query \<^verbatim>\<open>{ user(id: k) { id name birthday } }\<close>, without errors.\<close>

theorem write_query_roundtrip:
  assumes "fs_set st [''users'', k] [(''id'', JStr i), (''name'', JStr n), (''birthday'', JStr b)] = Inr st'"
    and "fault st' (GetDoc [''users'', k]) = None"
  shows "execute (apollo_server st') [Sel ''user'' [(''id'', JStr k)] [Sel ''id'' [] [], Sel ''name'' [] [], Sel ''birthday'' [] []]]
       = (RObj [(''user'', RObj [(''id'', RStr i), (''name'', RStr n), (''birthday'', RStr b)])],
          \<lparr>errs = [], calls = [(''Query'', ''user'')]\<rparr>)"
proof -
  let ?ufs = "[(''id'', JStr i), (''name'', JStr n), (''birthday'', JStr b)]"
  from assms(1) have path: "is_doc_path [''users'', k]"
    and st': "st' = st\<lparr>docs := upd_sorted [''users'', k] ?ufs (docs st)\<rparr>"
    by (simp_all add: fs_set_Inr_iff)
  from path have k: "valid_key k" by (simp add: is_doc_path_def valid_key_def)
  have "Query_user st' (JObj [(''id'', JStr k)]) = Inr (JObj ?ufs)"
    using assms(2) users_key_path [OF k] by (simp add: Query_user_def doc_get_def st' map_of_upd_sorted snapshot_data_def)
  moreover have "list_all (\<lambda>f. f \<in> set [''id'', ''name'', ''birthday''] \<and> (\<exists>v. map_of ?ufs f = Some (JStr v)))
      [''id'', ''name'', ''birthday'']" by simp
  ultimately show ?thesis
    using exec_user_scalars [of ?ufs "[''id'', ''name'', ''birthday'']" st' "[PKey ''user'']" "\<lparr>errs = [], calls = [(''Query'', ''user'')]\<rparr>"]
    by (simp add: execute_def resolve_def lookup_resolver_server field_of_Query_user init_xst_def
        complete_object is_err_def is_nullish_def scalar_names_def)
qed

subsection \<open>The theorems at concrete inputs\<close>

theorem navigation_roundtrip_witness:
  "Item_user demo_store (JObj [(''id'', JStr ''i3''), (''userId'', JStr ''u1''), (''title'', JStr ''T3''), (''content'', JStr ''C3'')])
     = Inr (JObj [(''id'', JStr ''u1''), (''name'', JStr ''Ann''), (''birthday'', JStr ''2000-01-01'')])"
proof (rule navigation_roundtrip [where k = "''u1''"])
  show "User_items demo_store (JObj [(''id'', JStr ''u1''), (''name'', JStr ''Ann''), (''birthday'', JStr ''2000-01-01'')])
        = Inr (JArr [JObj [(''id'', JStr ''i1''), (''userId'', JStr ''u1''), (''title'', JStr ''T1''), (''content'', JStr ''C1'')],
                     JObj [(''id'', JStr ''i3''), (''userId'', JStr ''u1''), (''title'', JStr ''T3''), (''content'', JStr ''C3'')]])"
    by (simp add: resolver_simps store_simps demo_store_def)
qed (simp_all add: store_simps demo_store_def)

theorem write_query_roundtrip_witness:
  "execute (apollo_server (demo_store\<lparr>docs := upd_sorted [''users'', ''u2'']
        [(''id'', JStr ''u2''), (''name'', JStr ''Bo''), (''birthday'', JStr ''1999-12-31'')] (docs demo_store)\<rparr>))
      [Sel ''user'' [(''id'', JStr ''u2'')] [Sel ''id'' [] [], Sel ''name'' [] [], Sel ''birthday'' [] []]]
   = (RObj [(''user'', RObj [(''id'', RStr ''u2''), (''name'', RStr ''Bo''), (''birthday'', RStr ''1999-12-31'')])],
      \<lparr>errs = [], calls = [(''Query'', ''user'')]\<rparr>)"
proof (rule write_query_roundtrip)
  show "fs_set demo_store [''users'', ''u2''] [(''id'', JStr ''u2''), (''name'', JStr ''Bo''), (''birthday'', JStr ''1999-12-31'')]
        = Inr (demo_store\<lparr>docs := upd_sorted [''users'', ''u2'']
            [(''id'', JStr ''u2''), (''name'', JStr ''Bo''), (''birthday'', JStr ''1999-12-31'')] (docs demo_store)\<rparr>)"
    by (simp add: fs_set_def is_doc_path_def wf_fields_def)
  show "fault (demo_store\<lparr>docs := upd_sorted [''users'', ''u2'']
            [(''id'', JStr ''u2''), (''name'', JStr ''Bo''), (''birthday'', JStr ''1999-12-31'')] (docs demo_store)\<rparr>)
          (GetDoc [''users'', ''u2'']) = None"
    by (simp add: demo_store_def)
qed

end
